theory Spec2Isabelle
  imports Main "HOL-Library.List_Lexorder" "HOL-Library.AList"
begin

section \<open>Strings\<close>

text \<open>
  A JavaScript string is a sequence of UTF-16 code units; \<open>text.split('')\<close>, \<open>text[i]\<close>,
  \<open>text.length\<close> and \<open>charCodeAt(0)\<close> all work on code units. A code unit is modelled by its
  number, a string by the list of its code units. Every letter the source names is in the
  Basic Multilingual Plane and so is one code unit. The comparison \<open><\<close> of two strings is
  the lexicographic order of the code units, which is the order of lists here.
\<close>

type_synonym jschar = nat
type_synonym jsstring = "jschar list"

definition lit :: "string \<Rightarrow> jsstring" where
  "lit s = map of_char s"

text \<open>\<open>Array.prototype.join\<close> on an array of strings.\<close>

fun join :: "jsstring \<Rightarrow> jsstring list \<Rightarrow> jsstring" where
  "join sep [] = []"
| "join sep [x] = x"
| "join sep (x # y # ys) = x @ sep @ join sep (y # ys)"

text \<open>
  The decimal digits of a natural number, most significant first, and the decimal
  string of a natural number and of an integer.
\<close>

function digits :: "nat \<Rightarrow> nat list" where
  "digits n = (if n < 10 then [n] else digits (n div 10) @ [n mod 10])"
  by pat_completeness auto
termination
  by (relation "measure (\<lambda>n. n)") auto

declare digits.simps [simp del]

definition digitChar :: "nat \<Rightarrow> jschar" where
  "digitChar d = 48 + d"

definition showNat :: "nat \<Rightarrow> jsstring" where
  "showNat n = map digitChar (digits n)"

definition showInt :: "int \<Rightarrow> jsstring" where
  "showInt i = (if i < 0 then 45 # showNat (nat (- i)) else showNat (nat i))"


section \<open>Numbers\<close>

text \<open>
  A JavaScript number is an IEEE 754 double. The letter weights, the entity ids and
  the entity values are integers, and what the source computes from them is an integer,
  an infinity or NaN: such a number is a \<open>jsint\<close>, where \<open>IntVal i\<close> is the double whose
  value is the integer \<open>i\<close> (both zeros are \<open>IntVal 0\<close>) and \<open>Infinity neg\<close> is the
  infinity of that sign. An integer is the value of a double when it has at most 53
  significant bits and is below \<open>2^1024\<close> in magnitude.

  The result of an addition or a subtraction of doubles is the exact result rounded to
  the nearest double, to the one with the even significand when two are as near, and to
  an infinity from \<open>2^1024 - 2^970\<close> on. \<open>exponentOf m\<close> is the number of low bits that
  \<open>m\<close> has beyond 53 (\<open>9007199254740992\<close> is \<open>2^53\<close>), \<open>roundNat m\<close> the natural number
  \<open>m\<close> rounded to 53 significant bits, \<open>roundNumber i\<close> the double nearest to the integer
  \<open>i\<close>.
\<close>

function exponentOf :: "nat \<Rightarrow> nat" where
  "exponentOf m = (if m < 9007199254740992 then 0 else Suc (exponentOf (m div 2)))"
  by pat_completeness auto
termination
  by (relation "measure (\<lambda>m. m)") auto

declare exponentOf.simps [simp del]

definition roundNat :: "nat \<Rightarrow> nat" where
  "roundNat m =
     (let e = exponentOf m; q = m div 2 ^ e; r = m mod 2 ^ e
      in if 2 ^ e < 2 * r \<or> (2 * r = 2 ^ e \<and> odd q) then (q + 1) * 2 ^ e else q * 2 ^ e)"

datatype jsint = NaN | Infinity bool | IntVal int

definition roundNumber :: "int \<Rightarrow> jsint" where
  "roundNumber i =
     (let m = roundNat (nat \<bar>i\<bar>)
      in if 2 ^ 1024 \<le> m then Infinity (i < 0)
         else IntVal (if i < 0 then - int m else int m))"

definition representable :: "int \<Rightarrow> bool" where
  "representable i = (roundNumber i = IntVal i)"

text \<open>\<open>a + b\<close>, \<open>- a\<close> and \<open>a - b\<close> on these numbers.\<close>

fun plusNumber :: "jsint \<Rightarrow> jsint \<Rightarrow> jsint" where
  "plusNumber (IntVal a) (IntVal b) = roundNumber (a + b)"
| "plusNumber (IntVal a) (Infinity neg) = Infinity neg"
| "plusNumber (Infinity neg) (IntVal b) = Infinity neg"
| "plusNumber (Infinity neg) (Infinity neg') = (if neg = neg' then Infinity neg else NaN)"
| "plusNumber NaN b = NaN"
| "plusNumber a NaN = NaN"

fun negateNumber :: "jsint \<Rightarrow> jsint" where
  "negateNumber NaN = NaN"
| "negateNumber (Infinity neg) = Infinity (\<not> neg)"
| "negateNumber (IntVal a) = IntVal (- a)"

definition minusNumber :: "jsint \<Rightarrow> jsint \<Rightarrow> jsint" where
  "minusNumber a b = plusNumber a (negateNumber b)"

text \<open>
  \<open>Number::toString\<close> of ECMAScript starts from the digits \<open>ds = d1 ... dk\<close> of the
  shortest decimal that identifies the double and from the exponent \<open>n\<close>, the number
  being \<open>0.d1...dk * 10^n\<close>: plain decimal notation when \<open>-6 < n \<le> 21\<close>, exponent notation
  otherwise.
\<close>

definition decimalString :: "nat list \<Rightarrow> int \<Rightarrow> jsstring" where
  "decimalString ds n =
     (let k = int (length ds)
      in if k \<le> n \<and> n \<le> 21 then map digitChar ds @ replicate (nat (n - k)) 0x30
         else if 0 < n \<and> n \<le> 21
           then map digitChar (take (nat n) ds) @ [0x2E] @ map digitChar (drop (nat n) ds)
         else if - 6 < n \<and> n \<le> 0
           then [0x30, 0x2E] @ replicate (nat (- n)) 0x30 @ map digitChar ds
         else
           let e = n - 1;
               exponent = (if e < 0 then 0x2D else 0x2B) # showNat (nat \<bar>e\<bar>)
           in if k = 1 then map digitChar ds @ [0x65] @ exponent
              else map digitChar (take 1 ds) @ [0x2E] @ map digitChar (drop 1 ds)
                     @ [0x65] @ exponent)"

text \<open>
  The string of an integer-valued number. Below \<open>2^53\<close> every integer is a double, and
  the shortest decimal that identifies it is the integer itself: the string is its
  decimal digits. From \<open>2^53\<close> on, the decimal is the one with the fewest significant
  digits that rounds to the number, and the nearest of these: with \<open>n\<close> the number of
  digits of \<open>m\<close>, the decimals of \<open>k\<close> significant digits next to \<open>m\<close> are the two multiples
  of \<open>10^(n - k)\<close> around it, tried for \<open>k = 1, 2, ...\<close>, the nearer first (the one with
  the even last digit first when both are as near). The decimal \<open>c\<close> found is printed
  in full when it has at most 21 digits, and in exponent notation otherwise.
\<close>

definition stripZeros :: "nat list \<Rightarrow> nat list" where
  "stripZeros ds = rev (dropWhile (\<lambda>d. d = 0) (rev ds))"

definition candidates :: "nat \<Rightarrow> nat list" where
  "candidates m =
     concat (map (\<lambda>k.
        let p = 10 ^ (length (digits m) - k); lo = (m div p) * p; hi = lo + p
        in if m - lo < hi - m then [lo, hi]
           else if hi - m < m - lo then [hi, lo]
           else if even (m div p) then [lo, hi] else [hi, lo])
       [1..<Suc (length (digits m))])"

definition shortestDecimal :: "nat \<Rightarrow> nat" where
  "shortestDecimal m =
     (case find (\<lambda>c. roundNat c = m) (candidates m) of Some c \<Rightarrow> c | None \<Rightarrow> m)"

definition natString :: "nat \<Rightarrow> jsstring" where
  "natString m =
     (if m < 9007199254740992 then showNat m
      else let c = shortestDecimal m; n = length (digits c)
           in if n \<le> 21 then showNat c else decimalString (stripZeros (digits c)) (int n))"

definition intString :: "int \<Rightarrow> jsstring" where
  "intString i = (if i < 0 then 0x2D # natString (nat (- i)) else natString (nat i))"

text \<open>\<open>String(v)\<close> for these numbers.\<close>

fun String_of :: "jsint \<Rightarrow> jsstring" where
  "String_of NaN = lit ''NaN''"
| "String_of (Infinity neg) = (if neg then lit ''-Infinity'' else lit ''Infinity'')"
| "String_of (IntVal i) = intString i"


section \<open>JavaScript values\<close>

text \<open>
  A number as an argument of the public functions. \<open>NumInt i\<close> is the integer \<open>i\<close>.
  \<open>NumFrac neg ds n\<close> is a finite number that is not an integer, given by what
  \<open>Number::toString\<close> starts from: \<open>ds = d1 ... dk\<close> are the decimal digits of the
  shortest digit string that identifies the double (\<open>d1\<close> and \<open>dk\<close> are not zero), and
  the number is \<open>0.d1...dk * 10^n\<close>, negated when \<open>neg\<close>; it is not an integer, so
  \<open>n < k\<close>.
\<close>

datatype jsnumber = NumNaN | NumInfinity bool | NumInt int | NumFrac bool "nat list" int

fun toNumber :: "jsint \<Rightarrow> jsnumber" where
  "toNumber NaN = NumNaN"
| "toNumber (Infinity neg) = NumInfinity neg"
| "toNumber (IntVal i) = NumInt i"

fun numberToString :: "jsnumber \<Rightarrow> jsstring" where
  "numberToString NumNaN = lit ''NaN''"
| "numberToString (NumInfinity neg) = (if neg then lit ''-Infinity'' else lit ''Infinity'')"
| "numberToString (NumInt i) = intString i"
| "numberToString (NumFrac neg ds n) = (if neg then [0x2D] else []) @ decimalString ds n"

text \<open>
  A thrown exception, with its \<open>message\<close>. The source throws \<open>Error\<close> itself; the engine
  throws \<open>TypeError\<close> when a method is called on a value that has none, or when a symbol
  is converted to a string.
\<close>

datatype exn = Error jsstring | TypeError jsstring

fun message :: "exn \<Rightarrow> jsstring" where
  "message (Error m) = m"
| "message (TypeError m) = m"

text \<open>
  The values a caller can pass: the primitive values, and objects. Of an object the
  model keeps what the conversion to a string (\<open>ToString\<close>, which calls the object's own
  \<open>toString\<close> or \<open>valueOf\<close>) makes of it, the string or the exception thrown; an array
  \<open>[66]\<close> is \<open>JSObject (Inr ''66'')\<close>. The objects modelled are not callable and have no
  method \<open>trim\<close>.
\<close>

datatype jsval =
    JSUndefined | JSNull | JSBoolean bool | JSNumber jsnumber | JSString jsstring
  | JSBigInt int | JSSymbol | JSObject "exn + jsstring"

text \<open>\<open>!v\<close> and \<open>typeof v\<close>.\<close>

fun falsy :: "jsval \<Rightarrow> bool" where
  "falsy JSUndefined = True"
| "falsy JSNull = True"
| "falsy (JSBoolean b) = (\<not> b)"
| "falsy (JSNumber x) = (x = NumNaN \<or> x = NumInt 0)"
| "falsy (JSString s) = (s = [])"
| "falsy (JSBigInt i) = (i = 0)"
| "falsy JSSymbol = False"
| "falsy (JSObject c) = False"

fun typeof :: "jsval \<Rightarrow> jsstring" where
  "typeof JSUndefined = lit ''undefined''"
| "typeof JSNull = lit ''object''"
| "typeof (JSBoolean b) = lit ''boolean''"
| "typeof (JSNumber x) = lit ''number''"
| "typeof (JSString s) = lit ''string''"
| "typeof (JSBigInt i) = lit ''bigint''"
| "typeof JSSymbol = lit ''symbol''"
| "typeof (JSObject c) = lit ''object''"


section \<open>TextProcessor\<close>

definition ARABIC_DIACRITICS :: "(jschar \<times> string) list" where
  "ARABIC_DIACRITICS =
    [(0x064B, ''FATHATAN''), (0x064C, ''DAMMATAN''), (0x064D, ''KASRATAN''),
     (0x064E, ''FATHA''), (0x064F, ''DAMMA''), (0x0650, ''KASRA''),
     (0x0651, ''SHADDA''), (0x0652, ''SUKUN''), (0x0653, ''MADDAH''),
     (0x0654, ''HAMZA_ABOVE''), (0x0655, ''HAMZA_BELOW''), (0x0656, ''SUBSCRIPT_ALEF''),
     (0x0657, ''INVERTED_DAMMA''), (0x0658, ''MARK_NOON''), (0x0670, ''ALEF_WASLA'')]"

definition ARABIC_CHAR_VARIANTS :: "(jschar \<times> jschar) list" where
  "ARABIC_CHAR_VARIANTS =
    [(0x0649, 0x0627), (0x0671, 0x0627), (0x0680, 0x0628),
     (0x06BE, 0x0647), (0x06C1, 0x0647), (0x06C2, 0x0647),
     (0x0678, 0x064A), (0x06D2, 0x064A), (0x06D3, 0x064A)]"

definition VALID_ARABIC_LETTERS :: "jschar list" where
  "VALID_ARABIC_LETTERS =
    [0x0627, 0x0628, 0x062A, 0x062B, 0x062C, 0x062D, 0x062E,
     0x062F, 0x0630, 0x0631, 0x0632, 0x0633, 0x0634, 0x0635,
     0x0636, 0x0637, 0x0638, 0x0639, 0x063A, 0x0641, 0x0642,
     0x0643, 0x0644, 0x0645, 0x0646, 0x0647, 0x0648, 0x064A,
     0x0679, 0x067E, 0x06AF, 0x06BA, 0x06C1, 0x06C3, 0x0688,
     0x0691, 0x0693, 0x0698, 0x06D2, 0x06D4]"

text \<open>
  \<open>this.ARABIC_DIACRITICS[char]\<close> is truthy exactly for the keys of the table (every
  value is a non-empty string, and \<open>Object.prototype\<close> has no one-character property).
\<close>

definition isDiacritic :: "jschar \<Rightarrow> bool" where
  "isDiacritic c = (map_of ARABIC_DIACRITICS c \<noteq> None)"

definition removeDiacritics :: "jsstring \<Rightarrow> jsstring" where
  "removeDiacritics text = filter (\<lambda>char. \<not> isDiacritic char) text"

definition normalizeChar :: "jschar \<Rightarrow> jschar" where
  "normalizeChar char = (case map_of ARABIC_CHAR_VARIANTS char of Some v \<Rightarrow> v | None \<Rightarrow> char)"

definition normalizeVariants :: "jsstring \<Rightarrow> jsstring" where
  "normalizeVariants text = map normalizeChar text"

text \<open>
  The code units that \<open>String.prototype.trim\<close> strips and that \<open>\s\<close> matches: ECMAScript's
  WhiteSpace and LineTerminator.
\<close>

definition isWhiteSpace :: "jschar \<Rightarrow> bool" where
  "isWhiteSpace c =
     ((0x0009 \<le> c \<and> c \<le> 0x000D) \<or> c = 0x0020 \<or> c = 0x00A0 \<or> c = 0x1680
      \<or> (0x2000 \<le> c \<and> c \<le> 0x200A) \<or> c = 0x2028 \<or> c = 0x2029 \<or> c = 0x202F
      \<or> c = 0x205F \<or> c = 0x3000 \<or> c = 0xFEFF)"

definition trim :: "jsstring \<Rightarrow> jsstring" where
  "trim text = rev (dropWhile isWhiteSpace (rev (dropWhile isWhiteSpace text)))"

text \<open>\<open>.replace(/\s+/g, ' ')\<close>: every maximal run of white space becomes one space.\<close>

function collapseSpaces :: "jsstring \<Rightarrow> jsstring" where
  "collapseSpaces [] = []"
| "collapseSpaces (c # cs) =
     (if isWhiteSpace c then 0x0020 # collapseSpaces (dropWhile isWhiteSpace cs)
      else c # collapseSpaces cs)"
  by pat_completeness auto
termination
  by (relation "measure length") (auto simp: le_imp_less_Suc length_dropWhile_le)

definition removeSpaces :: "jsstring \<Rightarrow> jsstring" where
  "removeSpaces text = collapseSpaces (trim text)"

definition isArabicUrduChar :: "jschar \<Rightarrow> bool" where
  "isArabicUrduChar char =
     (if List.member VALID_ARABIC_LETTERS char then True
      else let code = char in
        (0x0600 \<le> code \<and> code \<le> 0x06FF) \<or> (0x0750 \<le> code \<and> code \<le> 0x077F))"

text \<open>
  The \<open>status\<close> object of \<open>processNameInput\<close>; its fields carry the prefix \<open>st_\<close>
  (the field \<open>x\<close> of the source is \<open>st_x\<close>).
\<close>

record status =
  st_success :: bool
  st_original :: jsstring
  st_cleaned :: jsstring
  st_length :: nat
  st_warnings :: "jsstring list"
  st_errors :: "jsstring list"
  st_hasDiacritics :: bool
  st_charCount :: nat

text \<open>Step 4 of \<open>processNameInput\<close>: the loop over the characters of \<open>text\<close>.\<close>

fun validateLoop :: "bool \<Rightarrow> jsstring \<Rightarrow> jsstring \<Rightarrow> jschar list \<Rightarrow> jsstring \<times> jschar list" where
  "validateLoop removeSpacesBetween [] cleaned nonArabicChars = (cleaned, nonArabicChars)"
| "validateLoop removeSpacesBetween (char # rest) cleaned nonArabicChars =
     (if char = 0x0020 then
        (if \<not> removeSpacesBetween
         then validateLoop removeSpacesBetween rest (cleaned @ [char]) nonArabicChars
         else validateLoop removeSpacesBetween rest cleaned nonArabicChars)
      else if isArabicUrduChar char
        then validateLoop removeSpacesBetween rest (cleaned @ [char]) nonArabicChars
      else validateLoop removeSpacesBetween rest cleaned (nonArabicChars @ [char]))"

definition nonArabicMessage :: "jschar list \<Rightarrow> jsstring" where
  "nonArabicMessage nonArabicChars =
     (let charList = join (lit '', '') (map (\<lambda>c. [0x27, c, 0x27]) (take 3 nonArabicChars));
          extra = (if length nonArabicChars > 3
                   then lit '' and '' @ showNat (length nonArabicChars - 3) @ lit '' more''
                   else [])
      in lit ''Non-Arabic characters found: '' @ charList @ extra)"

definition processNameInput :: "jsstring \<Rightarrow> bool \<Rightarrow> jsstring \<times> status" where
  "processNameInput inputString removeSpacesBetween =
     (let status0 = \<lparr> st_success = False, st_original = inputString, st_cleaned = [], st_length = 0,
                      st_warnings = [], st_errors = [], st_hasDiacritics = False, st_charCount = 0 \<rparr>;
          text1 = removeSpaces inputString
      in if text1 = [] then ([], status0\<lparr> st_errors := st_errors status0 @ [lit ''Empty input''] \<rparr>)
      else
        let (text2, status1) =
              (if list_ex isDiacritic text1
               then (removeDiacritics text1,
                     status0\<lparr> st_hasDiacritics := True,
                              st_warnings := st_warnings status0 @ [lit ''Diacritical marks removed''] \<rparr>)
               else (text1, status0));
            textBefore = text2;
            text3 = normalizeVariants text2;
            status2 = (if textBefore \<noteq> text3
                       then status1\<lparr> st_warnings := st_warnings status1 @ [lit ''Character variants normalized''] \<rparr>
                       else status1);
            (cleaned0, nonArabicChars) = validateLoop removeSpacesBetween text3 [] [];
            status3 = (if length nonArabicChars > 0
                       then status2\<lparr> st_errors := st_errors status2 @ [nonArabicMessage nonArabicChars] \<rparr>
                       else status2);
            cleaned1 = removeSpaces cleaned0
        in if cleaned1 = []
           then ([], status3\<lparr> st_errors := st_errors status3 @ [lit ''No valid Arabic/Urdu characters found''] \<rparr>)
           else (cleaned1, status3\<lparr> st_success := True, st_cleaned := cleaned1,
                                     st_length := length cleaned1, st_charCount := length cleaned1 \<rparr>))"

text \<open>
  Called with a value that is not a string, \<open>processNameInput\<close> throws at its first
  statement: \<open>text.trim\<close> is read from \<open>undefined\<close> or \<open>null\<close>, or is not a function.
  The message texts are the engine's (here V8's).
\<close>

definition processNameInput_any :: "jsval \<Rightarrow> bool \<Rightarrow> exn + (jsstring \<times> status)" where
  "processNameInput_any inputValue removeSpacesBetween =
     (case inputValue of
        JSString s \<Rightarrow> Inr (processNameInput s removeSpacesBetween)
      | JSUndefined \<Rightarrow> Inl (TypeError (lit ''Cannot read properties of undefined (reading 'trim')''))
      | JSNull \<Rightarrow> Inl (TypeError (lit ''Cannot read properties of null (reading 'trim')''))
      | _ \<Rightarrow> Inl (TypeError (lit ''text.trim is not a function'')))"


section \<open>DataLoader\<close>

text \<open>
  An entity of the catalogue; its field \<open>id\<close> is \<open>id_n\<close> here. The ids and values of
  the entities and the weights of the letters are integers, and as numbers of the
  program they are values of doubles (\<open>representable\<close>): an integer that is not is no
  value that a table can hold.
\<close>

record divine_name =
  id_n :: int
  arabic_name :: jsstring
  english_name :: jsstring
  meaning :: jsstring
  abjad_value :: int

text \<open>
  \<open>abjadValues\<close> is an object from one-letter strings to numbers, \<open>namesIndex\<close> an object
  from the strings \<open>String(value)\<close> to arrays of entities; both are association lists
  with distinct keys, and \<open>Object.keys(o).length === 0\<close> is \<open>o = []\<close>.
\<close>

record DataLoader =
  abjadValues :: "(jschar \<times> int) list"
  divineNames :: "divine_name list"
  namesIndex :: "(jsstring \<times> divine_name list) list"
  loaded :: bool

definition DataLoader_new :: "(jschar \<times> int) list \<Rightarrow> divine_name list
    \<Rightarrow> (jsstring \<times> divine_name list) list \<Rightarrow> DataLoader" where
  "DataLoader_new av dn ni =
     \<lparr> abjadValues = av, divineNames = dn, namesIndex = ni,
       loaded = (length av > 0 \<and> length dn > 0) \<rparr>"

definition loadAll :: "DataLoader \<Rightarrow> (jschar \<times> int) list \<Rightarrow> divine_name list
    \<Rightarrow> (jsstring \<times> divine_name list) list \<Rightarrow> DataLoader" where
  "loadAll this av dn ni =
     this\<lparr> abjadValues := av, divineNames := dn, namesIndex := ni,
           loaded := (length av > 0 \<and> length dn > 0) \<rparr>"

text \<open>\<open>this.abjadValues[letter] || null\<close>: a missing letter and the weight 0 both give null.\<close>

definition getLetterValue :: "DataLoader \<Rightarrow> jschar \<Rightarrow> exn + int option" where
  "getLetterValue this letter =
     (if abjadValues this = [] then Inl (Error (lit ''Abjad values not loaded. Call loadAll() first.''))
      else Inr (case map_of (abjadValues this) letter of
                  None \<Rightarrow> None
                | Some v \<Rightarrow> if v = 0 then None else Some v))"

text \<open>
  \<open>this.namesIndex[String(value)] || []\<close>, where \<open>value\<close> is what \<open>parseInt\<close> returned:
  an integer, an infinity or NaN. An array is truthy, so only a missing key gives \<open>[]\<close>.
\<close>

definition getNamesByValue :: "DataLoader \<Rightarrow> jsint \<Rightarrow> exn + divine_name list" where
  "getNamesByValue this v =
     (if namesIndex this = [] then Inl (Error (lit ''Names index not loaded. Call loadAll() first.''))
      else Inr (case map_of (namesIndex this) (String_of v) of None \<Rightarrow> [] | Some names \<Rightarrow> names))"

text \<open>\<open>buildNamesIndex\<close> of data-loader.js, which makes the index the page passes in.\<close>

fun buildNamesIndexLoop :: "divine_name list \<Rightarrow> (jsstring \<times> divine_name list) list
    \<Rightarrow> (jsstring \<times> divine_name list) list" where
  "buildNamesIndexLoop [] index = index"
| "buildNamesIndexLoop (name # rest) index =
     (let v = String_of (IntVal (abjad_value name));
          index1 = (if map_of index v = None then AList.update v [] index else index);
          entry = (case map_of index1 v of Some ns \<Rightarrow> ns | None \<Rightarrow> [])
      in buildNamesIndexLoop rest (AList.update v (entry @ [name]) index1))"

definition buildNamesIndex :: "divine_name list \<Rightarrow> (jsstring \<times> divine_name list) list" where
  "buildNamesIndex names = buildNamesIndexLoop names []"


section \<open>The shared instances\<close>

text \<open>
  The module keeps three lazily created instances: \<open>_dataLoader\<close>, \<open>_calculator\<close> and
  \<open>_matcher\<close>, each \<open>null\<close> until its getter is first called. The calculator has no
  field but \<open>this.loader\<close>; the matcher has \<open>this.loader\<close> and \<open>this.valueToIds\<close>.
  \<open>_dataLoader\<close> is assigned only by the first \<open>getDataLoader\<close>, and \<open>loadAll\<close> updates that
  object in place, so \<open>this.loader\<close> of either instance always is the one loader object:
  the model reads it from the cell \<open>g_dataLoader\<close>.

  \<open>valueToIds\<close> is an object indexed by the entity values; its keys \<open>String(value)\<close> are
  read back with \<open>Number\<close>, which gives the value again (the string of a double
  identifies it), and the model keys the association list by the integer.
\<close>

datatype AbjadCalculator = AbjadCalculator

record NameMatcher =
  valueToIds :: "(int \<times> int list) list"

record state =
  g_dataLoader :: "DataLoader option"
  g_calculator :: "AbjadCalculator option"
  g_matcher :: "NameMatcher option"

definition initial_state :: state where
  "initial_state = \<lparr> g_dataLoader = None, g_calculator = None, g_matcher = None \<rparr>"

definition getDataLoader :: "state \<Rightarrow> DataLoader \<times> state" where
  "getDataLoader s =
     (case g_dataLoader s of
        None \<Rightarrow> (let l = DataLoader_new [] [] [] in (l, s\<lparr> g_dataLoader := Some l \<rparr>))
      | Some l \<Rightarrow> (l, s))"


section \<open>AbjadCalculator\<close>

text \<open>
  An entry of \<open>characterBreakdown\<close> (fields with the prefix \<open>bi_\<close>) and the result object
  of \<open>calculateAbjadValue\<close> (prefix \<open>cr_\<close>).
\<close>

record breakdown_item =
  bi_character :: jschar
  bi_value :: int
  bi_position :: nat

record calc_result =
  cr_success :: bool
  cr_totalValue :: jsint
  cr_inputName :: jsval
  cr_characterBreakdown :: "breakdown_item list"
  cr_charCount :: nat
  cr_errors :: "jsstring list"
  cr_warnings :: "jsstring list"

text \<open>
  The loop of \<open>calculateAbjadValue\<close>, on the characters from \<open>position\<close> on, with
  \<open>result\<close>, \<open>total\<close> (written \<open>total'\<close>) and \<open>charCount\<close> as they stand. \<open>getLetterValue\<close> may
  throw. \<open>total += letterValue\<close> is an addition of doubles.
\<close>

fun calcLoop :: "DataLoader \<Rightarrow> jsstring \<Rightarrow> nat \<Rightarrow> calc_result \<times> jsint \<times> nat
    \<Rightarrow> exn + (calc_result \<times> jsint \<times> nat)" where
  "calcLoop loader [] position acc = Inr acc"
| "calcLoop loader (char # rest) position (result, total', charCount) =
     (case getLetterValue loader char of
        Inl e \<Rightarrow> Inl e
      | Inr None \<Rightarrow>
          calcLoop loader rest (position + 1)
            (result\<lparr> cr_warnings := cr_warnings result @
               [lit ''Character '' @ [0x27, char, 0x27] @ lit '' at position '' @ showNat position
                @ lit '' not found in Abjad table''] \<rparr>,
             total', charCount)
      | Inr (Some letterValue) \<Rightarrow>
          calcLoop loader rest (position + 1)
            (result\<lparr> cr_characterBreakdown := cr_characterBreakdown result @
               [\<lparr> bi_character = char, bi_value = letterValue, bi_position = position \<rparr>] \<rparr>,
             plusNumber total' (IntVal letterValue), charCount + 1))"

definition calculateAbjadValue :: "DataLoader \<Rightarrow> jsval \<Rightarrow> exn + calc_result" where
  "calculateAbjadValue loader arabicName =
     (let result = \<lparr> cr_success = False, cr_totalValue = IntVal 0, cr_inputName = arabicName,
                     cr_characterBreakdown = [], cr_charCount = 0, cr_errors = [],
                     cr_warnings = [] \<rparr>
      in if falsy arabicName
         then Inr (result\<lparr> cr_errors := cr_errors result @ [lit ''Input name is empty''] \<rparr>)
         else case arabicName of
           JSString s \<Rightarrow>
             (case calcLoop loader s 0 (result, IntVal 0, 0) of
                Inl e \<Rightarrow> Inl e
              | Inr (result1, total', charCount) \<Rightarrow>
                  if charCount = 0
                  then Inr (result1\<lparr> cr_errors := cr_errors result1 @
                              [lit ''No valid Arabic letters found in input''] \<rparr>)
                  else Inr (result1\<lparr> cr_success := True, cr_totalValue := total',
                                     cr_charCount := charCount \<rparr>))
         | _ \<Rightarrow> Inr (result\<lparr> cr_errors := cr_errors result @
                        [lit ''Input must be string, got '' @ typeof arabicName] \<rparr>))"

definition getCalculator :: "state \<Rightarrow> AbjadCalculator \<times> state" where
  "getCalculator s =
     (case g_calculator s of
        None \<Rightarrow> (let (l, s1) = getDataLoader s
                 in (AbjadCalculator, s1\<lparr> g_calculator := Some AbjadCalculator \<rparr>))
      | Some c \<Rightarrow> (c, s))"


section \<open>The public function calculateAbjad\<close>

text \<open>
  A call returns a value or throws, and either way leaves a state. The object that
  \<open>calculateAbjad\<close> returns is a failure \<open>{success: false, error}\<close> or a success with the
  fields of \<open>calc_success\<close> (prefix \<open>ac_\<close>).
\<close>

record calc_success =
  ac_totalValue :: jsint
  ac_inputName :: jsval
  ac_cleanedName :: jsval
  ac_characterBreakdown :: "breakdown_item list"
  ac_charCount :: nat

datatype api_calc = CalcFailure jsstring | CalcSuccess calc_success

text \<open>\<open>characterBreakdown.map((item, i) => ({position: i + 1, ...}))\<close>, from index \<open>i\<close> on.\<close>

fun renumber :: "nat \<Rightarrow> breakdown_item list \<Rightarrow> breakdown_item list" where
  "renumber i [] = []"
| "renumber i (item # items) =
     \<lparr> bi_character = bi_character item, bi_value = bi_value item, bi_position = i + 1 \<rparr>
       # renumber (i + 1) items"

text \<open>The body of the \<open>try\<close> block.\<close>

definition calculateAbjad_try :: "state \<Rightarrow> jsval \<Rightarrow> (exn + api_calc) \<times> state" where
  "calculateAbjad_try s name =
     (case processNameInput_any name False of
        Inl e \<Rightarrow> (Inl e, s)
      | Inr (cleanedName, status) \<Rightarrow>
          if \<not> st_success status
          then (Inr (CalcFailure (lit ''Invalid input: '' @ join (lit '', '') (st_errors status))), s)
          else
            let (calculator, s1) = getCalculator s;
                (loader, s2) = getDataLoader s1
            in case calculateAbjadValue loader (JSString cleanedName) of
                 Inl e \<Rightarrow> (Inl e, s2)
               | Inr calcResult \<Rightarrow>
                   if \<not> cr_success calcResult
                   then (Inr (CalcFailure (join (lit '', '') (cr_errors calcResult))), s2)
                   else (Inr (CalcSuccess
                           \<lparr> ac_totalValue = cr_totalValue calcResult,
                             ac_inputName = name,
                             ac_cleanedName = cr_inputName calcResult,
                             ac_characterBreakdown = renumber 0 (cr_characterBreakdown calcResult),
                             ac_charCount = cr_charCount calcResult \<rparr>), s2))"

definition calculateAbjad :: "state \<Rightarrow> jsval \<Rightarrow> (exn + api_calc) \<times> state" where
  "calculateAbjad s name =
     (case calculateAbjad_try s name of
        (Inl error, s1) \<Rightarrow> (Inr (CalcFailure (message error)), s1)
      | (Inr r, s1) \<Rightarrow> (Inr r, s1))"

definition initializeCalculator :: "state \<Rightarrow> (jschar \<times> int) list \<Rightarrow> divine_name list
    \<Rightarrow> (jsstring \<times> divine_name list) list \<Rightarrow> state" where
  "initializeCalculator s av dn ni =
     (let (loader, s1) = getDataLoader s
      in s1\<lparr> g_dataLoader := Some (loadAll loader av dn ni) \<rparr>)"


section \<open>NameMatcher\<close>

text \<open>
  \<open>_buildValueMap\<close>: the loop over \<open>this.loader.divineNames\<close>, started from the empty
  object. \<open>!this.valueToIds[value]\<close> holds exactly when the key is missing (an array is
  truthy).
\<close>

fun buildValueMapLoop :: "divine_name list \<Rightarrow> (int \<times> int list) list \<Rightarrow> (int \<times> int list) list" where
  "buildValueMapLoop [] vti = vti"
| "buildValueMapLoop (name # rest) vti =
     (let v = abjad_value name;
          nameId = id_n name;
          vti1 = (if map_of vti v = None then AList.update v [] vti else vti);
          ids = (case map_of vti1 v of Some ids \<Rightarrow> ids | None \<Rightarrow> [])
      in buildValueMapLoop rest (AList.update v (ids @ [nameId]) vti1))"

definition buildValueMap :: "DataLoader \<Rightarrow> NameMatcher" where
  "buildValueMap loader = \<lparr> valueToIds = buildValueMapLoop (divineNames loader) [] \<rparr>"

text \<open>The constructor: \<open>this.loader = getDataLoader(); this._buildValueMap()\<close>.\<close>

definition NameMatcher_new :: "state \<Rightarrow> NameMatcher \<times> state" where
  "NameMatcher_new s = (let (loader, s1) = getDataLoader s in (buildValueMap loader, s1))"

definition getNameById :: "DataLoader \<Rightarrow> int \<Rightarrow> divine_name option" where
  "getNameById loader nameId = find (\<lambda>name. id_n name = nameId) (divineNames loader)"

text \<open>
  The result objects of the two searches (prefixes \<open>dm_\<close> and \<open>tn_\<close>; the field \<open>type\<close> is
  the constructor of \<open>match_result\<close>) and a combination (prefix \<open>co_\<close>). The field
  \<open>responseTimeMs\<close>, a difference of two readings of the clock, is left out.
\<close>

record direct_match =
  dm_found :: bool
  dm_abjadValue :: jsint
  dm_count :: nat
  dm_divineNames :: "divine_name list"

record combination =
  co_name1 :: divine_name
  co_name2 :: divine_name
  co_total :: jsint

record two_name_combination =
  tn_found :: bool
  tn_abjadValue :: jsint
  tn_count :: nat
  tn_combinations :: "combination list"

datatype match_result = DirectMatch direct_match | TwoNameCombination two_name_combination

definition findDirectMatch :: "DataLoader \<Rightarrow> jsint \<Rightarrow> exn + direct_match" where
  "findDirectMatch loader abjadValue =
     (let result = \<lparr> dm_found = False, dm_abjadValue = abjadValue, dm_count = 0,
                     dm_divineNames = [] \<rparr>
      in case getNamesByValue loader abjadValue of
           Inl e \<Rightarrow> Inl e
         | Inr matchingNames \<Rightarrow>
             if length matchingNames > 0
             then Inr (result\<lparr> dm_found := True, dm_count := length matchingNames,
                              dm_divineNames := matchingNames \<rparr>)
             else Inr result)"

text \<open>
  \<open>JSON.stringify([name1Id, name2Id].sort())\<close>. Without a comparator \<open>sort\<close> orders the
  elements by their strings: the two are swapped exactly when the string of the second
  is less than the string of the first. \<open>JSON.stringify\<close> prints a finite number as
  \<open>String\<close> does.
\<close>

definition sortPair :: "int \<Rightarrow> int \<Rightarrow> int \<times> int" where
  "sortPair a b = (if intString b < intString a then (b, a) else (a, b))"

definition canonicalKey :: "int \<Rightarrow> int \<Rightarrow> jsstring" where
  "canonicalKey a b =
     (let (x, y) = sortPair a b
      in lit ''['' @ intString x @ lit '','' @ intString y @ lit '']'')"

text \<open>
  The inner loop of \<open>findTwoNameCombination\<close>, over \<open>name2Ids\<close>, with the set
  \<open>recordedCombinations\<close> and the array \<open>combinationsList\<close> as they stand.
\<close>

fun pairInnerLoop :: "DataLoader \<Rightarrow> jsint \<Rightarrow> divine_name \<Rightarrow> int list
    \<Rightarrow> jsstring set \<times> combination list \<Rightarrow> jsstring set \<times> combination list" where
  "pairInnerLoop loader abjadValue name1 [] acc = acc"
| "pairInnerLoop loader abjadValue name1 (name2Id # rest) (recordedCombinations, combinationsList) =
     (let name1Id = id_n name1; name1Value = abjad_value name1
      in if name1Id = name2Id
         then pairInnerLoop loader abjadValue name1 rest (recordedCombinations, combinationsList)
         else
           let canonical = canonicalKey name1Id name2Id
           in if canonical \<in> recordedCombinations
              then pairInnerLoop loader abjadValue name1 rest (recordedCombinations, combinationsList)
              else
                let recorded1 = insert canonical recordedCombinations
                in case getNameById loader name2Id of
                     None \<Rightarrow> pairInnerLoop loader abjadValue name1 rest (recorded1, combinationsList)
                   | Some name2 \<Rightarrow>
                       pairInnerLoop loader abjadValue name1 rest
                         (recorded1, combinationsList @
                           [\<lparr> co_name1 = \<lparr> id_n = name1Id, arabic_name = arabic_name name1,
                                            english_name = english_name name1,
                                            meaning = meaning name1, abjad_value = name1Value \<rparr>,
                              co_name2 = \<lparr> id_n = name2Id, arabic_name = arabic_name name2,
                                            english_name = english_name name2,
                                            meaning = meaning name2,
                                            abjad_value = abjad_value name2 \<rparr>,
                              co_total = abjadValue \<rparr>]))"

text \<open>
  The outer loop, over the entities. \<open>requiredValue\<close> is the difference of doubles
  \<open>abjadValue - name1Value\<close>. \<open>availableValues\<close> is the set of the keys of \<open>valueToIds\<close>
  as numbers, so \<open>availableValues.has(requiredValue)\<close> holds exactly when
  \<open>requiredValue\<close> is an integer that is a key (no key reads back as NaN or as an
  infinity), and then \<open>this.valueToIds[requiredValue]\<close> is its entry.
\<close>

fun pairOuterLoop :: "NameMatcher \<Rightarrow> DataLoader \<Rightarrow> jsint \<Rightarrow> divine_name list
    \<Rightarrow> jsstring set \<times> combination list \<Rightarrow> jsstring set \<times> combination list" where
  "pairOuterLoop this loader abjadValue [] acc = acc"
| "pairOuterLoop this loader abjadValue (name1 # rest) acc =
     (let name1Value = abjad_value name1;
          requiredValue = minusNumber abjadValue (IntVal name1Value)
      in case requiredValue of
           NaN \<Rightarrow> pairOuterLoop this loader abjadValue rest acc
         | Infinity neg \<Rightarrow> pairOuterLoop this loader abjadValue rest acc
         | IntVal r \<Rightarrow>
             (case map_of (valueToIds this) r of
                None \<Rightarrow> pairOuterLoop this loader abjadValue rest acc
              | Some name2Ids \<Rightarrow>
                  pairOuterLoop this loader abjadValue rest
                    (pairInnerLoop loader abjadValue name1 name2Ids acc)))"

text \<open>
  \<open>combinationsList.sort(...)\<close> with the comparator of the source, whose differences
  are differences of doubles; \<open>sort\<close> puts the first argument after the second when the
  result is positive. The comparator is a total preorder and \<open>sort\<close> is stable, which
  fixes the result: it is what insertion of each element before the first one it does
  not exceed computes.
\<close>

definition compareCombinations :: "combination \<Rightarrow> combination \<Rightarrow> jsint" where
  "compareCombinations a b =
     (let diff = minusNumber (IntVal (id_n (co_name1 a))) (IntVal (id_n (co_name1 b)))
      in if diff \<noteq> IntVal 0 then diff
         else minusNumber (IntVal (id_n (co_name2 a))) (IntVal (id_n (co_name2 b))))"

fun positive :: "jsint \<Rightarrow> bool" where
  "positive NaN = False"
| "positive (Infinity neg) = (\<not> neg)"
| "positive (IntVal i) = (0 < i)"

fun insertSorted :: "combination \<Rightarrow> combination list \<Rightarrow> combination list" where
  "insertSorted x [] = [x]"
| "insertSorted x (y # ys) =
     (if \<not> positive (compareCombinations x y) then x # y # ys else y # insertSorted x ys)"

definition sortCombinations :: "combination list \<Rightarrow> combination list" where
  "sortCombinations xs = foldr insertSorted xs []"

definition findTwoNameCombination :: "NameMatcher \<Rightarrow> DataLoader \<Rightarrow> jsint \<Rightarrow> nat
    \<Rightarrow> two_name_combination" where
  "findTwoNameCombination this loader abjadValue limit =
     (let result = \<lparr> tn_found = False, tn_abjadValue = abjadValue, tn_count = 0,
                     tn_combinations = [] \<rparr>;
          (recordedCombinations, combinationsList) =
             pairOuterLoop this loader abjadValue (divineNames loader) ({}, []);
          sorted = sortCombinations combinationsList;
          result1 = result\<lparr> tn_combinations := take limit sorted \<rparr>
      in if length (tn_combinations result1) > 0
         then result1\<lparr> tn_found := True, tn_count := length (tn_combinations result1) \<rparr>
         else result1)"

definition findMatch :: "NameMatcher \<Rightarrow> DataLoader \<Rightarrow> jsint \<Rightarrow> exn + match_result" where
  "findMatch this loader abjadValue =
     (case findDirectMatch loader abjadValue of
        Inl e \<Rightarrow> Inl e
      | Inr directResult \<Rightarrow>
          if dm_found directResult then Inr (DirectMatch directResult)
          else Inr (TwoNameCombination (findTwoNameCombination this loader abjadValue 10)))"

definition getMatcher :: "state \<Rightarrow> NameMatcher \<times> state" where
  "getMatcher s =
     (case g_matcher s of
        None \<Rightarrow> (let (m, s1) = NameMatcher_new s in (m, s1\<lparr> g_matcher := Some m \<rparr>))
      | Some m \<Rightarrow> (m, s))"


section \<open>The public function matchDivineNames\<close>

text \<open>
  \<open>ToString\<close> of ECMAScript: it throws for a symbol, and for an object whose conversion
  does. A BigInt prints all its decimal digits.
\<close>

fun ToString :: "jsval \<Rightarrow> exn + jsstring" where
  "ToString JSUndefined = Inr (lit ''undefined'')"
| "ToString JSNull = Inr (lit ''null'')"
| "ToString (JSBoolean b) = Inr (if b then lit ''true'' else lit ''false'')"
| "ToString (JSNumber x) = Inr (numberToString x)"
| "ToString (JSString s) = Inr s"
| "ToString (JSBigInt i) = Inr (showInt i)"
| "ToString JSSymbol = Inl (TypeError (lit ''Cannot convert a Symbol value to a string''))"
| "ToString (JSObject c) = c"

text \<open>
  \<open>parseInt(v)\<close> with no radix: the string of \<open>v\<close>, leading white space stripped, an
  optional sign, an optional \<open>0x\<close> or \<open>0X\<close> (then the radix is 16), and the longest run of
  digits of the radix; NaN when there is no digit, and otherwise the double nearest to
  the integer that the digits denote (ECMAScript lets an implementation read the decimal
  digits after the twentieth as zeros; the engines read them all). It throws when
  \<open>ToString\<close> does. The value of a digit, 36 for a character that is no digit in any
  radix.
\<close>

definition digitValue :: "jschar \<Rightarrow> nat" where
  "digitValue c =
     (if 0x30 \<le> c \<and> c \<le> 0x39 then c - 0x30
      else if 0x61 \<le> c \<and> c \<le> 0x7A then c - 0x61 + 10
      else if 0x41 \<le> c \<and> c \<le> 0x5A then c - 0x41 + 10
      else 36)"

definition digitsValue :: "nat \<Rightarrow> jsstring \<Rightarrow> nat" where
  "digitsValue R Z = foldl (\<lambda>a c. a * R + digitValue c) 0 Z"

definition parseIntString :: "jsstring \<Rightarrow> jsint" where
  "parseIntString inputString =
     (let S0 = dropWhile isWhiteSpace inputString;
          sign = (if S0 \<noteq> [] \<and> hd S0 = 0x2D then - 1 else 1);
          S1 = (if S0 \<noteq> [] \<and> (hd S0 = 0x2B \<or> hd S0 = 0x2D) then tl S0 else S0);
          (R, S2) = (if length S1 \<ge> 2 \<and> (take 2 S1 = lit ''0x'' \<or> take 2 S1 = lit ''0X'')
                     then (16, drop 2 S1) else (10, S1));
          Z = takeWhile (\<lambda>c. digitValue c < R) S2
      in if Z = [] then NaN else roundNumber (sign * int (digitsValue R Z)))"

definition parseInt :: "jsval \<Rightarrow> exn + jsint" where
  "parseInt v =
     (case ToString v of Inl e \<Rightarrow> Inl e | Inr inputString \<Rightarrow> Inr (parseIntString inputString))"

text \<open>
  The object \<open>matchDivineNames\<close> returns: a failure, or a success of either type
  (prefixes \<open>ad_\<close> and \<open>ap_\<close>).
\<close>

record api_direct =
  ad_found :: bool
  ad_divineNames :: "divine_name list"
  ad_count :: nat

record api_pair =
  ap_found :: bool
  ap_abjadValue :: jsint
  ap_combinations :: "combination list"
  ap_count :: nat

datatype api_match = MatchFailure jsstring | MatchDirect api_direct | MatchPair api_pair

definition matchDivineNames_try :: "state \<Rightarrow> jsval \<Rightarrow> (exn + api_match) \<times> state" where
  "matchDivineNames_try s abjadValue =
     (if abjadValue = JSNull \<or> abjadValue = JSUndefined
      then (Inr (MatchFailure (lit ''Abjad value is required'')), s)
      else case parseInt abjadValue of
        Inl e \<Rightarrow> (Inr (MatchFailure (lit ''Abjad value must be a number'')), s)
      | Inr v \<Rightarrow>
          let (matcher, s1) = getMatcher s;
              (loader, s2) = getDataLoader s1
          in case findMatch matcher loader v of
               Inl e \<Rightarrow> (Inl e, s2)
             | Inr (DirectMatch matchResult) \<Rightarrow>
                 (Inr (MatchDirect \<lparr> ad_found = dm_found matchResult,
                                     ad_divineNames = dm_divineNames matchResult,
                                     ad_count = dm_count matchResult \<rparr>), s2)
             | Inr (TwoNameCombination matchResult) \<Rightarrow>
                 (Inr (MatchPair \<lparr> ap_found = tn_found matchResult,
                                   ap_abjadValue = v,
                                   ap_combinations = tn_combinations matchResult,
                                   ap_count = tn_count matchResult \<rparr>), s2))"

definition matchDivineNames :: "state \<Rightarrow> jsval \<Rightarrow> (exn + api_match) \<times> state" where
  "matchDivineNames s abjadValue =
     (case matchDivineNames_try s abjadValue of
        (Inl error, s1) \<Rightarrow> (Inr (MatchFailure (message error)), s1)
      | (Inr r, s1) \<Rightarrow> (Inr r, s1))"


section \<open>The page's handler\<close>

text \<open>
  \<open>handleCalculate\<close> of the page controller is the one place that runs the whole
  pipeline: \<open>calculateAbjad\<close> on the trimmed input, then \<open>matchDivineNames\<close> on its
  \<open>totalValue\<close>. Of what it does to the page the model keeps what is shown: an error
  alone, the calculation and an error, or the calculation and the match.
\<close>

datatype shown =
    ShownError jsstring
  | ShownCalculation calc_success jsstring
  | ShownResults calc_success api_match

definition orElse :: "jsstring \<Rightarrow> jsstring \<Rightarrow> jsstring" where
  "orElse a b = (if a = [] then b else a)"

definition handleCalculate :: "state \<Rightarrow> jsstring \<Rightarrow> shown \<times> state" where
  "handleCalculate s inputValue =
     (let name = trim inputValue
      in if name = [] then (ShownError (lit ''Please enter a name''), s)
         else case calculateAbjad s (JSString name) of
           (Inl error, s1) \<Rightarrow> (ShownError (lit ''An error occurred: '' @ message error), s1)
         | (Inr (CalcFailure e), s1) \<Rightarrow>
             (ShownError (orElse e (lit ''Failed to calculate Abjad value'')), s1)
         | (Inr (CalcSuccess calcResult), s1) \<Rightarrow>
             (case matchDivineNames s1 (JSNumber (toNumber (ac_totalValue calcResult))) of
                (Inl error, s2) \<Rightarrow>
                  (ShownCalculation calcResult (lit ''An error occurred: '' @ message error), s2)
              | (Inr (MatchFailure e), s2) \<Rightarrow>
                  (ShownCalculation calcResult
                     (orElse e (lit ''Failed to find matching Divine Names'')), s2)
              | (Inr matchResult, s2) \<Rightarrow> (ShownResults calcResult matchResult, s2)))"


section \<open>Properties of combinations\<close>

text \<open>The key under which the search records a combination.\<close>

definition combinationKey :: "combination \<Rightarrow> jsstring" where
  "combinationKey c = canonicalKey (id_n (co_name1 c)) (id_n (co_name2 c))"



section \<open>The parts of a string in exponent notation\<close>

text \<open>What \<open>decimalString\<close> prints before the \<open>e\<close> when it uses exponent notation.\<close>

definition mantissa :: "nat list \<Rightarrow> jsstring" where
  "mantissa ds = (if length ds = 1 then map digitChar ds
     else map digitChar (take 1 ds) @ [0x2E] @ map digitChar (drop 1 ds))"


section \<open>The sum of a breakdown\<close>

text \<open>
  The sum of a list of integers as doubles add them, from the left and from 0 on, which
  is how \<open>calculateAbjadValue\<close> adds the weights.
\<close>

definition sumNumbers :: "int list \<Rightarrow> jsint" where
  "sumNumbers vs = foldl (\<lambda>t v. plusNumber t (IntVal v)) (IntVal 0) vs"


section \<open>The cleaned text as one expression\<close>

text \<open>
  What \<open>processNameInput\<close> keeps in step 4: a space unless \<open>removeSpacesBetween\<close> is set,
  and otherwise the Arabic and Urdu characters. \<open>cleanedText\<close> chains the five steps
  without the status; \<open>processNameInput_cleaned\<close> below shows that it is the cleaned
  text \<open>processNameInput\<close> returns.
\<close>

definition keptChar :: "bool \<Rightarrow> jschar \<Rightarrow> bool" where
  "keptChar removeSpacesBetween c =
     (if c = 0x0020 then \<not> removeSpacesBetween else isArabicUrduChar c)"

definition cleanedText :: "bool \<Rightarrow> jsstring \<Rightarrow> jsstring" where
  "cleanedText removeSpacesBetween inputString =
     removeSpaces (filter (keptChar removeSpacesBetween)
       (normalizeVariants (removeDiacritics (removeSpaces inputString))))"


section \<open>The integer part of a number\<close>

text \<open>
  The number that a list of decimal digits denotes, and the integer part (the
  truncation towards zero) of the number \<open>NumFrac neg ds n\<close>, which is
  \<open>0.d1...dk * 10^n\<close> up to sign: its digits before the decimal point. The digit lists
  that present a number that is not an integer: decimal digits, the first and the last
  not zero, and more digits than the exponent.
\<close>

definition digitsNat :: "nat list \<Rightarrow> nat" where
  "digitsNat ds = foldl (\<lambda>a d. a * 10 + d) 0 ds"

definition integerPart :: "bool \<Rightarrow> nat list \<Rightarrow> int \<Rightarrow> int" where
  "integerPart neg ds n =
     (if neg then - 1 else 1) * int (digitsNat ds div 10 ^ nat (int (length ds) - n))"

definition wellFormedFrac :: "nat list \<Rightarrow> int \<Rightarrow> bool" where
  "wellFormedFrac ds n =
     (ds \<noteq> [] \<and> list_all (\<lambda>d. d < 10) ds \<and> hd ds \<noteq> 0 \<and> last ds \<noteq> 0 \<and> n < int (length ds))"


section \<open>Example data\<close>

text \<open>
  The weight table and the input of the specification's Scenario A: alef, lam, heh
  with the weights 1, 30 and 5, loaded into a fresh page with an empty catalogue.
\<close>

definition scenarioA_weights :: "(jschar \<times> int) list" where
  "scenarioA_weights = [(0x0627, 1), (0x0644, 30), (0x0647, 5)]"

definition scenarioA_name :: jsstring where
  "scenarioA_name = [0x0627, 0x0644, 0x0647]"

definition scenarioA_state :: state where
  "scenarioA_state = initializeCalculator initial_state scenarioA_weights [] []"


text \<open>
  A weight table with the weight \<open>2^53\<close> for alef and 1 for lam and for heh, loaded into
  a fresh page.
\<close>

definition heavy_weights :: "(jschar \<times> int) list" where
  "heavy_weights = [(0x0627, 9007199254740992), (0x0644, 1), (0x0647, 1)]"

definition heavy_state :: state where
  "heavy_state = initializeCalculator initial_state heavy_weights [] []"

text \<open>
  Scenario D: a catalogue of two entities with the values 40 and 26, its index as
  \<open>buildNamesIndex\<close> makes it, and the loader that holds them. Scenario C: two entities
  that both have the value 66.
\<close>

definition entity :: "int \<Rightarrow> int \<Rightarrow> divine_name" where
  "entity i v = \<lparr> id_n = i, arabic_name = [], english_name = [], meaning = [], abjad_value = v \<rparr>"

definition scenarioD_catalog :: "divine_name list" where
  "scenarioD_catalog = [entity 1 40, entity 2 26]"

definition scenarioD_loader :: DataLoader where
  "scenarioD_loader =
     DataLoader_new scenarioA_weights scenarioD_catalog (buildNamesIndex scenarioD_catalog)"

definition scenarioC_catalog :: "divine_name list" where
  "scenarioC_catalog = [entity 1 66, entity 2 66]"

definition scenarioC_loader :: DataLoader where
  "scenarioC_loader =
     DataLoader_new scenarioA_weights scenarioC_catalog (buildNamesIndex scenarioC_catalog)"

text \<open>
  An input with everything the normalizer handles: leading and trailing white space, a
  diacritic (fatha) after alef, a run of a space and a tab, a Latin letter, and a variant
  letter (bari ya). Its cleaned text is alef, space, lam, space, ya.
\<close>

definition messy_input :: jsstring where
  "messy_input = [0x20, 0x0627, 0x064E, 0x20, 0x09, 0x0644, 0x78, 0x20, 0x06D2, 0x20]"

definition messy_cleaned :: jsstring where
  "messy_cleaned = [0x0627, 0x20, 0x0644, 0x20, 0x064A]"

text \<open>
  Scenario E: the input \<open>xyz\<close>, which has no character of the script. A name of one
  letter (beh) that the weight table of Scenario A does not have.
\<close>

definition scenarioE_input :: jsstring where
  "scenarioE_input = lit ''xyz''"

definition scenarioE_error :: jsstring where
  "scenarioE_error =
     lit ''Invalid input: Non-Arabic characters found: '' @ [0x27, 0x78, 0x27] @ lit '', ''
       @ [0x27, 0x79, 0x27] @ lit '', '' @ [0x27, 0x7A, 0x27]
       @ lit '', No valid Arabic/Urdu characters found''"

definition unmapped_name :: jsstring where
  "unmapped_name = [0x0628]"

text \<open>
  A reload. The page is initialised with the catalogue of Scenario D and matches 66
  (which creates the matcher); then it is initialised again with a second catalogue, of
  two entities with the values 5 and 99. \<open>fresh_second\<close> is a fresh page initialised with
  the second catalogue only.
\<close>

definition second_catalog :: "divine_name list" where
  "second_catalog = [entity 1 5, entity 2 99]"

definition first_loaded :: state where
  "first_loaded =
     initializeCalculator initial_state scenarioA_weights scenarioD_catalog
       (buildNamesIndex scenarioD_catalog)"

definition first_matched :: state where
  "first_matched = snd (matchDivineNames first_loaded (JSNumber (NumInt 66)))"

definition reloaded :: state where
  "reloaded =
     initializeCalculator first_matched scenarioA_weights second_catalog
       (buildNamesIndex second_catalog)"

definition fresh_second :: state where
  "fresh_second =
     initializeCalculator initial_state scenarioA_weights second_catalog
       (buildNamesIndex second_catalog)"

definition second_loader :: DataLoader where
  "second_loader = DataLoader_new scenarioA_weights second_catalog (buildNamesIndex second_catalog)"



section \<open>Numbers\<close>

text \<open>Up to \<open>2^53\<close> nothing is rounded, and an integer prints as its decimal digits.\<close>

lemma exponentOf_small: "m < 9007199254740992 \<Longrightarrow> exponentOf m = 0"
  by (simp add: exponentOf.simps)

lemma roundNat_small: "m \<le> 9007199254740992 \<Longrightarrow> roundNat m = m"
proof (cases "m < 9007199254740992")
  case True
  then show ?thesis by (simp add: roundNat_def exponentOf_small)
next
  case False
  assume "m \<le> 9007199254740992"
  with False have m: "m = 9007199254740992" by simp
  have "exponentOf (9007199254740992::nat) = 1"
    by (simp add: exponentOf.simps[of 9007199254740992] exponentOf_small)
  with m show ?thesis by (simp add: roundNat_def)
qed

lemma small_below_infinity: "(9007199254740992::nat) < 2 ^ 1024"
  by simp

lemma roundNumber_small: "\<bar>i\<bar> \<le> 9007199254740992 \<Longrightarrow> roundNumber i = IntVal i"
proof -
  assume a: "\<bar>i\<bar> \<le> 9007199254740992"
  then have n: "nat \<bar>i\<bar> \<le> 9007199254740992" by simp
  then have r: "roundNat (nat \<bar>i\<bar>) = nat \<bar>i\<bar>" by (rule roundNat_small)
  from n small_below_infinity have "\<not> 2 ^ 1024 \<le> nat \<bar>i\<bar>" by linarith
  with r show ?thesis by (simp add: roundNumber_def Let_def)
qed

lemma representable_small: "\<bar>i\<bar> \<le> 9007199254740992 \<Longrightarrow> representable i"
  by (simp add: representable_def roundNumber_small)

lemma plusNumber_small:
  "\<bar>a + b\<bar> \<le> 9007199254740992 \<Longrightarrow> plusNumber (IntVal a) (IntVal b) = IntVal (a + b)"
  by (simp add: roundNumber_small)

lemma minusNumber_small:
  "\<bar>a - b\<bar> \<le> 9007199254740992 \<Longrightarrow> minusNumber (IntVal a) (IntVal b) = IntVal (a - b)"
  by (simp add: minusNumber_def roundNumber_small)

lemma minusNumber_NaN: "minusNumber NaN b = NaN"
  by (simp add: minusNumber_def)

lemma intString_small: "\<bar>i\<bar> < 9007199254740992 \<Longrightarrow> intString i = showInt i"
  by (auto simp: intString_def natString_def showInt_def)

text \<open>The sum of doubles is the sum of the integers while no partial sum leaves \<open>2^53\<close>.\<close>

lemma sumNumbers_snoc: "sumNumbers (vs @ [v]) = plusNumber (sumNumbers vs) (IntVal v)"
  by (simp add: sumNumbers_def)

lemma foldl_plusNumber_exact:
  "\<bar>a\<bar> + sum_list (map abs vs) \<le> 9007199254740992 \<Longrightarrow>
   foldl (\<lambda>t v. plusNumber t (IntVal v)) (IntVal a) vs = IntVal (a + sum_list vs)"
proof (induction vs arbitrary: a)
  case Nil
  then show ?case by simp
next
  case (Cons v vs)
  have nn: "0 \<le> sum_list (map abs vs)" by (rule sum_list_nonneg) auto
  from Cons.prems nn have "\<bar>a + v\<bar> \<le> 9007199254740992" by simp
  then have 1: "plusNumber (IntVal a) (IntVal v) = IntVal (a + v)" by (rule plusNumber_small)
  from Cons.prems have "\<bar>a + v\<bar> + sum_list (map abs vs) \<le> 9007199254740992" by simp
  from Cons.IH[OF this] 1 show ?case by (simp add: add.assoc)
qed

lemma sumNumbers_exact:
  "sum_list (map abs vs) \<le> 9007199254740992 \<Longrightarrow> sumNumbers vs = IntVal (sum_list vs)"
  using foldl_plusNumber_exact[of 0 vs] by (simp add: sumNumbers_def)


section \<open>The calculator: totals, counts and positions\<close>

lemma calcLoop_inv:
  "calcLoop loader s p (r, t, n) = Inr (r', t', n') \<Longrightarrow>
   t = sumNumbers (map bi_value (cr_characterBreakdown r)) \<Longrightarrow>
   n = length (cr_characterBreakdown r) \<Longrightarrow>
   t' = sumNumbers (map bi_value (cr_characterBreakdown r')) \<and> n' = length (cr_characterBreakdown r')
   \<and> cr_success r' = cr_success r \<and> cr_inputName r' = cr_inputName r"
proof (induction s arbitrary: p r t n)
  case Nil
  then show ?case by auto
next
  case (Cons c cs)
  show ?case
  proof (cases "getLetterValue loader c")
    case (Inl e)
    with Cons.prems show ?thesis by simp
  next
    case (Inr ov)
    show ?thesis
    proof (cases ov)
      case None
      with Inr Cons.prems(1) have
        "calcLoop loader cs (p + 1)
           (r\<lparr>cr_warnings := cr_warnings r @
               [lit ''Character '' @ [0x27, c, 0x27] @ lit '' at position '' @ showNat p
                @ lit '' not found in Abjad table'']\<rparr>, t, n) = Inr (r', t', n')"
        by simp
      from Cons.IH[OF this] Cons.prems(2,3) show ?thesis by simp
    next
      case (Some v)
      with Inr Cons.prems(1) have
        "calcLoop loader cs (p + 1)
           (r\<lparr>cr_characterBreakdown := cr_characterBreakdown r @
               [\<lparr>bi_character = c, bi_value = v, bi_position = p\<rparr>]\<rparr>,
            plusNumber t (IntVal v), n + 1) = Inr (r', t', n')"
        by simp
      from Cons.IH[OF this] Cons.prems(2,3) show ?thesis by (simp add: sumNumbers_snoc)
    qed
  qed
qed

text \<open>The letters of the breakdown are the letters of the input that have a weight, in order.\<close>

lemma calcLoop_letters:
  "calcLoop loader s p (r, t, n) = Inr (r', t', n') \<Longrightarrow>
   map bi_character (cr_characterBreakdown r') =
     map bi_character (cr_characterBreakdown r) @ filter (\<lambda>c. getLetterValue loader c \<noteq> Inr None) s
   \<and> (list_all (\<lambda>i. getLetterValue loader (bi_character i) = Inr (Some (bi_value i))) (cr_characterBreakdown r)
      \<longrightarrow> list_all (\<lambda>i. getLetterValue loader (bi_character i) = Inr (Some (bi_value i))) (cr_characterBreakdown r'))"
proof (induction s arbitrary: p r t n)
  case Nil
  then show ?case by auto
next
  case (Cons c cs)
  show ?case
  proof (cases "getLetterValue loader c")
    case (Inl e)
    with Cons.prems show ?thesis by simp
  next
    case (Inr ov)
    show ?thesis
    proof (cases ov)
      case None
      with Inr Cons.prems(1) have
        "calcLoop loader cs (p + 1)
           (r\<lparr>cr_warnings := cr_warnings r @
               [lit ''Character '' @ [0x27, c, 0x27] @ lit '' at position '' @ showNat p
                @ lit '' not found in Abjad table'']\<rparr>, t, n) = Inr (r', t', n')"
        by simp
      from Cons.IH[OF this] Inr None show ?thesis by simp
    next
      case (Some v)
      with Inr Cons.prems(1) have
        "calcLoop loader cs (p + 1)
           (r\<lparr>cr_characterBreakdown := cr_characterBreakdown r @
               [\<lparr>bi_character = c, bi_value = v, bi_position = p\<rparr>]\<rparr>,
            plusNumber t (IntVal v), n + 1) = Inr (r', t', n')"
        by simp
      from Cons.IH[OF this] Inr Some show ?thesis by simp
    qed
  qed
qed

lemma calculateAbjadValue_success:
  assumes "calculateAbjadValue loader arabicName = Inr r" and "cr_success r"
  shows "\<exists>s r1 t n. arabicName = JSString s \<and>
     calcLoop loader s 0 (\<lparr> cr_success = False, cr_totalValue = IntVal 0, cr_inputName = arabicName,
                     cr_characterBreakdown = [], cr_charCount = 0, cr_errors = [],
                     cr_warnings = [] \<rparr>, IntVal 0, 0) = Inr (r1, t, n) \<and>
     r = r1\<lparr> cr_success := True, cr_totalValue := t, cr_charCount := n \<rparr>"
proof -
  let ?r0 = "\<lparr> cr_success = False, cr_totalValue = IntVal 0, cr_inputName = arabicName,
                     cr_characterBreakdown = [], cr_charCount = 0, cr_errors = [],
                     cr_warnings = [] \<rparr>"
  from assms obtain s where s: "arabicName = JSString s"
    by (cases arabicName) (auto simp: calculateAbjadValue_def Let_def split: if_splits)
  from assms s obtain r1 t n where loop: "calcLoop loader s 0 (?r0, IntVal 0, 0) = Inr (r1, t, n)"
    by (cases "calcLoop loader s 0 (?r0, IntVal 0, 0)")
       (auto simp: calculateAbjadValue_def Let_def split: if_splits)
  from calcLoop_inv[OF loop] have "\<not> cr_success r1" by (simp add: sumNumbers_def)
  with assms s loop have "r = r1\<lparr> cr_success := True, cr_totalValue := t, cr_charCount := n \<rparr>"
    by (auto simp: calculateAbjadValue_def Let_def split: if_splits)
  with s loop show ?thesis by blast
qed

lemma calculateAbjadValue_sums:
  assumes "calculateAbjadValue loader arabicName = Inr r" and "cr_success r"
  shows "cr_totalValue r = sumNumbers (map bi_value (cr_characterBreakdown r))"
    and "cr_charCount r = length (cr_characterBreakdown r)"
proof -
  from calculateAbjadValue_success[OF assms] obtain s r1 t n where
    loop: "calcLoop loader s 0 (\<lparr> cr_success = False, cr_totalValue = IntVal 0, cr_inputName = arabicName,
                     cr_characterBreakdown = [], cr_charCount = 0, cr_errors = [],
                     cr_warnings = [] \<rparr>, IntVal 0, 0) = Inr (r1, t, n)"
    and r: "r = r1\<lparr> cr_success := True, cr_totalValue := t, cr_charCount := n \<rparr>"
    by blast
  from calcLoop_inv[OF loop] have "t = sumNumbers (map bi_value (cr_characterBreakdown r1))"
    "n = length (cr_characterBreakdown r1)" by (simp_all add: sumNumbers_def)
  with r show "cr_totalValue r = sumNumbers (map bi_value (cr_characterBreakdown r))"
    and "cr_charCount r = length (cr_characterBreakdown r)" by simp_all
qed

lemma renumber_values: "map bi_value (renumber i items) = map bi_value items"
  by (induction items arbitrary: i) auto

lemma renumber_characters: "map bi_character (renumber i items) = map bi_character items"
  by (induction items arbitrary: i) auto

lemma renumber_length: "length (renumber i items) = length items"
  by (induction items arbitrary: i) auto

lemma renumber_positions: "k < length items \<Longrightarrow> bi_position (renumber i items ! k) = i + k + 1"
proof (induction items arbitrary: i k)
  case Nil
  then show ?case by simp
next
  case (Cons a items)
  then show ?case by (cases k) auto
qed

text \<open>What a successful \<open>calculateAbjad\<close> went through.\<close>

lemma calculateAbjad_success:
  assumes "calculateAbjad s name = (Inr (CalcSuccess q), s')"
  shows "\<exists>str cleanedName status loader r.
     name = JSString str \<and> processNameInput str False = (cleanedName, status) \<and> st_success status \<and>
     g_dataLoader s' = Some loader \<and>
     calculateAbjadValue loader (JSString cleanedName) = Inr r \<and> cr_success r \<and>
     q = \<lparr> ac_totalValue = cr_totalValue r, ac_inputName = name, ac_cleanedName = cr_inputName r,
           ac_characterBreakdown = renumber 0 (cr_characterBreakdown r),
           ac_charCount = cr_charCount r \<rparr>"
  using assms
  by (auto simp: calculateAbjad_def calculateAbjad_try_def processNameInput_any_def
        getCalculator_def getDataLoader_def Let_def
      split: sum.splits prod.splits jsval.splits if_splits option.splits)

text \<open>Scenario A, step by step.\<close>

lemma scenarioA_processNameInput:
  "processNameInput scenarioA_name False = (scenarioA_name,
     \<lparr> st_success = True, st_original = scenarioA_name, st_cleaned = scenarioA_name, st_length = 3,
       st_warnings = [], st_errors = [], st_hasDiacritics = False, st_charCount = 3 \<rparr>)"
  by (simp add: scenarioA_name_def processNameInput_def removeSpaces_def trim_def isWhiteSpace_def
      isDiacritic_def ARABIC_DIACRITICS_def normalizeVariants_def normalizeChar_def
      ARABIC_CHAR_VARIANTS_def isArabicUrduChar_def VALID_ARABIC_LETTERS_def removeDiacritics_def
      Let_def)

lemma scenarioA_calculateAbjadValue:
  "calculateAbjadValue (DataLoader_new scenarioA_weights [] []) (JSString scenarioA_name) =
     Inr \<lparr> cr_success = True, cr_totalValue = IntVal 36, cr_inputName = JSString scenarioA_name,
           cr_characterBreakdown =
             [\<lparr> bi_character = 0x0627, bi_value = 1, bi_position = 0 \<rparr>,
              \<lparr> bi_character = 0x0644, bi_value = 30, bi_position = 1 \<rparr>,
              \<lparr> bi_character = 0x0647, bi_value = 5, bi_position = 2 \<rparr>],
           cr_charCount = 3, cr_errors = [], cr_warnings = [] \<rparr>"
  by (simp add: calculateAbjadValue_def DataLoader_new_def scenarioA_weights_def
      scenarioA_name_def getLetterValue_def roundNumber_small)

lemma scenarioA_state_eq:
  "scenarioA_state = \<lparr> g_dataLoader = Some (DataLoader_new scenarioA_weights [] []),
                        g_calculator = None, g_matcher = None \<rparr>"
  by (simp add: scenarioA_state_def initializeCalculator_def initial_state_def getDataLoader_def
      DataLoader_new_def loadAll_def Let_def scenarioA_weights_def)

lemma scenarioA_calculateAbjad:
  "calculateAbjad scenarioA_state (JSString scenarioA_name) =
     (Inr (CalcSuccess
        \<lparr> ac_totalValue = IntVal 36, ac_inputName = JSString scenarioA_name,
          ac_cleanedName = JSString scenarioA_name,
          ac_characterBreakdown =
            [\<lparr> bi_character = 0x0627, bi_value = 1, bi_position = 1 \<rparr>,
             \<lparr> bi_character = 0x0644, bi_value = 30, bi_position = 2 \<rparr>,
             \<lparr> bi_character = 0x0647, bi_value = 5, bi_position = 3 \<rparr>],
          ac_charCount = 3 \<rparr>),
      scenarioA_state\<lparr> g_calculator := Some AbjadCalculator \<rparr>)"
  by (simp add: calculateAbjad_def calculateAbjad_try_def processNameInput_any_def
      scenarioA_processNameInput scenarioA_state_eq getCalculator_def getDataLoader_def
      scenarioA_calculateAbjadValue Let_def)


section \<open>Decimal strings\<close>

lemma digits_value: "foldl (\<lambda>a d. a * 10 + d) 0 (digits n) = n"
proof (induction n rule: digits.induct)
  case (1 n)
  show ?case
  proof (cases "n < 10")
    case True
    then show ?thesis by (simp add: digits.simps)
  next
    case False
    with 1 have "foldl (\<lambda>a d. a * 10 + d) 0 (digits (n div 10)) = n div 10" by simp
    with False show ?thesis by (simp add: digits.simps[of n])
  qed
qed

lemma digits_lt_10: "d \<in> set (digits n) \<Longrightarrow> d < 10"
proof (induction n rule: digits.induct)
  case (1 n)
  then show ?case
    by (cases "n < 10") (auto simp: digits.simps[of n])
qed

lemma digits_nonempty: "digits n \<noteq> []"
  by (simp add: digits.simps[of n])

lemma digits_inj: "digits m = digits n \<Longrightarrow> m = n"
  by (metis digits_value)

lemma digitChar_inj: "digitChar a = digitChar b \<Longrightarrow> a = b"
  by (simp add: digitChar_def)

lemma showNat_inj: "showNat m = showNat n \<Longrightarrow> m = n"
proof -
  assume "showNat m = showNat n"
  then have "map digitChar (digits m) = map digitChar (digits n)" by (simp add: showNat_def)
  then have "digits m = digits n"
    by (rule map_injective) (auto simp: inj_on_def digitChar_def)
  then show ?thesis by (rule digits_inj)
qed

lemma showNat_chars: "c \<in> set (showNat n) \<Longrightarrow> 48 \<le> c \<and> c \<le> 57"
  using digits_lt_10 by (fastforce simp: showNat_def digitChar_def)

lemma showNat_nonempty: "showNat n \<noteq> []"
  by (simp add: showNat_def digits_nonempty)

lemma showInt_chars: "c \<in> set (showInt i) \<Longrightarrow> c = 45 \<or> (48 \<le> c \<and> c \<le> 57)"
  using showNat_chars by (auto simp: showInt_def split: if_splits)

lemma showInt_nonempty: "showInt i \<noteq> []"
  by (simp add: showInt_def showNat_nonempty)

lemma showNat_hd: "hd (showNat n) \<noteq> 45"
proof -
  have "hd (showNat n) \<in> set (showNat n)" by (simp add: showNat_nonempty)
  from showNat_chars[OF this] show ?thesis by simp
qed

lemma showInt_inj: "showInt i = showInt j \<Longrightarrow> i = j"
proof -
  assume eq: "showInt i = showInt j"
  show ?thesis
  proof (cases "i < 0")
    case True
    then have hi: "hd (showInt i) = 45" by (simp add: showInt_def)
    have "j < 0"
    proof (rule ccontr)
      assume "\<not> j < 0"
      then have "showInt j = showNat (nat j)" by (simp add: showInt_def)
      with showNat_hd[of "nat j"] hi eq show False by simp
    qed
    with True eq have "showNat (nat (- i)) = showNat (nat (- j))" by (simp add: showInt_def)
    then have "nat (- i) = nat (- j)" by (rule showNat_inj)
    with True \<open>j < 0\<close> show ?thesis by simp
  next
    case False
    then have si: "showInt i = showNat (nat i)" by (simp add: showInt_def)
    have "\<not> j < 0"
    proof
      assume "j < 0"
      then have "hd (showInt j) = 45" by (simp add: showInt_def)
      with showNat_hd[of "nat i"] si eq show False by simp
    qed
    with False eq have "showNat (nat i) = showNat (nat j)" by (simp add: showInt_def)
    then have "nat i = nat j" by (rule showNat_inj)
    with False \<open>\<not> j < 0\<close> show ?thesis by simp
  qed
qed

lemma showInt_not_NaN: "showInt i \<noteq> lit ''NaN''"
proof
  assume "showInt i = lit ''NaN''"
  then have "78 \<in> set (showInt i)" by (simp add: lit_def)
  from showInt_chars[OF this] show False by simp
qed

text \<open>The characters of the string of a number: digits, and a sign, a point or an \<open>e\<close>.\<close>

lemma stripZeros_subset: "set (stripZeros ds) \<subseteq> set ds"
  by (auto simp: stripZeros_def dest: set_dropWhileD)

lemma decimalString_chars:
  assumes "\<forall>d\<in>set ds. d < 10" and "c \<in> set (decimalString ds n)"
  shows "c = 43 \<or> c = 45 \<or> c = 46 \<or> c = 101 \<or> (48 \<le> c \<and> c \<le> 57)"
proof -
  have d: "48 \<le> digitChar x \<and> digitChar x \<le> 57" if "x \<in> set ds" for x
    using assms(1) that by (auto simp: digitChar_def)
  from assms(2) show ?thesis
    by (auto simp: decimalString_def Let_def dest: d in_set_takeD in_set_dropD showNat_chars
        split: if_splits)
qed

lemma natString_chars:
  assumes "c \<in> set (natString m)"
  shows "c = 43 \<or> c = 45 \<or> c = 46 \<or> c = 101 \<or> (48 \<le> c \<and> c \<le> 57)"
proof -
  have "\<forall>d\<in>set (stripZeros (digits k)). d < 10" for k
    using stripZeros_subset digits_lt_10 by blast
  with assms show ?thesis
    by (auto simp: natString_def Let_def dest: showNat_chars decimalString_chars
        split: if_splits)
qed

lemma intString_chars:
  assumes "c \<in> set (intString i)"
  shows "c = 43 \<or> c = 45 \<or> c = 46 \<or> c = 101 \<or> (48 \<le> c \<and> c \<le> 57)"
  using assms natString_chars by (auto simp: intString_def split: if_splits)

lemma intString_not_NaN: "intString i \<noteq> lit ''NaN''"
proof
  assume "intString i = lit ''NaN''"
  then have "78 \<in> set (intString i)" by (simp add: lit_def)
  from intString_chars[OF this] show False by simp
qed


section \<open>The string of a number identifies it\<close>

text \<open>
  Two integers that are values of doubles and have the same string are the same: the
  string gives back the decimal it prints, and that decimal rounds to the number.
\<close>

lemma stripZeros_pad:
  "ds = stripZeros ds @ replicate (length ds - length (stripZeros ds)) 0"
proof -
  define xs where "xs = rev ds"
  have z: "takeWhile (\<lambda>d. d = 0) xs = replicate (length (takeWhile (\<lambda>d. d = 0) xs)) 0"
    by (rule replicate_length_same[symmetric]) (auto dest: set_takeWhileD)
  have "xs = takeWhile (\<lambda>d. d = 0) xs @ dropWhile (\<lambda>d. d = 0) xs" by simp
  then have "rev xs = rev (dropWhile (\<lambda>d. d = 0) xs) @ rev (takeWhile (\<lambda>d. d = 0) xs)"
    by (metis rev_append)
  also have "rev (takeWhile (\<lambda>d. d = 0) xs) = replicate (length (takeWhile (\<lambda>d. d = 0) xs)) 0"
    using z by (metis rev_replicate)
  finally have 1: "ds = stripZeros ds @ replicate (length (takeWhile (\<lambda>d. d = 0) xs)) 0"
    by (simp add: xs_def stripZeros_def)
  have "length xs = length (takeWhile (\<lambda>d. d = 0) xs) + length (dropWhile (\<lambda>d. d = 0) xs)"
    by (metis length_append takeWhile_dropWhile_id)
  then have "length (takeWhile (\<lambda>d. d = 0) xs) = length ds - length (stripZeros ds)"
    by (simp add: xs_def stripZeros_def)
  with 1 show ?thesis by simp
qed

lemma decimalString_exponent:
  "21 < n \<Longrightarrow> decimalString ds n = mantissa ds @ 0x65 # 0x2B # showNat (nat (n - 1))"
  by (auto simp: decimalString_def mantissa_def Let_def)

lemma digitChar_range: "d < 10 \<Longrightarrow> 48 \<le> digitChar d \<and> digitChar d \<le> 57"
  by (simp add: digitChar_def)

lemma mantissa_chars:
  assumes "\<forall>d\<in>set ds. d < 10" and "c \<in> set (mantissa ds)"
  shows "c = 46 \<or> (48 \<le> c \<and> c \<le> 57)"
proof -
  have d: "48 \<le> digitChar x \<and> digitChar x \<le> 57" if "x \<in> set ds" for x
    using assms(1) that by (auto simp: digitChar_def)
  from assms(2) show ?thesis
    by (auto simp: mantissa_def split: if_splits dest: d in_set_takeD in_set_dropD)
qed

lemma split_at_unique:
  assumes "xs @ c # ys = xs' @ c # ys'" and "c \<notin> set xs" and "c \<notin> set xs'"
  shows "xs = xs' \<and> ys = ys'"
  using assms
proof (induction xs arbitrary: xs')
  case Nil
  then show ?case by (cases xs') auto
next
  case (Cons a xs)
  then show ?case by (cases xs') auto
qed

lemma map_digitChar_inj: "map digitChar xs = map digitChar ys \<Longrightarrow> xs = ys"
  by (rule map_injective) (auto simp: inj_on_def digitChar_def)

lemma mantissa_inj:
  assumes a: "\<forall>d\<in>set ds. d < 10" and b: "\<forall>d\<in>set ds'. d < 10"
    and eq: "mantissa ds = mantissa ds'"
  shows "ds = ds'"
proof -
  have point: "46 \<notin> set (map digitChar xs)" if "\<forall>d\<in>set xs. d < 10" for xs
    using that by (auto simp: digitChar_def)
  have one: "False" if l: "length xs = 1" and l': "length ys \<noteq> 1"
    and e: "map digitChar xs = map digitChar (take 1 ys) @ [0x2E] @ map digitChar (drop 1 ys)"
    and x: "\<forall>d\<in>set xs. d < 10" for xs ys
  proof -
    from e have "46 \<in> set (map digitChar xs)" by simp
    with point[OF x] show False by simp
  qed
  show ?thesis
  proof (cases "length ds = 1")
    case True
    show ?thesis
    proof (cases "length ds' = 1")
      case t: True
      with True eq show ?thesis by (simp add: mantissa_def map_digitChar_inj)
    next
      case False
      with True eq one[OF True False _ a] show ?thesis by (simp add: mantissa_def)
    qed
  next
    case False
    show ?thesis
    proof (cases "length ds' = 1")
      case True
      with False eq one[OF True False _ b] show ?thesis by (simp add: mantissa_def)
    next
      case f: False
      from False f eq have
        "map digitChar (take 1 ds) @ 0x2E # map digitChar (drop 1 ds) =
         map digitChar (take 1 ds') @ 0x2E # map digitChar (drop 1 ds')"
        by (simp add: mantissa_def)
      moreover have "46 \<notin> set (map digitChar (take 1 ds))"
        using a by (intro point) (auto dest: in_set_takeD)
      moreover have "46 \<notin> set (map digitChar (take 1 ds'))"
        using b by (intro point) (auto dest: in_set_takeD)
      ultimately have "map digitChar (take 1 ds) = map digitChar (take 1 ds') \<and>
          map digitChar (drop 1 ds) = map digitChar (drop 1 ds')"
        by (rule split_at_unique)
      then have "take 1 ds = take 1 ds'" "drop 1 ds = drop 1 ds'"
        by (auto dest: map_digitChar_inj)
      then show ?thesis by (metis append_take_drop_id)
    qed
  qed
qed

lemma decimalString_exponent_inj:
  assumes a: "\<forall>d\<in>set ds. d < 10" and b: "\<forall>d\<in>set ds'. d < 10"
    and n: "21 < n" "21 < n'"
    and eq: "decimalString ds n = decimalString ds' n'"
  shows "ds = ds' \<and> n = n'"
proof -
  from eq n have e: "mantissa ds @ 0x65 # (0x2B # showNat (nat (n - 1))) =
      mantissa ds' @ 0x65 # (0x2B # showNat (nat (n' - 1)))"
    by (simp add: decimalString_exponent)
  have "101 \<notin> set (mantissa ds)" using mantissa_chars[OF a] by fastforce
  moreover have "101 \<notin> set (mantissa ds')" using mantissa_chars[OF b] by fastforce
  ultimately have "mantissa ds = mantissa ds' \<and>
      0x2B # showNat (nat (n - 1)) = 0x2B # showNat (nat (n' - 1))"
    using e by (intro split_at_unique) 
  then have m: "mantissa ds = mantissa ds'" and s: "showNat (nat (n - 1)) = showNat (nat (n' - 1))"
    by simp_all
  from s have "nat (n - 1) = nat (n' - 1)" by (rule showNat_inj)
  with n have "n = n'" by simp
  with mantissa_inj[OF a b m] show ?thesis by simp
qed

text \<open>The decimal that the string of a number prints rounds to the number.\<close>

lemma natString_decimal:
  assumes "roundNat m = m"
  shows "\<exists>c. roundNat c = m \<and>
     (natString m = showNat c \<or>
      (natString m = decimalString (stripZeros (digits c)) (int (length (digits c))) \<and>
       21 < length (digits c)))"
proof (cases "m < 9007199254740992")
  case True
  with assms show ?thesis by (auto simp: natString_def)
next
  case False
  have r: "roundNat (shortestDecimal m) = m"
  proof (cases "find (\<lambda>c. roundNat c = m) (candidates m)")
    case None
    with assms show ?thesis by (simp add: shortestDecimal_def)
  next
    case (Some c)
    then have "roundNat c = m" by (auto simp: find_Some_iff)
    with Some show ?thesis by (simp add: shortestDecimal_def)
  qed
  show ?thesis
  proof (cases "length (digits (shortestDecimal m)) \<le> 21")
    case True
    with False r show ?thesis by (auto simp: natString_def Let_def)
  next
    case f: False
    with False have "natString m = decimalString (stripZeros (digits (shortestDecimal m)))
        (int (length (digits (shortestDecimal m))))"
      by (simp add: natString_def Let_def)
    with f r show ?thesis by auto
  qed
qed

lemma natString_inj:
  assumes m: "roundNat m = m" and m': "roundNat m' = m'" and eq: "natString m = natString m'"
  shows "m = m'"
proof -
  from natString_decimal[OF m] obtain c where c: "roundNat c = m"
    and sc: "natString m = showNat c \<or>
      (natString m = decimalString (stripZeros (digits c)) (int (length (digits c))) \<and>
       21 < length (digits c))" by blast
  from natString_decimal[OF m'] obtain c' where c': "roundNat c' = m'"
    and sc': "natString m' = showNat c' \<or>
      (natString m' = decimalString (stripZeros (digits c')) (int (length (digits c'))) \<and>
       21 < length (digits c'))" by blast
  have dig: "\<forall>d\<in>set (stripZeros (digits k)). d < 10" for k
    using stripZeros_subset digits_lt_10 by blast
  have e: "101 \<in> set (decimalString ds n)" if "21 < n" for ds n
    using that by (simp add: decimalString_exponent)
  have ne: "101 \<notin> set (showNat k)" for k
    using showNat_chars[of 101 k] by auto
  have "c = c'"
  proof -
    consider (pp) "natString m = showNat c" "natString m' = showNat c'"
      | (pe) "natString m = showNat c"
          "natString m' = decimalString (stripZeros (digits c')) (int (length (digits c')))"
          "21 < length (digits c')"
      | (ep) "natString m = decimalString (stripZeros (digits c)) (int (length (digits c)))"
          "21 < length (digits c)" "natString m' = showNat c'"
      | (ee) "natString m = decimalString (stripZeros (digits c)) (int (length (digits c)))"
          "21 < length (digits c)"
          "natString m' = decimalString (stripZeros (digits c')) (int (length (digits c')))"
          "21 < length (digits c')"
      using sc sc' by blast
    then show ?thesis
    proof cases
      case pp
      with eq show ?thesis by (auto dest: showNat_inj)
    next
      case pe
      with eq e[of "int (length (digits c'))" "stripZeros (digits c')"] ne[of c]
      show ?thesis by simp
    next
      case ep
      with eq e[of "int (length (digits c))" "stripZeros (digits c)"] ne[of c']
      show ?thesis by simp
    next
      case ee
      with eq have "decimalString (stripZeros (digits c)) (int (length (digits c))) =
          decimalString (stripZeros (digits c')) (int (length (digits c')))" by simp
      from decimalString_exponent_inj[OF dig dig _ _ this] ee
      have s: "stripZeros (digits c) = stripZeros (digits c')"
        and l: "length (digits c) = length (digits c')" by simp_all
      have "digits c = stripZeros (digits c) @
          replicate (length (digits c) - length (stripZeros (digits c))) 0"
        by (rule stripZeros_pad)
      also have "\<dots> = stripZeros (digits c') @
          replicate (length (digits c') - length (stripZeros (digits c'))) 0"
        by (simp add: s l)
      also have "\<dots> = digits c'" by (rule stripZeros_pad[symmetric])
      finally show ?thesis by (rule digits_inj)
    qed
  qed
  with c c' show ?thesis by simp
qed

lemma natString_hd: "natString m \<noteq> [] \<and> hd (natString m) \<noteq> 45"
proof -
  have s: "showNat k \<noteq> [] \<and> hd (showNat k) \<noteq> 45" for k
    using showNat_nonempty showNat_hd by simp
  have d: "decimalString ds n \<noteq> [] \<and> hd (decimalString ds n) \<noteq> 45"
    if "21 < n" "\<forall>d\<in>set ds. d < 10" for ds n
  proof (cases ds)
    case Nil
    with that show ?thesis by (simp add: decimalString_exponent mantissa_def)
  next
    case (Cons x xs)
    with that have "x < 10" by simp
    with Cons that show ?thesis
      by (auto simp: decimalString_exponent mantissa_def digitChar_def)
  qed
  have dig: "\<forall>d\<in>set (stripZeros (digits k)). d < 10" for k
    using stripZeros_subset digits_lt_10 by blast
  show ?thesis
    using s d[OF _ dig] by (auto simp: natString_def Let_def)
qed

lemma representable_roundNat:
  assumes "representable i"
  shows "roundNat (nat \<bar>i\<bar>) = nat \<bar>i\<bar>"
proof -
  define m where "m = roundNat (nat \<bar>i\<bar>)"
  define B :: nat where "B = 2 ^ 1024"
  from assms have "(let m = roundNat (nat \<bar>i\<bar>)
      in if B \<le> m then Infinity (i < 0)
         else IntVal (if i < 0 then - int m else int m)) = IntVal i"
    unfolding representable_def roundNumber_def B_def .
  then have "(if B \<le> m then Infinity (i < 0)
      else IntVal (if i < 0 then - int m else int m)) = IntVal i"
    by (simp only: Let_def m_def)
  then have "(if i < 0 then - int m else int m) = i"
    by (cases "B \<le> m") simp_all
  then have "int m = \<bar>i\<bar>"
    by (cases "i < 0") simp_all
  then have "m = nat \<bar>i\<bar>" by simp
  then show ?thesis by (simp only: m_def)
qed

lemma String_of_inj:
  assumes "representable a" and "representable b"
    and "String_of (IntVal a) = String_of (IntVal b)"
  shows "a = b"
proof -
  from assms(3) have eq: "intString a = intString b" by simp
  show ?thesis
  proof (cases "a < 0")
    case True
    have nb: "b < 0"
    proof (rule ccontr)
      assume "\<not> b < 0"
      with True eq have "natString (nat b) = 45 # natString (nat (- a))"
        by (simp add: intString_def)
      then have "hd (natString (nat b)) = 45" by simp
      with natString_hd[of "nat b"] show False by simp
    qed
    from True have a: "nat \<bar>a\<bar> = nat (- a)" by simp
    from nb have b: "nat \<bar>b\<bar> = nat (- b)" by simp
    from representable_roundNat[OF assms(1)] a have ra: "roundNat (nat (- a)) = nat (- a)"
      by (simp only:)
    from representable_roundNat[OF assms(2)] b have rb: "roundNat (nat (- b)) = nat (- b)"
      by (simp only:)
    from True nb eq have "natString (nat (- a)) = natString (nat (- b))"
      by (simp add: intString_def)
    from natString_inj[OF ra rb this] True nb show ?thesis by linarith
  next
    case False
    have nb: "\<not> b < 0"
    proof
      assume "b < 0"
      with False eq have "natString (nat a) = 45 # natString (nat (- b))"
        by (simp add: intString_def)
      then have "hd (natString (nat a)) = 45" by simp
      with natString_hd[of "nat a"] show False by simp
    qed
    from False have a: "nat \<bar>a\<bar> = nat a" by simp
    from nb have b: "nat \<bar>b\<bar> = nat b" by simp
    from representable_roundNat[OF assms(1)] a have ra: "roundNat (nat a) = nat a"
      by (simp only:)
    from representable_roundNat[OF assms(2)] b have rb: "roundNat (nat b) = nat b"
      by (simp only:)
    from False nb eq have "natString (nat a) = natString (nat b)"
      by (simp add: intString_def)
    from natString_inj[OF ra rb this] False nb show ?thesis by linarith
  qed
qed


section \<open>The two indexes\<close>

lemma buildNamesIndexLoop_lookup:
  "map_of (buildNamesIndexLoop names index) k =
     (let new = filter (\<lambda>n. String_of (IntVal (abjad_value n)) = k) names
      in if new = [] then map_of index k
         else Some ((case map_of index k of Some ns \<Rightarrow> ns | None \<Rightarrow> []) @ new))"
proof (induction names arbitrary: index)
  case Nil
  then show ?case by simp
next
  case (Cons name rest)
  show ?case
    by (simp add: Cons.IH Let_def update_conv' split: option.splits)
qed

lemma buildNamesIndex_lookup:
  "map_of (buildNamesIndex names) k =
     (if filter (\<lambda>n. String_of (IntVal (abjad_value n)) = k) names = [] then None
      else Some (filter (\<lambda>n. String_of (IntVal (abjad_value n)) = k) names))"
  by (simp add: buildNamesIndex_def buildNamesIndexLoop_lookup Let_def)

lemma buildValueMapLoop_lookup:
  "map_of (buildValueMapLoop names vti) v =
     (let new = map id_n (filter (\<lambda>n. abjad_value n = v) names)
      in if new = [] then map_of vti v
         else Some ((case map_of vti v of Some ids \<Rightarrow> ids | None \<Rightarrow> []) @ new))"
proof (induction names arbitrary: vti)
  case Nil
  then show ?case by simp
next
  case (Cons name rest)
  show ?case
    by (simp add: Cons.IH Let_def update_conv' split: option.splits)
qed

lemma buildValueMap_lookup:
  "map_of (valueToIds (buildValueMap loader)) v =
     (if filter (\<lambda>n. abjad_value n = v) (divineNames loader) = [] then None
      else Some (map id_n (filter (\<lambda>n. abjad_value n = v) (divineNames loader))))"
  by (simp add: buildValueMap_def buildValueMapLoop_lookup Let_def)


section \<open>The pair search\<close>

lemma getNameById_Some:
  "getNameById loader i = Some n \<Longrightarrow> n \<in> set (divineNames loader) \<and> id_n n = i"
  by (auto simp: getNameById_def find_Some_iff)

lemma set_insertSorted: "set (insertSorted x ys) = insert x (set ys)"
  by (induction ys) auto

lemma set_sortCombinations: "set (sortCombinations xs) = set xs"
  by (induction xs) (auto simp: sortCombinations_def set_insertSorted)

lemma distinct_map_insertSorted:
  "distinct (map f (insertSorted x ys)) = (f x \<notin> f ` set ys \<and> distinct (map f ys))"
  by (induction ys) (auto simp: set_insertSorted)

lemma distinct_map_sortCombinations:
  "distinct (map f (sortCombinations xs)) = distinct (map f xs)"
proof (induction xs)
  case Nil
  then show ?case by (simp add: sortCombinations_def)
next
  case (Cons x xs)
  have "sortCombinations (x # xs) = insertSorted x (sortCombinations xs)"
    by (simp add: sortCombinations_def)
  with Cons show ?case
    by (simp add: distinct_map_insertSorted set_sortCombinations)
qed

text \<open>The combinations a search returns are the first of those the loops recorded, sorted.\<close>

lemma findTwoNameCombination_combinations:
  "tn_combinations (findTwoNameCombination this loader v limit) =
     take limit (sortCombinations
       (snd (pairOuterLoop this loader v (divineNames loader) ({}, []))))"
  by (simp add: findTwoNameCombination_def Let_def split: prod.splits)

text \<open>The scenarios, evaluated.\<close>

lemma scenarioD_namesIndex: "buildNamesIndex scenarioD_catalog = [(showInt 40, [entity 1 40]), (showInt 26, [entity 2 26])]"
  by (simp add: buildNamesIndex_def scenarioD_catalog_def entity_def Let_def intString_small showInt_def showNat_def digits.simps digitChar_def)

lemma scenarioD_valueToIds:
  "buildValueMap scenarioD_loader = \<lparr> valueToIds = [(40, [1]), (26, [2])] \<rparr>"
  by (simp add: buildValueMap_def scenarioD_loader_def DataLoader_new_def scenarioD_catalog_def
      entity_def Let_def)

lemma canonicalKey_1_2: "canonicalKey 1 2 = lit ''[1,2]''"
  by (simp add: canonicalKey_def sortPair_def intString_small showInt_def showNat_def digits.simps digitChar_def lit_def)

lemma canonicalKey_2_1: "canonicalKey 2 1 = lit ''[1,2]''"
  by (simp add: canonicalKey_def sortPair_def intString_small showInt_def showNat_def digits.simps digitChar_def lit_def)

lemma scenarioD_divineNames: "divineNames scenarioD_loader = scenarioD_catalog"
  by (simp add: scenarioD_loader_def DataLoader_new_def)

lemma scenarioD_pair_search:
  "findTwoNameCombination (buildValueMap scenarioD_loader) scenarioD_loader (IntVal 66) 10 =
     \<lparr> tn_found = True, tn_abjadValue = IntVal 66, tn_count = 1,
       tn_combinations = [\<lparr> co_name1 = entity 1 40, co_name2 = entity 2 26, co_total = IntVal 66 \<rparr>] \<rparr>"
  by (simp add: findTwoNameCombination_def scenarioD_valueToIds scenarioD_divineNames
      scenarioD_catalog_def entity_def Let_def getNameById_def
      canonicalKey_1_2 canonicalKey_2_1 sortCombinations_def minusNumber_small)

lemma scenarioC_namesIndex:
  "buildNamesIndex scenarioC_catalog = [(showInt 66, [entity 1 66, entity 2 66])]"
  by (simp add: buildNamesIndex_def scenarioC_catalog_def entity_def Let_def intString_small showInt_def
      showNat_def digits.simps digitChar_def)

lemma scenarioC_loader_index:
  "namesIndex scenarioC_loader = [(showInt 66, [entity 1 66, entity 2 66])]"
  by (simp add: scenarioC_loader_def DataLoader_new_def scenarioC_namesIndex)

lemma scenarioD_loader_index:
  "namesIndex scenarioD_loader = [(showInt 40, [entity 1 40]), (showInt 26, [entity 2 26])]"
  by (simp add: scenarioD_loader_def DataLoader_new_def scenarioD_namesIndex)

lemma scenarioD_no_direct: "getNamesByValue scenarioD_loader (IntVal 66) = Inr []"
  by (simp add: getNamesByValue_def scenarioD_loader_index intString_small showInt_def showNat_def
      digits.simps digitChar_def)

section \<open>Direct match before pair search\<close>

lemma findMatch_direct:
  assumes "map_of (namesIndex loader) (String_of v) = Some names" and "names \<noteq> []"
  shows "findMatch matcher loader v =
     Inr (DirectMatch \<lparr> dm_found = True, dm_abjadValue = v, dm_count = length names,
                         dm_divineNames = names \<rparr>)"
proof -
  from assms(1) have "namesIndex loader \<noteq> []" by auto
  with assms show ?thesis
    by (simp add: findMatch_def findDirectMatch_def getNamesByValue_def Let_def)
qed

lemma findMatch_pair:
  assumes "findMatch matcher loader v = Inr (TwoNameCombination t)"
  shows "getNamesByValue loader v = Inr [] \<and> t = findTwoNameCombination matcher loader v 10"
  using assms
  by (cases "getNamesByValue loader v")
     (auto simp: findMatch_def findDirectMatch_def Let_def split: if_splits)



text \<open>The key of a pair does not depend on the order of its two ids.\<close>

lemma canonicalKey_sym: "canonicalKey a b = canonicalKey b a"
proof (cases "intString b < intString a")
  case True
  then have "\<not> intString a < intString b" by simp
  with True show ?thesis by (simp add: canonicalKey_def sortPair_def)
next
  case False
  show ?thesis
  proof (cases "intString a < intString b")
    case True
    with False show ?thesis by (simp add: canonicalKey_def sortPair_def)
  next
    case nlt: False
    with False have "intString a = intString b" by simp
    with False show ?thesis by (simp add: canonicalKey_def sortPair_def)
  qed
qed

lemma canonicalKey_of_set: "{a, b} = {c, d} \<Longrightarrow> canonicalKey a b = canonicalKey c d"
  by (auto simp: doubleton_eq_iff canonicalKey_sym)

text \<open>
  Every combination in the list has its key in the set of recorded keys, and no two
  combinations of the list have the same key.
\<close>

lemma pairInnerLoop_keys:
  assumes "distinct (map combinationKey (snd acc))" and "combinationKey ` set (snd acc) \<subseteq> fst acc"
  shows "distinct (map combinationKey (snd (pairInnerLoop loader v name1 name2Ids acc)))
       \<and> combinationKey ` set (snd (pairInnerLoop loader v name1 name2Ids acc))
           \<subseteq> fst (pairInnerLoop loader v name1 name2Ids acc)"
  using assms
proof (induction name2Ids arbitrary: acc)
  case Nil
  then show ?case by simp
next
  case (Cons i rest)
  obtain recorded combos where acc: "acc = (recorded, combos)" by (cases acc)
  show ?case
  proof (cases "id_n name1 = i \<or> canonicalKey (id_n name1) i \<in> recorded")
    case True
    then show ?thesis
      using Cons.IH[of "(recorded, combos)"] Cons.prems acc by (auto simp: Let_def)
  next
    case False
    show ?thesis
    proof (cases "getNameById loader i")
      case None
      have "distinct (map combinationKey (snd (insert (canonicalKey (id_n name1) i) recorded, combos)))"
        "combinationKey ` set (snd (insert (canonicalKey (id_n name1) i) recorded, combos))
           \<subseteq> fst (insert (canonicalKey (id_n name1) i) recorded, combos)"
        using Cons.prems acc by auto
      from Cons.IH[OF this] False None acc show ?thesis by (auto simp: Let_def)
    next
      case (Some name2)
      let ?c = "\<lparr> co_name1 = \<lparr> id_n = id_n name1, arabic_name = arabic_name name1,
                                  english_name = english_name name1,
                                  meaning = meaning name1, abjad_value = abjad_value name1 \<rparr>,
                   co_name2 = \<lparr> id_n = i, arabic_name = arabic_name name2,
                                  english_name = english_name name2,
                                  meaning = meaning name2,
                                  abjad_value = abjad_value name2 \<rparr>,
                   co_total = v \<rparr>"
      have key: "combinationKey ?c = canonicalKey (id_n name1) i"
        by (simp add: combinationKey_def)
      from False Cons.prems acc have "canonicalKey (id_n name1) i \<notin> combinationKey ` set combos"
        by auto
      with Cons.prems acc key have
        "distinct (map combinationKey (snd (insert (canonicalKey (id_n name1) i) recorded, combos @ [?c])))"
        "combinationKey ` set (snd (insert (canonicalKey (id_n name1) i) recorded, combos @ [?c]))
           \<subseteq> fst (insert (canonicalKey (id_n name1) i) recorded, combos @ [?c])"
        by auto
      from Cons.IH[OF this] False Some acc show ?thesis by (auto simp: Let_def)
    qed
  qed
qed

lemma pairOuterLoop_keys:
  assumes "distinct (map combinationKey (snd acc))" and "combinationKey ` set (snd acc) \<subseteq> fst acc"
  shows "distinct (map combinationKey (snd (pairOuterLoop matcher loader v names acc)))
       \<and> combinationKey ` set (snd (pairOuterLoop matcher loader v names acc))
           \<subseteq> fst (pairOuterLoop matcher loader v names acc)"
  using assms
proof (induction names arbitrary: acc)
  case Nil
  then show ?case by simp
next
  case (Cons name1 rest)
  show ?case
  proof (cases "minusNumber v (IntVal (abjad_value name1))")
    case NaN
    with Cons show ?thesis by (simp add: Let_def)
  next
    case (Infinity neg)
    with Cons show ?thesis by (simp add: Let_def)
  next
    case (IntVal r)
    show ?thesis
    proof (cases "map_of (valueToIds matcher) r")
      case None
      with IntVal Cons show ?thesis by (simp add: Let_def)
    next
      case (Some ids)
      from pairInnerLoop_keys[OF Cons.prems] have
        "distinct (map combinationKey (snd (pairInnerLoop loader v name1 ids acc)))"
        "combinationKey ` set (snd (pairInnerLoop loader v name1 ids acc))
           \<subseteq> fst (pairInnerLoop loader v name1 ids acc)"
        by simp_all
      from Cons.IH[OF this] IntVal Some show ?thesis by (simp add: Let_def)
    qed
  qed
qed

lemma distinct_keys_distinct_pairs:
  assumes "distinct (map combinationKey xs)"
  shows "distinct (map (\<lambda>c. {id_n (co_name1 c), id_n (co_name2 c)}) xs)"
proof -
  from assms have d: "distinct xs" and inj: "inj_on combinationKey (set xs)"
    by (simp_all add: distinct_map)
  have "inj_on (\<lambda>c. {id_n (co_name1 c), id_n (co_name2 c)}) (set xs)"
  proof (rule inj_onI)
    fix x y
    assume x: "x \<in> set xs" and y: "y \<in> set xs"
      and eq: "{id_n (co_name1 x), id_n (co_name2 x)} = {id_n (co_name1 y), id_n (co_name2 y)}"
    from canonicalKey_of_set[OF eq] have "combinationKey x = combinationKey y"
      by (simp add: combinationKey_def)
    with inj x y show "x = y" by (auto dest: inj_onD)
  qed
  with d show ?thesis by (simp add: distinct_map)
qed



section \<open>White space\<close>

lemma collapseSpaces_Nil_iff: "collapseSpaces xs = [] \<longleftrightarrow> xs = []"
  by (cases xs) auto

lemma collapseSpaces_hd:
  "xs \<noteq> [] \<Longrightarrow> \<not> isWhiteSpace (hd xs) \<Longrightarrow> hd (collapseSpaces xs) = hd xs"
  by (cases xs) auto

lemma dropWhile_clean: "xs = [] \<or> \<not> P (hd xs) \<Longrightarrow> dropWhile P xs = xs"
  by (cases xs) auto

lemma dropWhile_hd: "dropWhile P xs = [] \<or> \<not> P (hd (dropWhile P xs))"
  using hd_dropWhile[of P xs] by blast

lemma collapseSpaces_idem: "collapseSpaces (collapseSpaces xs) = collapseSpaces xs"
proof (induction xs rule: collapseSpaces.induct)
  case 1
  then show ?case by simp
next
  case (2 c cs)
  show ?case
  proof (cases "isWhiteSpace c")
    case True
    define t where "t = dropWhile isWhiteSpace cs"
    have t: "t = [] \<or> \<not> isWhiteSpace (hd t)"
      unfolding t_def by (rule dropWhile_hd)
    have "collapseSpaces t = [] \<or> \<not> isWhiteSpace (hd (collapseSpaces t))"
    proof (cases "t = []")
      case True
      then show ?thesis by simp
    next
      case False
      with t have "\<not> isWhiteSpace (hd t)" by simp
      with False show ?thesis by (simp add: collapseSpaces_hd)
    qed
    then have "dropWhile isWhiteSpace (collapseSpaces t) = collapseSpaces t"
      by (rule dropWhile_clean)
    moreover have "isWhiteSpace 0x20" by (simp add: isWhiteSpace_def)
    moreover from 2(1)[OF True] have "collapseSpaces (collapseSpaces t) = collapseSpaces t"
      by (simp add: t_def)
    ultimately show ?thesis using True by (simp add: t_def)
  next
    case False
    with 2(2) show ?thesis by simp
  qed
qed

lemma last_dropWhile_eq: "dropWhile P xs \<noteq> [] \<Longrightarrow> last (dropWhile P xs) = last xs"
proof -
  assume ne: "dropWhile P xs \<noteq> []"
  have "xs = takeWhile P xs @ dropWhile P xs" by simp
  then have "last xs = last (takeWhile P xs @ dropWhile P xs)" by simp
  also have "\<dots> = last (dropWhile P xs)" using ne by (rule last_appendR)
  finally show ?thesis by simp
qed

lemma collapseSpaces_last:
  "xs \<noteq> [] \<Longrightarrow> \<not> isWhiteSpace (last xs) \<Longrightarrow> \<not> isWhiteSpace (last (collapseSpaces xs))"
proof (induction xs rule: collapseSpaces.induct)
  case 1
  then show ?case by simp
next
  case (2 c cs)
  show ?case
  proof (cases "isWhiteSpace c")
    case True
    with 2(4) have cs: "cs \<noteq> []" by auto
    with 2(4) have lastcs: "\<not> isWhiteSpace (last cs)" by simp
    define t where "t = dropWhile isWhiteSpace cs"
    have ne: "t \<noteq> []"
    proof
      assume "t = []"
      then have "\<forall>x\<in>set cs. isWhiteSpace x" by (simp add: t_def)
      with cs lastcs show False using last_in_set by blast
    qed
    then have "last t = last cs" unfolding t_def by (rule last_dropWhile_eq)
    with lastcs have "\<not> isWhiteSpace (last t)" by simp
    from 2(1)[OF True, folded t_def, OF ne this]
    have "\<not> isWhiteSpace (last (collapseSpaces t))" .
    moreover from ne have "collapseSpaces t \<noteq> []" by (simp add: collapseSpaces_Nil_iff)
    moreover from True have "collapseSpaces (c # cs) = 0x20 # collapseSpaces t"
      by (simp add: t_def)
    ultimately show ?thesis by simp
  next
    case False
    show ?thesis
    proof (cases "cs = []")
      case True
      with False show ?thesis by simp
    next
      case ne: False
      with 2(4) have "\<not> isWhiteSpace (last cs)" by simp
      from 2(2)[OF False ne this] False ne show ?thesis
        by (simp add: collapseSpaces_Nil_iff)
    qed
  qed
qed

lemma trim_clean:
  assumes "xs = [] \<or> (\<not> isWhiteSpace (hd xs) \<and> \<not> isWhiteSpace (last xs))"
  shows "trim xs = xs"
proof (cases "xs = []")
  case True
  then show ?thesis by (simp add: trim_def)
next
  case False
  with assms have h: "\<not> isWhiteSpace (hd xs)" and l: "\<not> isWhiteSpace (last xs)" by simp_all
  from h have 1: "dropWhile isWhiteSpace xs = xs" by (simp add: dropWhile_clean)
  from False l have "\<not> isWhiteSpace (hd (rev xs))" by (simp add: hd_rev)
  then have "dropWhile isWhiteSpace (rev xs) = rev xs" by (simp add: dropWhile_clean)
  with 1 show ?thesis by (simp add: trim_def)
qed

lemma trim_ends:
  "trim s = [] \<or> (\<not> isWhiteSpace (hd (trim s)) \<and> \<not> isWhiteSpace (last (trim s)))"
proof (cases "trim s = []")
  case True
  then show ?thesis by simp
next
  case False
  define u where "u = dropWhile isWhiteSpace s"
  define w where "w = dropWhile isWhiteSpace (rev u)"
  have tr: "trim s = rev w" by (simp add: trim_def u_def w_def)
  with False have w: "w \<noteq> []" by simp
  have u: "u \<noteq> []"
  proof
    assume "u = []"
    then have "w = []" by (simp add: w_def)
    with w show False by simp
  qed
  have "w = [] \<or> \<not> isWhiteSpace (hd w)" unfolding w_def by (rule dropWhile_hd)
  with w have "\<not> isWhiteSpace (hd w)" by simp
  with w tr have l: "\<not> isWhiteSpace (last (trim s))" by (simp add: last_rev)
  from w have "last w = last (rev u)" unfolding w_def by (rule last_dropWhile_eq)
  with u have "last w = hd u" by (simp add: last_rev)
  moreover have "u = [] \<or> \<not> isWhiteSpace (hd u)" unfolding u_def by (rule dropWhile_hd)
  ultimately have "\<not> isWhiteSpace (last w)" using u by simp
  with w tr have "\<not> isWhiteSpace (hd (trim s))" by (simp add: hd_rev)
  with l show ?thesis by simp
qed

lemma removeSpaces_idem: "removeSpaces (removeSpaces s) = removeSpaces s"
proof -
  let ?t = "trim s"
  have "collapseSpaces ?t = [] \<or>
      (\<not> isWhiteSpace (hd (collapseSpaces ?t)) \<and> \<not> isWhiteSpace (last (collapseSpaces ?t)))"
    using trim_ends[of s] collapseSpaces_hd[of ?t] collapseSpaces_last[of ?t]
    by (auto simp: collapseSpaces_Nil_iff)
  then have "trim (collapseSpaces ?t) = collapseSpaces ?t" by (rule trim_clean)
  then show ?thesis by (simp add: removeSpaces_def collapseSpaces_idem)
qed

lemma collapseSpaces_no_space: "\<forall>c\<in>set xs. \<not> isWhiteSpace c \<Longrightarrow> collapseSpaces xs = xs"
  by (induction xs) auto

lemma removeSpaces_no_space:
  assumes "\<forall>c\<in>set xs. \<not> isWhiteSpace c"
  shows "removeSpaces xs = xs"
proof -
  have "trim xs = xs"
  proof (rule trim_clean)
    show "xs = [] \<or> (\<not> isWhiteSpace (hd xs) \<and> \<not> isWhiteSpace (last xs))"
      using assms by (cases xs) auto
  qed
  with assms show ?thesis by (simp add: removeSpaces_def collapseSpaces_no_space)
qed

lemma set_collapseSpaces: "set (collapseSpaces xs) \<subseteq> insert 0x20 (set xs)"
proof (induction xs rule: collapseSpaces.induct)
  case 1
  then show ?case by simp
next
  case (2 c cs)
  show ?case
  proof (cases "isWhiteSpace c")
    case True
    from 2(1)[OF True] have "set (collapseSpaces (dropWhile isWhiteSpace cs)) \<subseteq> insert 0x20 (set cs)"
      using set_dropWhileD by fastforce
    with True show ?thesis by auto
  next
    case False
    with 2(2) show ?thesis by auto
  qed
qed

lemma set_trim: "set (trim xs) \<subseteq> set xs"
  by (auto simp: trim_def dest!: set_dropWhileD)

lemma set_removeSpaces: "set (removeSpaces xs) \<subseteq> insert 0x20 (set xs)"
  using set_collapseSpaces[of "trim xs"] set_trim[of xs] by (auto simp: removeSpaces_def)


section \<open>The normalizer\<close>

lemma validateLoop_filter:
  "validateLoop b str cleaned non =
     (cleaned @ filter (keptChar b) str,
      non @ filter (\<lambda>c. c \<noteq> 0x20 \<and> \<not> isArabicUrduChar c) str)"
  by (induction str arbitrary: cleaned non) (auto simp: keptChar_def)

lemma removeDiacritics_none:
  "\<not> list_ex isDiacritic str \<Longrightarrow> filter (\<lambda>char. \<not> isDiacritic char) str = str"
  by (induction str) auto

lemma removeSpaces_Nil: "removeSpaces [] = []"
  by (simp add: removeSpaces_def trim_def)

text \<open>The cleaned text and the success flag of \<open>processNameInput\<close>, without the status.\<close>

lemma processNameInput_cleaned:
  "fst (processNameInput x b) = cleanedText b x"
  "st_cleaned (snd (processNameInput x b)) = cleanedText b x"
  "st_success (snd (processNameInput x b)) = (cleanedText b x \<noteq> [])"
proof -
  show "fst (processNameInput x b) = cleanedText b x"
    by (cases "list_ex isDiacritic (removeSpaces x)")
       (auto simp: processNameInput_def cleanedText_def Let_def validateLoop_filter
          removeDiacritics_none removeSpaces_Nil removeDiacritics_def normalizeVariants_def
        split: prod.splits)
  show "st_cleaned (snd (processNameInput x b)) = cleanedText b x"
    by (cases "list_ex isDiacritic (removeSpaces x)")
       (auto simp: processNameInput_def cleanedText_def Let_def validateLoop_filter
          removeDiacritics_none removeSpaces_Nil removeDiacritics_def normalizeVariants_def
        split: prod.splits)
  show "st_success (snd (processNameInput x b)) = (cleanedText b x \<noteq> [])"
    by (cases "list_ex isDiacritic (removeSpaces x)")
       (auto simp: processNameInput_def cleanedText_def Let_def validateLoop_filter
          removeDiacritics_none removeSpaces_Nil removeDiacritics_def normalizeVariants_def
        split: prod.splits)
qed

text \<open>Facts about the three character tables.\<close>

lemma space_plain: "\<not> isDiacritic 0x20" "normalizeChar 0x20 = 0x20" "isWhiteSpace 0x20"
  by (simp_all add: isDiacritic_def ARABIC_DIACRITICS_def normalizeChar_def
      ARABIC_CHAR_VARIANTS_def isWhiteSpace_def)

lemma normalizeChar_idem: "normalizeChar (normalizeChar c) = normalizeChar c"
  by (simp add: normalizeChar_def ARABIC_CHAR_VARIANTS_def)

lemma normalizeChar_not_diacritic: "\<not> isDiacritic c \<Longrightarrow> \<not> isDiacritic (normalizeChar c)"
  by (simp add: normalizeChar_def ARABIC_CHAR_VARIANTS_def isDiacritic_def ARABIC_DIACRITICS_def
      split: if_splits)

lemma arabic_not_space: "isArabicUrduChar c \<Longrightarrow> \<not> isWhiteSpace c"
  by (auto simp: isArabicUrduChar_def isWhiteSpace_def VALID_ARABIC_LETTERS_def
      split: if_splits)


lemma cleanedText_chars:
  assumes "c \<in> set (cleanedText b x)"
  shows "keptChar b c \<and> \<not> isDiacritic c \<and> normalizeChar c = c"
proof -
  define z where "z = filter (keptChar b) (normalizeVariants (removeDiacritics (removeSpaces x)))"
  have y: "cleanedText b x = removeSpaces z" by (simp add: cleanedText_def z_def)
  have z: "keptChar b d \<and> \<not> isDiacritic d \<and> normalizeChar d = d" if "d \<in> set z" for d
  proof -
    from that have k: "keptChar b d" by (simp add: z_def)
    from that obtain e where "d = normalizeChar e" "\<not> isDiacritic e"
      by (auto simp: z_def normalizeVariants_def removeDiacritics_def)
    with k show ?thesis by (simp add: normalizeChar_idem normalizeChar_not_diacritic)
  qed
  show ?thesis
  proof (cases b)
    case True
    have "\<not> isWhiteSpace d" if "d \<in> set z" for d
    proof -
      from z[OF that] True have "isArabicUrduChar d" by (simp add: keptChar_def split: if_splits)
      then show ?thesis by (rule arabic_not_space)
    qed
    then have "removeSpaces z = z" by (simp add: removeSpaces_no_space)
    with y assms have "c \<in> set z" by simp
    then show ?thesis by (rule z)
  next
    case False
    from assms y set_removeSpaces[of z] have "c = 0x20 \<or> c \<in> set z" by auto
    then show ?thesis
    proof
      assume "c = 0x20"
      with False show ?thesis by (simp add: keptChar_def space_plain)
    next
      assume "c \<in> set z"
      then show ?thesis by (rule z)
    qed
  qed
qed

lemma cleanedText_idem: "cleanedText b (cleanedText b x) = cleanedText b x"
proof -
  define y where "y = cleanedText b x"
  have sp: "removeSpaces y = y"
    by (simp add: y_def cleanedText_def removeSpaces_idem)
  have ch: "keptChar b c \<and> \<not> isDiacritic c \<and> normalizeChar c = c" if "c \<in> set y" for c
    using that cleanedText_chars by (simp add: y_def)
  have 1: "removeDiacritics y = y"
    using ch by (simp add: removeDiacritics_def)
  have 2: "normalizeVariants y = y"
    using ch by (simp add: normalizeVariants_def map_idI)
  have 3: "filter (keptChar b) y = y"
    using ch by simp
  have "cleanedText b y = y"
    by (simp add: cleanedText_def sp 1 2 3)
  then show ?thesis by (simp add: y_def)
qed


lemma messy_processNameInput:
  "processNameInput messy_input False = (messy_cleaned,
     \<lparr> st_success = True, st_original = messy_input, st_cleaned = messy_cleaned, st_length = 5,
       st_warnings = [lit ''Diacritical marks removed'', lit ''Character variants normalized''],
       st_errors = [lit ''Non-Arabic characters found: '' @ [0x27, 0x78, 0x27]],
       st_hasDiacritics = True, st_charCount = 5 \<rparr>)"
  by (simp add: messy_input_def messy_cleaned_def processNameInput_def removeSpaces_def trim_def
      isWhiteSpace_def isDiacritic_def ARABIC_DIACRITICS_def normalizeVariants_def
      normalizeChar_def ARABIC_CHAR_VARIANTS_def isArabicUrduChar_def VALID_ARABIC_LETTERS_def
      removeDiacritics_def nonArabicMessage_def lit_def Let_def)



section \<open>The pipeline\<close>

text \<open>\<open>calculateAbjad\<close> on a string, with the \<open>try\<close> and the \<open>catch\<close> put together.\<close>

lemma calculateAbjad_string:
  "calculateAbjad s (JSString str) =
     (if \<not> st_success (snd (processNameInput str False))
      then (Inr (CalcFailure (lit ''Invalid input: '' @
                   join (lit '', '') (st_errors (snd (processNameInput str False))))), s)
      else
        case calculateAbjadValue (fst (getDataLoader (snd (getCalculator s))))
               (JSString (fst (processNameInput str False))) of
          Inl e \<Rightarrow> (Inr (CalcFailure (message e)), snd (getDataLoader (snd (getCalculator s))))
        | Inr r \<Rightarrow>
            if \<not> cr_success r
            then (Inr (CalcFailure (join (lit '', '') (cr_errors r))),
                  snd (getDataLoader (snd (getCalculator s))))
            else (Inr (CalcSuccess
                    \<lparr> ac_totalValue = cr_totalValue r, ac_inputName = JSString str,
                      ac_cleanedName = cr_inputName r,
                      ac_characterBreakdown = renumber 0 (cr_characterBreakdown r),
                      ac_charCount = cr_charCount r \<rparr>),
                  snd (getDataLoader (snd (getCalculator s)))))"
  by (simp add: calculateAbjad_def calculateAbjad_try_def processNameInput_any_def Let_def
      split: prod.splits sum.splits)

lemma calculateAbjad_matcher: "g_matcher (snd (calculateAbjad s name)) = g_matcher s"
  by (auto simp: calculateAbjad_def calculateAbjad_try_def processNameInput_any_def Let_def
        getCalculator_def getDataLoader_def
      split: prod.splits sum.splits jsval.splits option.splits if_splits)

lemma calculateAbjad_returns: "\<exists>r. fst (calculateAbjad s name) = Inr r"
  by (auto simp: calculateAbjad_def split: prod.splits sum.splits)

lemma matchDivineNames_returns: "\<exists>r. fst (matchDivineNames s v) = Inr r"
  by (auto simp: matchDivineNames_def split: prod.splits sum.splits)

lemma handleCalculate_failure:
  assumes "trim inputValue \<noteq> []"
    and "fst (calculateAbjad s (JSString (trim inputValue))) = Inr (CalcFailure e)"
  shows "handleCalculate s inputValue =
     (ShownError (orElse e (lit ''Failed to calculate Abjad value'')),
      snd (calculateAbjad s (JSString (trim inputValue))))"
  using assms
  by (cases "calculateAbjad s (JSString (trim inputValue))")
     (simp add: handleCalculate_def Let_def)


text \<open>The name of Scenario A under the heavy weights.\<close>

lemma heavy_state_eq:
  "heavy_state = \<lparr> g_dataLoader = Some (DataLoader_new heavy_weights [] []),
                    g_calculator = None, g_matcher = None \<rparr>"
  by (simp add: heavy_state_def initializeCalculator_def initial_state_def getDataLoader_def
      DataLoader_new_def loadAll_def Let_def heavy_weights_def)

lemma heavy_rounding:
  "roundNumber 9007199254740992 = IntVal 9007199254740992"
  "roundNumber 9007199254740993 = IntVal 9007199254740992"
proof -
  show "roundNumber 9007199254740992 = IntVal 9007199254740992"
    by (simp add: roundNumber_small)
  have e: "exponentOf 9007199254740993 = 1"
    by (simp add: exponentOf.simps[of 9007199254740993] exponentOf_small)
  have "roundNat 9007199254740993 = 9007199254740992"
    by (simp add: roundNat_def e)
  then show "roundNumber 9007199254740993 = IntVal 9007199254740992"
    by (simp add: roundNumber_def)
qed

lemma heavy_calculateAbjadValue:
  "calculateAbjadValue (DataLoader_new heavy_weights [] []) (JSString scenarioA_name) =
     Inr \<lparr> cr_success = True, cr_totalValue = IntVal 9007199254740992,
           cr_inputName = JSString scenarioA_name,
           cr_characterBreakdown =
             [\<lparr> bi_character = 0x0627, bi_value = 9007199254740992, bi_position = 0 \<rparr>,
              \<lparr> bi_character = 0x0644, bi_value = 1, bi_position = 1 \<rparr>,
              \<lparr> bi_character = 0x0647, bi_value = 1, bi_position = 2 \<rparr>],
           cr_charCount = 3, cr_errors = [], cr_warnings = [] \<rparr>"
  by (simp add: calculateAbjadValue_def DataLoader_new_def heavy_weights_def
      scenarioA_name_def getLetterValue_def heavy_rounding)

lemma heavy_calculateAbjad:
  "calculateAbjad heavy_state (JSString scenarioA_name) =
     (Inr (CalcSuccess
        \<lparr> ac_totalValue = IntVal 9007199254740992, ac_inputName = JSString scenarioA_name,
          ac_cleanedName = JSString scenarioA_name,
          ac_characterBreakdown =
            [\<lparr> bi_character = 0x0627, bi_value = 9007199254740992, bi_position = 1 \<rparr>,
             \<lparr> bi_character = 0x0644, bi_value = 1, bi_position = 2 \<rparr>,
             \<lparr> bi_character = 0x0647, bi_value = 1, bi_position = 3 \<rparr>],
          ac_charCount = 3 \<rparr>),
      heavy_state\<lparr> g_calculator := Some AbjadCalculator \<rparr>)"
  by (simp add: calculateAbjad_def calculateAbjad_try_def processNameInput_any_def
      scenarioA_processNameInput heavy_state_eq getCalculator_def getDataLoader_def
      heavy_calculateAbjadValue Let_def)


text \<open>Failing runs, evaluated.\<close>

lemma scenarioE_processNameInput:
  "processNameInput scenarioE_input False = ([],
     \<lparr> st_success = False, st_original = scenarioE_input, st_cleaned = [], st_length = 0,
       st_warnings = [],
       st_errors = [lit ''Non-Arabic characters found: '' @ [0x27, 0x78, 0x27] @ lit '', ''
                      @ [0x27, 0x79, 0x27] @ lit '', '' @ [0x27, 0x7A, 0x27],
                    lit ''No valid Arabic/Urdu characters found''],
       st_hasDiacritics = False, st_charCount = 0 \<rparr>)"
  by (simp add: scenarioE_input_def processNameInput_def removeSpaces_def trim_def
      isWhiteSpace_def isDiacritic_def ARABIC_DIACRITICS_def normalizeVariants_def
      normalizeChar_def ARABIC_CHAR_VARIANTS_def isArabicUrduChar_def VALID_ARABIC_LETTERS_def
      removeDiacritics_def nonArabicMessage_def lit_def Let_def)

lemma scenarioE_trim: "trim scenarioE_input = scenarioE_input"
  by (simp add: scenarioE_input_def trim_def isWhiteSpace_def lit_def)

lemma scenarioE_nonempty: "scenarioE_input \<noteq> []"
  by (simp add: scenarioE_input_def lit_def)

lemma scenarioE_error_nonempty: "scenarioE_error \<noteq> []"
  by (simp add: scenarioE_error_def lit_def)

lemma unmapped_processNameInput:
  "processNameInput unmapped_name False = (unmapped_name,
     \<lparr> st_success = True, st_original = unmapped_name, st_cleaned = unmapped_name, st_length = 1,
       st_warnings = [], st_errors = [], st_hasDiacritics = False, st_charCount = 1 \<rparr>)"
  by (simp add: unmapped_name_def processNameInput_def removeSpaces_def trim_def
      isWhiteSpace_def isDiacritic_def ARABIC_DIACRITICS_def normalizeVariants_def
      normalizeChar_def ARABIC_CHAR_VARIANTS_def isArabicUrduChar_def VALID_ARABIC_LETTERS_def
      removeDiacritics_def Let_def)

lemma unmapped_calculateAbjadValue:
  "calculateAbjadValue (DataLoader_new scenarioA_weights [] []) (JSString unmapped_name) =
     Inr \<lparr> cr_success = False, cr_totalValue = IntVal 0, cr_inputName = JSString unmapped_name,
           cr_characterBreakdown = [], cr_charCount = 0,
           cr_errors = [lit ''No valid Arabic letters found in input''],
           cr_warnings = [lit ''Character '' @ [0x27, 0x0628, 0x27] @ lit '' at position 0''
                            @ lit '' not found in Abjad table''] \<rparr>"
  by (simp add: calculateAbjadValue_def DataLoader_new_def scenarioA_weights_def
      unmapped_name_def getLetterValue_def showNat_def digits.simps digitChar_def lit_def)

lemma scenarioA_getCalculator:
  "getDataLoader (snd (getCalculator scenarioA_state)) =
     (DataLoader_new scenarioA_weights [] [],
      scenarioA_state\<lparr> g_calculator := Some AbjadCalculator \<rparr>)"
  by (simp add: scenarioA_state_eq getCalculator_def getDataLoader_def Let_def)

lemma initial_getCalculator:
  "getDataLoader (snd (getCalculator initial_state)) =
     (DataLoader_new [] [] [],
      \<lparr> g_dataLoader = Some (DataLoader_new [] [] []), g_calculator = Some AbjadCalculator,
        g_matcher = None \<rparr>)"
  by (simp add: initial_state_def getCalculator_def getDataLoader_def Let_def)

lemma unloaded_calculateAbjadValue:
  "calculateAbjadValue (DataLoader_new [] [] []) (JSString scenarioA_name) =
     Inl (Error (lit ''Abjad values not loaded. Call loadAll() first.''))"
  by (simp add: calculateAbjadValue_def DataLoader_new_def scenarioA_name_def getLetterValue_def)



section \<open>Exceptions stay inside\<close>

lemma getCalculator_loader: "fst (getDataLoader (snd (getCalculator s))) = fst (getDataLoader s)"
  by (auto simp: getCalculator_def getDataLoader_def Let_def split: option.splits)

lemma getMatcher_loader: "fst (getDataLoader (snd (getMatcher s))) = fst (getDataLoader s)"
  by (auto simp: getMatcher_def NameMatcher_new_def getDataLoader_def Let_def split: option.splits)

lemma calculateAbjadValue_unloaded:
  assumes "abjadValues loader = []" and "str \<noteq> []"
  shows "calculateAbjadValue loader (JSString str) =
     Inl (Error (lit ''Abjad values not loaded. Call loadAll() first.''))"
  using assms by (cases str) (simp_all add: calculateAbjadValue_def getLetterValue_def)

lemma calculateAbjad_unloaded:
  assumes "abjadValues (fst (getDataLoader s)) = []"
    and "st_success (snd (processNameInput str False))"
  shows "fst (calculateAbjad s (JSString str)) =
     Inr (CalcFailure (lit ''Abjad values not loaded. Call loadAll() first.''))"
proof -
  from assms(2) have "fst (processNameInput str False) \<noteq> []"
    by (simp add: processNameInput_cleaned)
  with assms show ?thesis
    by (simp add: calculateAbjad_string getCalculator_loader calculateAbjadValue_unloaded)
qed

lemma calculateAbjad_not_string:
  assumes "\<forall>str. name \<noteq> JSString str"
  shows "\<exists>m. processNameInput_any name False = Inl (TypeError m) \<and>
             calculateAbjad s name = (Inr (CalcFailure m), s)"
  using assms
  by (cases name)
     (simp_all add: calculateAbjad_def calculateAbjad_try_def processNameInput_any_def)

lemma findMatch_unloaded:
  assumes "namesIndex loader = []"
  shows "findMatch matcher loader v =
     Inl (Error (lit ''Names index not loaded. Call loadAll() first.''))"
  using assms by (simp add: findMatch_def findDirectMatch_def getNamesByValue_def)

text \<open>
  \<open>matchDivineNames\<close> on an argument that is neither null nor undefined: when \<open>parseInt\<close>
  throws, and when it returns.
\<close>

lemma parseInt_throws_iff: "(parseInt v = Inl e) = (ToString v = Inl e)"
  by (simp add: parseInt_def split: sum.splits)

lemma matchDivineNames_throwing:
  assumes "parseInt v = Inl e"
  shows "matchDivineNames s v = (Inr (MatchFailure (lit ''Abjad value must be a number'')), s)"
proof -
  from assms have "v \<noteq> JSNull" "v \<noteq> JSUndefined"
    by (auto simp: parseInt_def)
  with assms show ?thesis
    by (simp add: matchDivineNames_def matchDivineNames_try_def)
qed

lemma matchDivineNames_value:
  assumes "v \<noteq> JSNull" and "v \<noteq> JSUndefined" and "parseInt v = Inr k"
  shows "matchDivineNames s v =
     (case findMatch (fst (getMatcher s)) (fst (getDataLoader (snd (getMatcher s)))) k of
        Inl e \<Rightarrow> (Inr (MatchFailure (message e)), snd (getDataLoader (snd (getMatcher s))))
      | Inr (DirectMatch matchResult) \<Rightarrow>
          (Inr (MatchDirect \<lparr> ad_found = dm_found matchResult,
                              ad_divineNames = dm_divineNames matchResult,
                              ad_count = dm_count matchResult \<rparr>),
           snd (getDataLoader (snd (getMatcher s))))
      | Inr (TwoNameCombination matchResult) \<Rightarrow>
          (Inr (MatchPair \<lparr> ap_found = tn_found matchResult,
                            ap_abjadValue = k,
                            ap_combinations = tn_combinations matchResult,
                            ap_count = tn_count matchResult \<rparr>),
           snd (getDataLoader (snd (getMatcher s)))))"
  using assms
  by (simp add: matchDivineNames_def matchDivineNames_try_def Let_def
      split: prod.splits sum.splits match_result.splits)

lemma matchDivineNames_unloaded:
  assumes "namesIndex (fst (getDataLoader s)) = []" and "v \<noteq> JSNull" and "v \<noteq> JSUndefined"
    and "parseInt v = Inr k"
  shows "fst (matchDivineNames s v) =
     Inr (MatchFailure (lit ''Names index not loaded. Call loadAll() first.''))"
  using assms
  by (simp add: matchDivineNames_value getMatcher_loader findMatch_unloaded)

lemma initial_calculateAbjad_try:
  "calculateAbjad_try initial_state (JSString scenarioA_name) =
     (Inl (Error (lit ''Abjad values not loaded. Call loadAll() first.'')),
      \<lparr> g_dataLoader = Some (DataLoader_new [] [] []), g_calculator = Some AbjadCalculator,
        g_matcher = None \<rparr>)"
  by (simp add: calculateAbjad_try_def processNameInput_any_def scenarioA_processNameInput
      initial_state_def getCalculator_def getDataLoader_def Let_def unloaded_calculateAbjadValue)

lemma initial_matchDivineNames_try:
  "matchDivineNames_try initial_state (JSNumber (NumInt 66)) =
     (Inl (Error (lit ''Names index not loaded. Call loadAll() first.'')),
      \<lparr> g_dataLoader = Some (DataLoader_new [] [] []), g_calculator = None,
        g_matcher = Some \<lparr> valueToIds = [] \<rparr> \<rparr>)"
  by (simp add: matchDivineNames_try_def parseInt_def initial_state_def getMatcher_def
      NameMatcher_new_def getDataLoader_def Let_def buildValueMap_def DataLoader_new_def
      findMatch_def findDirectMatch_def getNamesByValue_def)



section \<open>parseInt on decimal strings\<close>

lemma digitChar_props:
  assumes "d < 10"
  shows "digitValue (digitChar d) = d" "\<not> isWhiteSpace (digitChar d)"
    "digitChar d \<noteq> 0x2D" "digitChar d \<noteq> 0x2B" "digitChar d \<noteq> 0x78" "digitChar d \<noteq> 0x58"
  using assms by (simp_all add: digitChar_def digitValue_def isWhiteSpace_def)

lemma digitsValue_digits:
  assumes "\<forall>d\<in>set ds. d < 10"
  shows "digitsValue 10 (map digitChar ds) = digitsNat ds"
proof -
  have "foldl (\<lambda>a c. a * 10 + digitValue c) a (map digitChar ds) = foldl (\<lambda>a d. a * 10 + d) a ds" for a
    using assms by (induction ds arbitrary: a) (simp_all add: digitChar_props)
  then show ?thesis by (simp add: digitsValue_def digitsNat_def)
qed

lemma takeWhile_digits:
  assumes "\<forall>d\<in>set ds. d < 10" and "rest = [] \<or> hd rest = 0x2E"
  shows "takeWhile (\<lambda>c. digitValue c < 10) (map digitChar ds @ rest) = map digitChar ds"
  using assms(1)
proof (induction ds)
  case Nil
  from assms(2) show ?case by (cases rest) (auto simp: digitValue_def)
next
  case (Cons d ds)
  then show ?case by (simp add: digitChar_props)
qed

lemma no_hex_prefix:
  assumes "ds \<noteq> []" and "\<forall>d\<in>set ds. d < 10" and "rest = [] \<or> hd rest = 0x2E"
  shows "take 2 (map digitChar ds @ rest) \<noteq> lit ''0x''"
    and "take 2 (map digitChar ds @ rest) \<noteq> lit ''0X''"
proof -
  obtain d ds' where ds: "ds = d # ds'" using assms(1) by (cases ds) auto
  show "take 2 (map digitChar ds @ rest) \<noteq> lit ''0x''"
  proof (cases ds')
    case Nil
    with ds assms(3) show ?thesis by (cases rest) (auto simp: lit_def)
  next
    case (Cons e es)
    with ds assms(2) have "e < 10" by simp
    with ds Cons show ?thesis by (auto simp: lit_def digitChar_def)
  qed
  show "take 2 (map digitChar ds @ rest) \<noteq> lit ''0X''"
  proof (cases ds')
    case Nil
    with ds assms(3) show ?thesis by (cases rest) (auto simp: lit_def)
  next
    case (Cons e es)
    with ds assms(2) have "e < 10" by simp
    with ds Cons show ?thesis by (auto simp: lit_def digitChar_def)
  qed
qed

text \<open>
  \<open>parseInt\<close> on an optional minus sign, decimal digits, and then nothing or a decimal
  point and anything: the number of the digits, with the sign.
\<close>

lemma parseIntString_digits:
  assumes "ds \<noteq> []" and "\<forall>d\<in>set ds. d < 10" and "rest = [] \<or> hd rest = 0x2E"
  shows "parseIntString ((if neg then [0x2D] else []) @ map digitChar ds @ rest) =
     roundNumber ((if neg then - 1 else 1) * int (digitsNat ds))"
proof -
  obtain d ds' where ds: "ds = d # ds'" using assms(1) by (cases ds) auto
  with assms(2) have d: "d < 10" by simp
  define body where "body = map digitChar ds @ rest"
  have hd_body: "body \<noteq> []" "hd body = digitChar d"
    by (simp_all add: body_def ds)
  have nows: "dropWhile isWhiteSpace ((if neg then [0x2D] else []) @ body) =
      (if neg then [0x2D] else []) @ body"
    using hd_body digitChar_props(2)[OF d]
    by (cases body) (auto simp: isWhiteSpace_def)
  have Z: "takeWhile (\<lambda>c. digitValue c < 10) body = map digitChar ds"
    unfolding body_def by (rule takeWhile_digits[OF assms(2,3)])
  have nohex: "take 2 body \<noteq> lit ''0x''" "take 2 body \<noteq> lit ''0X''"
    unfolding body_def by (rule no_hex_prefix[OF assms])+
  have val: "digitsValue 10 (map digitChar ds) = digitsNat ds"
    by (rule digitsValue_digits[OF assms(2)])
  show ?thesis
  proof (cases neg)
    case True
    then show ?thesis
      using nows Z nohex val assms(1) hd_body
      by (simp add: parseIntString_def Let_def body_def[symmetric])
  next
    case False
    then show ?thesis
      using nows Z nohex val assms(1) hd_body digitChar_props(3,4)[OF d]
      by (simp add: parseIntString_def Let_def body_def[symmetric])
  qed
qed

lemma digitsNat_digits: "digitsNat (digits n) = n"
  by (simp add: digitsNat_def digits_value)

lemma parseIntString_showInt: "parseIntString (showInt i) = roundNumber i"
proof -
  have d: "\<forall>d\<in>set (digits m). d < 10" for m using digits_lt_10 by blast
  show ?thesis
  proof (cases "i < 0")
    case True
    from parseIntString_digits[where ds = "digits (nat (- i))" and rest = "[]" and neg = True]
      True d digits_nonempty
    show ?thesis by (simp add: showInt_def showNat_def digitsNat_digits)
  next
    case False
    from parseIntString_digits[where ds = "digits (nat i)" and rest = "[]" and neg = False]
      False d digits_nonempty
    show ?thesis by (simp add: showInt_def showNat_def digitsNat_digits)
  qed
qed

text \<open>An integer below \<open>2^53\<close>, as a number or as a BigInt, is read as itself.\<close>

lemma parseInt_small:
  assumes "\<bar>i\<bar> < 9007199254740992"
  shows "parseInt (JSNumber (NumInt i)) = Inr (IntVal i)"
    and "parseInt (JSBigInt i) = Inr (IntVal i)"
  using assms
  by (simp_all add: parseInt_def intString_small parseIntString_showInt roundNumber_small)

text \<open>\<open>matchDivineNames\<close> on such an integer.\<close>

lemma matchDivineNames_int:
  assumes "\<bar>i\<bar> < 9007199254740992"
  shows "matchDivineNames s (JSNumber (NumInt i)) =
     (case findMatch (fst (getMatcher s)) (fst (getDataLoader (snd (getMatcher s)))) (IntVal i) of
        Inl e \<Rightarrow> (Inr (MatchFailure (message e)), snd (getDataLoader (snd (getMatcher s))))
      | Inr (DirectMatch matchResult) \<Rightarrow>
          (Inr (MatchDirect \<lparr> ad_found = dm_found matchResult,
                              ad_divineNames = dm_divineNames matchResult,
                              ad_count = dm_count matchResult \<rparr>),
           snd (getDataLoader (snd (getMatcher s))))
      | Inr (TwoNameCombination matchResult) \<Rightarrow>
          (Inr (MatchPair \<lparr> ap_found = tn_found matchResult,
                            ap_abjadValue = IntVal i,
                            ap_combinations = tn_combinations matchResult,
                            ap_count = tn_count matchResult \<rparr>),
           snd (getDataLoader (snd (getMatcher s)))))"
  by (rule matchDivineNames_value) (simp_all add: parseInt_small[OF assms])


section \<open>A reload\<close>

lemma first_loaded_eq:
  "first_loaded = \<lparr> g_dataLoader = Some scenarioD_loader, g_calculator = None, g_matcher = None \<rparr>"
  by (simp add: first_loaded_def initializeCalculator_def initial_state_def getDataLoader_def
      DataLoader_new_def loadAll_def Let_def scenarioD_loader_def)

lemma first_matched_eq:
  "first_matched = \<lparr> g_dataLoader = Some scenarioD_loader, g_calculator = None,
                      g_matcher = Some \<lparr> valueToIds = [(40, [1]), (26, [2])] \<rparr> \<rparr>"
  by (simp add: first_matched_def matchDivineNames_int first_loaded_eq getMatcher_def
      NameMatcher_new_def getDataLoader_def Let_def scenarioD_valueToIds
      split: sum.splits match_result.splits)

lemma reloaded_eq:
  "reloaded = \<lparr> g_dataLoader = Some second_loader, g_calculator = None,
                 g_matcher = Some \<lparr> valueToIds = [(40, [1]), (26, [2])] \<rparr> \<rparr>"
  by (simp add: reloaded_def first_matched_eq initializeCalculator_def getDataLoader_def
      DataLoader_new_def loadAll_def Let_def second_loader_def scenarioD_loader_def)

lemma fresh_second_eq:
  "fresh_second = \<lparr> g_dataLoader = Some second_loader, g_calculator = None, g_matcher = None \<rparr>"
  by (simp add: fresh_second_def initializeCalculator_def initial_state_def getDataLoader_def
      DataLoader_new_def loadAll_def Let_def second_loader_def)

lemma second_namesIndex:
  "namesIndex second_loader = [(showInt 5, [entity 1 5]), (showInt 99, [entity 2 99])]"
  by (simp add: second_loader_def DataLoader_new_def buildNamesIndex_def second_catalog_def
      entity_def Let_def intString_small showInt_def showNat_def digits.simps digitChar_def)

lemma second_divineNames: "divineNames second_loader = second_catalog"
  by (simp add: second_loader_def DataLoader_new_def)

lemma second_valueToIds:
  "buildValueMap second_loader = \<lparr> valueToIds = [(5, [1]), (99, [2])] \<rparr>"
  by (simp add: buildValueMap_def second_divineNames second_catalog_def entity_def Let_def)

lemma second_no_direct:
  "getNamesByValue second_loader (IntVal 31) = Inr []"
  "getNamesByValue second_loader (IntVal 104) = Inr []"
  by (simp_all add: getNamesByValue_def second_namesIndex intString_small showInt_def showNat_def
      digits.simps digitChar_def)

lemma stale_pair_31:
  "findTwoNameCombination \<lparr> valueToIds = [(40, [1]), (26, [2])] \<rparr> second_loader (IntVal 31) 10 =
     \<lparr> tn_found = True, tn_abjadValue = IntVal 31, tn_count = 1,
       tn_combinations = [\<lparr> co_name1 = entity 1 5, co_name2 = entity 2 99, co_total = IntVal 31 \<rparr>] \<rparr>"
  by (simp add: findTwoNameCombination_def second_divineNames second_catalog_def entity_def
      Let_def getNameById_def canonicalKey_1_2 canonicalKey_2_1 sortCombinations_def
      minusNumber_small)

lemma stale_pair_104:
  "findTwoNameCombination \<lparr> valueToIds = [(40, [1]), (26, [2])] \<rparr> second_loader (IntVal 104) 10 =
     \<lparr> tn_found = False, tn_abjadValue = IntVal 104, tn_count = 0, tn_combinations = [] \<rparr>"
  by (simp add: findTwoNameCombination_def second_divineNames second_catalog_def entity_def
      Let_def getNameById_def canonicalKey_1_2 canonicalKey_2_1 sortCombinations_def
      minusNumber_small)

lemma fresh_pair_31:
  "findTwoNameCombination \<lparr> valueToIds = [(5, [1]), (99, [2])] \<rparr> second_loader (IntVal 31) 10 =
     \<lparr> tn_found = False, tn_abjadValue = IntVal 31, tn_count = 0, tn_combinations = [] \<rparr>"
  by (simp add: findTwoNameCombination_def second_divineNames second_catalog_def entity_def
      Let_def getNameById_def canonicalKey_1_2 canonicalKey_2_1 sortCombinations_def
      minusNumber_small)

lemma fresh_pair_104:
  "findTwoNameCombination \<lparr> valueToIds = [(5, [1]), (99, [2])] \<rparr> second_loader (IntVal 104) 10 =
     \<lparr> tn_found = True, tn_abjadValue = IntVal 104, tn_count = 1,
       tn_combinations = [\<lparr> co_name1 = entity 1 5, co_name2 = entity 2 99, co_total = IntVal 104 \<rparr>] \<rparr>"
  by (simp add: findTwoNameCombination_def second_divineNames second_catalog_def entity_def
      Let_def getNameById_def canonicalKey_1_2 canonicalKey_2_1 sortCombinations_def
      minusNumber_small)



section \<open>Arguments that are not integers\<close>

lemma pairOuterLoop_NaN: "pairOuterLoop matcher loader NaN names acc = acc"
  by (induction names arbitrary: acc) (simp_all add: Let_def minusNumber_NaN)

lemma findTwoNameCombination_NaN:
  "findTwoNameCombination matcher loader NaN limit =
     \<lparr> tn_found = False, tn_abjadValue = NaN, tn_count = 0, tn_combinations = [] \<rparr>"
  by (simp add: findTwoNameCombination_def pairOuterLoop_NaN sortCombinations_def Let_def)

lemma findMatch_NaN:
  assumes "namesIndex loader \<noteq> []" and "map_of (namesIndex loader) (lit ''NaN'') = None"
  shows "findMatch matcher loader NaN =
     Inr (TwoNameCombination
       \<lparr> tn_found = False, tn_abjadValue = NaN, tn_count = 0, tn_combinations = [] \<rparr>)"
  using assms
  by (simp add: findMatch_def findDirectMatch_def getNamesByValue_def Let_def
      findTwoNameCombination_NaN)

lemma matchDivineNames_NaN:
  assumes "v \<noteq> JSNull" and "v \<noteq> JSUndefined" and "parseInt v = Inr NaN"
    and "namesIndex (fst (getDataLoader s)) \<noteq> []"
    and "map_of (namesIndex (fst (getDataLoader s))) (lit ''NaN'') = None"
  shows "fst (matchDivineNames s v) =
     Inr (MatchPair \<lparr> ap_found = False, ap_abjadValue = NaN, ap_combinations = [],
                      ap_count = 0 \<rparr>)"
  using assms
  by (simp add: matchDivineNames_value getMatcher_loader findMatch_NaN)

lemma buildNamesIndex_no_NaN: "map_of (buildNamesIndex catalog) (lit ''NaN'') = None"
proof -
  have "filter (\<lambda>n. String_of (IntVal (abjad_value n)) = lit ''NaN'') catalog = []"
    by (simp add: intString_not_NaN)
  then show ?thesis by (simp add: buildNamesIndex_lookup)
qed

lemma findMatch_throws:
  "findMatch matcher loader v = Inl e \<Longrightarrow>
     e = Error (lit ''Names index not loaded. Call loadAll() first.'')"
  by (auto simp: findMatch_def findDirectMatch_def getNamesByValue_def Let_def
      split: if_splits sum.splits)

text \<open>
  The failure \<open>Abjad value must be a number\<close> is returned exactly when \<open>parseInt\<close>
  throws.
\<close>

lemma matchDivineNames_must_be_number:
  "(fst (matchDivineNames s v) = Inr (MatchFailure (lit ''Abjad value must be a number'')))
     = (\<exists>e. parseInt v = Inl e)"
proof (cases "parseInt v")
  case (Inl e)
  then show ?thesis by (simp add: matchDivineNames_throwing)
next
  case (Inr k)
  have "fst (matchDivineNames s v) \<noteq> Inr (MatchFailure (lit ''Abjad value must be a number''))"
  proof (cases "v = JSNull \<or> v = JSUndefined")
    case True
    then show ?thesis
      by (auto simp: matchDivineNames_def matchDivineNames_try_def lit_def)
  next
    case False
    then have v: "v \<noteq> JSNull" "v \<noteq> JSUndefined" by simp_all
    show ?thesis
    proof (cases "findMatch (fst (getMatcher s)) (fst (getDataLoader (snd (getMatcher s)))) k")
      case (Inl e)
      from findMatch_throws[OF Inl] Inl show ?thesis
        by (simp add: matchDivineNames_value[OF v Inr] lit_def)
    next
      case r: (Inr m)
      then show ?thesis
        by (cases m) (simp_all add: matchDivineNames_value[OF v Inr])
    qed
  qed
  with Inr show ?thesis by simp
qed

text \<open>Two arguments that \<open>parseInt\<close> reads alike are matched alike.\<close>

lemma matchDivineNames_cong:
  assumes "v \<noteq> JSNull" "v \<noteq> JSUndefined" "w \<noteq> JSNull" "w \<noteq> JSUndefined"
    and "parseInt v = Inr k" and "parseInt w = Inr k"
  shows "matchDivineNames s v = matchDivineNames s w"
  unfolding matchDivineNames_value[OF assms(1,2,5)] matchDivineNames_value[OF assms(3,4,6)]
  by (rule refl)

section \<open>Numbers with a fractional part\<close>

lemma digitsNat_append:
  "digitsNat (xs @ ys) = digitsNat xs * 10 ^ length ys + digitsNat ys"
proof (induction ys rule: rev_induct)
  case Nil
  then show ?case by (simp add: digitsNat_def)
next
  case (snoc y ys)
  have "digitsNat (xs @ ys @ [y]) = digitsNat (xs @ ys) * 10 + y"
    by (simp add: digitsNat_def)
  also have "\<dots> = (digitsNat xs * 10 ^ length ys + digitsNat ys) * 10 + y"
    by (simp add: snoc)
  also have "\<dots> = digitsNat xs * 10 ^ length (ys @ [y]) + (digitsNat ys * 10 + y)"
    by (simp add: algebra_simps)
  also have "digitsNat ys * 10 + y = digitsNat (ys @ [y])"
    by (simp add: digitsNat_def)
  finally show ?case by simp
qed

lemma digitsNat_bound: "\<forall>d\<in>set ds. d < 10 \<Longrightarrow> digitsNat ds < 10 ^ length ds"
proof (induction ds rule: rev_induct)
  case Nil
  then show ?case by (simp add: digitsNat_def)
next
  case (snoc d ds)
  then have "digitsNat ds < 10 ^ length ds" and "d < 10" by simp_all
  then have "digitsNat ds * 10 + d < 10 ^ length ds * 10" by arith
  moreover have "digitsNat (ds @ [d]) = digitsNat ds * 10 + d" by (simp add: digitsNat_def)
  ultimately show ?case by simp
qed

lemma digitsNat_take:
  assumes "\<forall>d\<in>set ds. d < 10"
  shows "digitsNat (take m ds) = digitsNat ds div 10 ^ (length ds - m)"
proof -
  have len: "length (drop m ds) = length ds - m" by simp
  have "digitsNat ds = digitsNat (take m ds @ drop m ds)" by simp
  also have "\<dots> = digitsNat (take m ds) * 10 ^ (length ds - m) + digitsNat (drop m ds)"
    by (simp only: digitsNat_append len)
  finally have eq: "digitsNat ds = digitsNat (take m ds) * 10 ^ (length ds - m) + digitsNat (drop m ds)" .
  have "\<forall>d\<in>set (drop m ds). d < 10" using assms by (auto dest: in_set_dropD)
  from digitsNat_bound[OF this] have "digitsNat (drop m ds) < 10 ^ (length ds - m)" by simp
  with eq show ?thesis by simp
qed

lemma parseInt_fraction:
  assumes wf: "wellFormedFrac ds n" and lo: "- 6 < n" and hi: "n \<le> 21"
  shows "parseIntString (numberToString (NumFrac neg ds n)) =
           roundNumber (integerPart neg ds n)"
proof -
  from wf have ne: "ds \<noteq> []" and dig: "\<forall>d\<in>set ds. d < 10" and nk: "n < int (length ds)"
    by (simp_all add: wellFormedFrac_def list_all_iff)
  show ?thesis
  proof (cases "0 < n")
    case True
    define m where "m = nat n"
    from True nk have m: "0 < m" "m < length ds" by (simp_all add: m_def)
    have str: "numberToString (NumFrac neg ds n) =
        (if neg then [0x2D] else []) @ map digitChar (take m ds) @ (0x2E # map digitChar (drop m ds))"
      using True nk hi by (simp add: decimalString_def m_def Let_def)
    have "take m ds \<noteq> []" using m ne by (cases ds) auto
    moreover have "\<forall>d\<in>set (take m ds). d < 10" using dig by (auto dest: in_set_takeD)
    ultimately have "parseIntString (numberToString (NumFrac neg ds n)) =
        roundNumber ((if neg then - 1 else 1) * int (digitsNat (take m ds)))"
      unfolding str by (rule parseIntString_digits) simp
    moreover have "nat (int (length ds) - n) = length ds - m"
      using True by (simp add: m_def)
    ultimately show ?thesis
      by (simp add: integerPart_def digitsNat_take[OF dig])
  next
    case False
    with lo have str: "numberToString (NumFrac neg ds n) =
        (if neg then [0x2D] else []) @ map digitChar [0] @
          (0x2E # replicate (nat (- n)) 0x30 @ map digitChar ds)"
      using nk by (simp add: decimalString_def Let_def digitChar_def)
    have "parseIntString (numberToString (NumFrac neg ds n)) =
        roundNumber ((if neg then - 1 else 1) * int (digitsNat [0]))"
      unfolding str by (rule parseIntString_digits) simp_all
    then have p: "parseIntString (numberToString (NumFrac neg ds n)) = roundNumber 0"
      by (simp add: digitsNat_def)
    from False have "length ds \<le> nat (int (length ds) - n)" by simp
    then have "(10::nat) ^ length ds \<le> 10 ^ nat (int (length ds) - n)"
      by (simp add: power_increasing)
    with digitsNat_bound[OF dig] have "digitsNat ds < 10 ^ nat (int (length ds) - n)"
      by (rule less_le_trans)
    then have "integerPart neg ds n = 0" by (simp add: integerPart_def)
    with p show ?thesis by simp
  qed
qed

lemma matchDivineNames_fraction:
  assumes "wellFormedFrac ds n" and "- 6 < n" and "n \<le> 21"
    and "\<bar>integerPart neg ds n\<bar> < 9007199254740992"
  shows "parseInt (JSNumber (NumFrac neg ds n)) = Inr (IntVal (integerPart neg ds n))"
    and "matchDivineNames s (JSNumber (NumFrac neg ds n)) =
         matchDivineNames s (JSNumber (NumInt (integerPart neg ds n)))"
proof -
  show p: "parseInt (JSNumber (NumFrac neg ds n)) = Inr (IntVal (integerPart neg ds n))"
    using assms(4)
    by (simp add: parseInt_def parseInt_fraction[OF assms(1,2,3)] roundNumber_small
        del: numberToString.simps)
  show "matchDivineNames s (JSNumber (NumFrac neg ds n)) =
         matchDivineNames s (JSNumber (NumInt (integerPart neg ds n)))"
    by (rule matchDivineNames_cong[OF _ _ _ _ p parseInt_small(1)[OF assms(4)]]) simp_all
qed


text \<open>The number 5e-7, evaluated.\<close>

lemma tiny_string: "numberToString (NumFrac False [5] (- 6)) = lit ''5e-7''"
  by (simp add: decimalString_def Let_def digitChar_def showNat_def digits.simps lit_def)

lemma tiny_parse: "parseIntString (numberToString (NumFrac False [5] (- 6))) = IntVal 5"
proof -
  have 1: "dropWhile isWhiteSpace (lit ''5e-7'') = lit ''5e-7''"
    by (simp add: lit_def isWhiteSpace_def)
  have 2: "takeWhile (\<lambda>c. digitValue c < 10) (lit ''5e-7'') = lit ''5''"
    by (simp add: lit_def digitValue_def)
  have 3: "digitsValue 10 (lit ''5'') = 5"
    by (simp add: lit_def digitValue_def digitsValue_def)
  have "parseIntString (lit ''5e-7'') = IntVal 5"
    by (simp add: parseIntString_def Let_def 1 2 3 roundNumber_small) (simp add: lit_def)
  then show ?thesis by (simp only: tiny_string)
qed

lemma tiny_integerPart: "integerPart False [5] (- 6) = 0"
  by (simp add: integerPart_def digitsNat_def)

lemma null_parse: "parseIntString (lit ''null'') = NaN"
  by (simp add: parseIntString_def lit_def isWhiteSpace_def digitValue_def Let_def)

lemma abc_parse: "parseIntString (lit ''abc'') = NaN"
  by (simp add: parseIntString_def lit_def isWhiteSpace_def digitValue_def Let_def)

lemma second_direct_5: "getNamesByValue second_loader (IntVal 5) = Inr [entity 1 5]"
  by (simp add: getNamesByValue_def second_namesIndex intString_small)

lemma second_direct_0: "getNamesByValue second_loader (IntVal 0) = Inr []"
  by (simp add: getNamesByValue_def second_namesIndex intString_small showInt_def showNat_def
      digits.simps digitChar_def)

lemma fresh_pair_0:
  "findTwoNameCombination \<lparr> valueToIds = [(5, [1]), (99, [2])] \<rparr> second_loader (IntVal 0) 10 =
     \<lparr> tn_found = False, tn_abjadValue = IntVal 0, tn_count = 0, tn_combinations = [] \<rparr>"
  by (simp add: findTwoNameCombination_def second_divineNames second_catalog_def entity_def
      Let_def getNameById_def sortCombinations_def minusNumber_small)

lemma fresh_second_match:
  "v \<noteq> JSNull \<Longrightarrow> v \<noteq> JSUndefined \<Longrightarrow> parseInt v = Inr k \<Longrightarrow>
   fst (matchDivineNames fresh_second v) =
     (case findMatch \<lparr> valueToIds = [(5, [1]), (99, [2])] \<rparr> second_loader k of
        Inl e \<Rightarrow> Inr (MatchFailure (message e))
      | Inr (DirectMatch matchResult) \<Rightarrow>
          Inr (MatchDirect \<lparr> ad_found = dm_found matchResult,
                              ad_divineNames = dm_divineNames matchResult,
                              ad_count = dm_count matchResult \<rparr>)
      | Inr (TwoNameCombination matchResult) \<Rightarrow>
          Inr (MatchPair \<lparr> ap_found = tn_found matchResult,
                            ap_abjadValue = k,
                            ap_combinations = tn_combinations matchResult,
                            ap_count = tn_count matchResult \<rparr>))"
  by (simp add: matchDivineNames_value fresh_second_eq getMatcher_def NameMatcher_new_def
      getDataLoader_def Let_def second_valueToIds
      split: sum.splits match_result.splits)


lemma first_loaded_loader: "fst (getDataLoader first_loaded) = scenarioD_loader"
  by (simp add: first_loaded_eq getDataLoader_def)

lemma scenarioD_no_NaN: "map_of (namesIndex scenarioD_loader) (lit ''NaN'') = None"
  by (simp add: scenarioD_loader_def DataLoader_new_def buildNamesIndex_no_NaN)

lemma scenarioD_index_nonempty: "namesIndex scenarioD_loader \<noteq> []"
  by (simp add: scenarioD_loader_index)



section \<open>The combinations of a result\<close>

text \<open>Where the combinations of a pair-type result come from.\<close>

lemma matchDivineNames_pair:
  assumes "fst (matchDivineNames s v) = Inr (MatchPair p)"
  shows "ap_combinations p =
           tn_combinations (findTwoNameCombination (fst (getMatcher s)) (fst (getDataLoader s))
              (ap_abjadValue p) 10)"
proof -
  from assms have v: "v \<noteq> JSNull" "v \<noteq> JSUndefined"
    by (auto simp: matchDivineNames_def matchDivineNames_try_def)
  from assms obtain k where k: "parseInt v = Inr k"
    by (cases "parseInt v") (simp_all add: matchDivineNames_throwing)
  let ?m = "fst (getMatcher s)"
  let ?l = "fst (getDataLoader s)"
  from assms obtain t where t: "findMatch ?m ?l k = Inr (TwoNameCombination t)"
    and p: "p = \<lparr> ap_found = tn_found t, ap_abjadValue = k,
                   ap_combinations = tn_combinations t, ap_count = tn_count t \<rparr>"
    by (auto simp: matchDivineNames_value[OF v k] getMatcher_loader
        split: sum.splits match_result.splits)
  from findMatch_pair[OF t] p show ?thesis by simp
qed

lemma first_loaded_match_66:
  "fst (matchDivineNames first_loaded (JSNumber (NumInt 66))) =
     Inr (MatchPair \<lparr> ap_found = True, ap_abjadValue = IntVal 66,
            ap_combinations =
              [\<lparr> co_name1 = entity 1 40, co_name2 = entity 2 26, co_total = IntVal 66 \<rparr>],
            ap_count = 1 \<rparr>)"
  by (simp add: matchDivineNames_int first_loaded_eq getMatcher_def NameMatcher_new_def
      getDataLoader_def Let_def findMatch_def findDirectMatch_def
      scenarioD_no_direct scenarioD_pair_search)


section \<open>Large numbers, evaluated\<close>

text \<open>
  The digits \<open>9007199254740993\<close> are read as \<open>2^53\<close>; the number \<open>5 * 10^21\<close> prints as
  \<open>5e+21\<close> and is read back as 5; \<open>2^60\<close> prints with 16 significant digits; and
  \<open>2^53 + 2\<close> less 1 is \<open>2^53\<close>.
\<close>

lemma exponentOf_step:
  "\<not> m < 9007199254740992 \<Longrightarrow> exponentOf m = Suc (exponentOf (m div 2))"
  by (subst exponentOf.simps) simp

lemma digits_step: "\<not> n < 10 \<Longrightarrow> digits n = digits (n div 10) @ [n mod 10]"
  by (subst digits.simps) simp

lemma digits_base: "n < 10 \<Longrightarrow> digits n = [n]"
  by (subst digits.simps) simp

lemma big_parse: "parseIntString (lit ''9007199254740993'') = IntVal 9007199254740992"
proof -
  have 1: "dropWhile isWhiteSpace (lit ''9007199254740993'') = lit ''9007199254740993''"
    by (simp add: lit_def isWhiteSpace_def)
  have 2: "takeWhile (\<lambda>c. digitValue c < 10) (lit ''9007199254740993'') = lit ''9007199254740993''"
    by (simp add: lit_def digitValue_def)
  have 3: "digitsValue 10 (lit ''9007199254740993'') = 9007199254740993"
    by (simp add: lit_def digitValue_def digitsValue_def)
  have 4: "lit ''9007199254740993'' \<noteq> []" "hd (lit ''9007199254740993'') = 0x39"
    "take 2 (lit ''9007199254740993'') = [0x39, 0x30]"
    by (simp_all add: lit_def)
  show ?thesis
    by (simp add: parseIntString_def Let_def 1 2 3 4 heavy_rounding)
       (simp add: lit_def)
qed

lemma e21_round: "roundNat 5000000000000000000000 = 5000000000000000000000"
  by (simp add: roundNat_def exponentOf_step exponentOf_small)

lemma e21_digits: "digits 5000000000000000000000 =
    [5, 0, 0, 0, 0, 0, 0, 0, 0, 0, 0, 0, 0, 0, 0, 0, 0, 0, 0, 0, 0, 0]"
  by (simp add: digits_step digits_base)

lemma e21_shortest: "shortestDecimal 5000000000000000000000 = 5000000000000000000000"
  by (simp add: shortestDecimal_def candidates_def e21_digits Let_def upt_rec e21_round)

lemma e21_string: "numberToString (NumInt 5000000000000000000000) = lit ''5e+21''"
  by (simp add: intString_def natString_def e21_shortest e21_digits Let_def stripZeros_def
      decimalString_def digitChar_def showNat_def digits_step digits_base lit_def)


lemma e21_parse: "parseInt (JSNumber (NumInt 5000000000000000000000)) = Inr (IntVal 5)"
proof -
  have 1: "dropWhile isWhiteSpace (lit ''5e+21'') = lit ''5e+21''"
    by (simp add: lit_def isWhiteSpace_def)
  have 2: "takeWhile (\<lambda>c. digitValue c < 10) (lit ''5e+21'') = lit ''5''"
    by (simp add: lit_def digitValue_def)
  have 3: "digitsValue 10 (lit ''5'') = 5"
    by (simp add: lit_def digitValue_def digitsValue_def)
  have "parseIntString (lit ''5e+21'') = IntVal 5"
    by (simp add: parseIntString_def Let_def 1 2 3 roundNumber_small) (simp add: lit_def)
  then show ?thesis by (simp only: parseInt_def ToString.simps e21_string sum.case)
qed

lemma p60_digits: "digits 1152921504606846976 =
    [1, 1, 5, 2, 9, 2, 1, 5, 0, 4, 6, 0, 6, 8, 4, 6, 9, 7, 6]"
  by (simp add: digits_step digits_base)

lemma p60_shortest: "shortestDecimal 1152921504606846976 = 1152921504606847000"
  by (simp add: shortestDecimal_def candidates_def p60_digits Let_def upt_rec roundNat_def
      exponentOf_step exponentOf_small)

lemma p60_string: "String_of (IntVal 1152921504606846976) = lit ''1152921504606847000''"
  by (simp add: intString_def natString_def p60_shortest Let_def showNat_def digits_step
      digits_base digitChar_def lit_def)

lemma big_difference:
  "minusNumber (IntVal 9007199254740994) (IntVal 1) = IntVal 9007199254740992"
  by (simp add: minusNumber_def heavy_rounding)


section \<open>The properties of the specification\<close>

text \<open>
  C1. The pair search does not keep to the claim after a reload. The page is initialised
  with the catalogue of the values 40 and 26, matches once, and is initialised again
  with the catalogue of the values 5 and 99, whose ids are distinct. For the target 31
  \<open>matchDivineNames\<close> then returns one combination, of the entities of the values 5 and
  99, with the total 31: its two values sum to 104. (The matcher still holds the
  \<open>valueToIds\<close> of the first catalogue: the entity of value 5 asks for the value 26,
  which that index has under the id 2, and the id 2 now is the entity of value 99.) A
  fresh page initialised with the second catalogue alone returns no combination for 31.
\<close>

theorem C1_pair_after_reload_unsound:
  "g_dataLoader reloaded = Some second_loader
   \<and> divineNames second_loader = [entity 1 5, entity 2 99]
   \<and> distinct (map id_n (divineNames second_loader))
   \<and> fst (matchDivineNames reloaded (JSNumber (NumInt 31))) =
       Inr (MatchPair \<lparr> ap_found = True, ap_abjadValue = IntVal 31,
              ap_combinations =
                [\<lparr> co_name1 = entity 1 5, co_name2 = entity 2 99, co_total = IntVal 31 \<rparr>],
              ap_count = 1 \<rparr>)
   \<and> abjad_value (entity 1 5) + abjad_value (entity 2 99) = 104
   \<and> fst (matchDivineNames fresh_second (JSNumber (NumInt 31))) =
       Inr (MatchPair \<lparr> ap_found = False, ap_abjadValue = IntVal 31, ap_combinations = [],
              ap_count = 0 \<rparr>)"
proof -
  have 1: "g_dataLoader reloaded = Some second_loader" by (simp add: reloaded_eq)
  have 2: "divineNames second_loader = [entity 1 5, entity 2 99]"
    by (simp add: second_divineNames second_catalog_def)
  have 3: "distinct (map id_n (divineNames second_loader))"
    by (simp add: 2 entity_def)
  have 4: "fst (matchDivineNames reloaded (JSNumber (NumInt 31))) =
       Inr (MatchPair \<lparr> ap_found = True, ap_abjadValue = IntVal 31,
              ap_combinations =
                [\<lparr> co_name1 = entity 1 5, co_name2 = entity 2 99, co_total = IntVal 31 \<rparr>],
              ap_count = 1 \<rparr>)"
    by (simp add: matchDivineNames_int reloaded_eq getMatcher_def getDataLoader_def Let_def
        findMatch_def findDirectMatch_def second_no_direct stale_pair_31)
  have 5: "abjad_value (entity 1 5) + abjad_value (entity 2 99) = 104"
    by (simp add: entity_def)
  have 6: "fst (matchDivineNames fresh_second (JSNumber (NumInt 31))) =
       Inr (MatchPair \<lparr> ap_found = False, ap_abjadValue = IntVal 31, ap_combinations = [],
              ap_count = 0 \<rparr>)"
    by (simp add: matchDivineNames_int fresh_second_eq getMatcher_def NameMatcher_new_def
        getDataLoader_def Let_def second_valueToIds findMatch_def findDirectMatch_def
        second_no_direct fresh_pair_31)
  from 1 2 3 4 5 6 show ?thesis by (intro conjI)
qed

text \<open>
  C2. When the index the direct lookup reads has a non-empty entry for \<open>v\<close>,
  \<open>findMatch\<close> returns the direct result with every entity of that entry, whatever the
  matcher holds; a result of the pair type comes only from a direct lookup that found
  nothing, and is the pair search's. In the index that \<open>buildNamesIndex\<close> makes of a
  catalogue, the entry under the string of a value is the list of all entities whose
  value has that string, in catalogue order (and there is no entry when there is
  none). So when the loader holds that index of its catalogue and the matcher's
  \<open>valueToIds\<close> of the catalogue has an entry for \<open>x\<close>, \<open>findMatch\<close> returns the direct
  result that lists every one of these entities. They are the entities of the value
  \<open>x\<close>, since the values are values of doubles and the string of a double identifies
  it.
\<close>

theorem C2_direct_match_priority:
  "(map_of (namesIndex loader) (String_of v) = Some names \<and> names \<noteq> [] \<longrightarrow>
      findMatch matcher loader v =
        Inr (DirectMatch \<lparr> dm_found = True, dm_abjadValue = v, dm_count = length names,
                            dm_divineNames = names \<rparr>))
   \<and> (findMatch matcher loader v = Inr (TwoNameCombination t) \<longrightarrow>
        getNamesByValue loader v = Inr [] \<and> t = findTwoNameCombination matcher loader v 10)
   \<and> map_of (buildNamesIndex catalog) (String_of (IntVal x)) =
        (if filter (\<lambda>n. String_of (IntVal (abjad_value n)) = String_of (IntVal x)) catalog = []
         then None
         else Some (filter (\<lambda>n. String_of (IntVal (abjad_value n)) = String_of (IntVal x))
                      catalog))
   \<and> (namesIndex loader = buildNamesIndex (divineNames loader) \<and>
       map_of (valueToIds (buildValueMap loader)) x = Some ids \<longrightarrow>
        findMatch matcher loader (IntVal x) =
          Inr (DirectMatch
            \<lparr> dm_found = True, dm_abjadValue = IntVal x,
              dm_count = length (filter (\<lambda>n. String_of (IntVal (abjad_value n)) =
                                            String_of (IntVal x)) (divineNames loader)),
              dm_divineNames = filter (\<lambda>n. String_of (IntVal (abjad_value n)) =
                                            String_of (IntVal x)) (divineNames loader) \<rparr>))
   \<and> (representable x \<and> (\<forall>n\<in>set catalog. representable (abjad_value n)) \<longrightarrow>
        filter (\<lambda>n. String_of (IntVal (abjad_value n)) = String_of (IntVal x)) catalog =
        filter (\<lambda>n. abjad_value n = x) catalog)"
proof (intro conjI impI)
  assume "map_of (namesIndex loader) (String_of v) = Some names \<and> names \<noteq> []"
  then show "findMatch matcher loader v =
        Inr (DirectMatch \<lparr> dm_found = True, dm_abjadValue = v, dm_count = length names,
                            dm_divineNames = names \<rparr>)"
    by (simp add: findMatch_direct)
next
  assume "findMatch matcher loader v = Inr (TwoNameCombination t)"
  from findMatch_pair[OF this]
  show "getNamesByValue loader v = Inr []"
    and "t = findTwoNameCombination matcher loader v 10"
    by simp_all
next
  show "map_of (buildNamesIndex catalog) (String_of (IntVal x)) =
        (if filter (\<lambda>n. String_of (IntVal (abjad_value n)) = String_of (IntVal x)) catalog = []
         then None
         else Some (filter (\<lambda>n. String_of (IntVal (abjad_value n)) = String_of (IntVal x))
                      catalog))"
    by (rule buildNamesIndex_lookup)
next
  let ?e = "filter (\<lambda>n. String_of (IntVal (abjad_value n)) = String_of (IntVal x))
              (divineNames loader)"
  assume a: "namesIndex loader = buildNamesIndex (divineNames loader) \<and>
       map_of (valueToIds (buildValueMap loader)) x = Some ids"
  then have "filter (\<lambda>n. abjad_value n = x) (divineNames loader) \<noteq> []"
    by (auto simp: buildValueMap_lookup split: if_splits)
  then obtain n where "n \<in> set (divineNames loader)" "abjad_value n = x"
    by (auto simp: filter_empty_conv)
  then have ne: "?e \<noteq> []" by (auto simp: filter_empty_conv)
  with a have "map_of (namesIndex loader) (String_of (IntVal x)) = Some ?e"
    by (simp add: buildNamesIndex_lookup)
  from findMatch_direct[OF this ne]
  show "findMatch matcher loader (IntVal x) =
          Inr (DirectMatch
            \<lparr> dm_found = True, dm_abjadValue = IntVal x, dm_count = length ?e,
              dm_divineNames = ?e \<rparr>)" .
next
  assume b: "representable x \<and> (\<forall>n\<in>set catalog. representable (abjad_value n))"
  show "filter (\<lambda>n. String_of (IntVal (abjad_value n)) = String_of (IntVal x)) catalog =
        filter (\<lambda>n. abjad_value n = x) catalog"
  proof (rule filter_cong)
    fix n
    assume "n \<in> set catalog"
    with b have "representable (abjad_value n)" "representable x" by simp_all
    then show "(String_of (IntVal (abjad_value n)) = String_of (IntVal x)) = (abjad_value n = x)"
      by (auto dest: String_of_inj)
  qed simp
qed

theorem C2_direct_match_priority_witness:
  "map_of (namesIndex scenarioC_loader) (String_of (IntVal 66)) = Some [entity 1 66, entity 2 66]
   \<and> findMatch (buildValueMap scenarioC_loader) scenarioC_loader (IntVal 66) =
        Inr (DirectMatch \<lparr> dm_found = True, dm_abjadValue = IntVal 66, dm_count = 2,
                            dm_divineNames = [entity 1 66, entity 2 66] \<rparr>)
   \<and> findMatch (buildValueMap scenarioD_loader) scenarioD_loader (IntVal 66) =
        Inr (TwoNameCombination
          \<lparr> tn_found = True, tn_abjadValue = IntVal 66, tn_count = 1,
            tn_combinations =
              [\<lparr> co_name1 = entity 1 40, co_name2 = entity 2 26, co_total = IntVal 66 \<rparr>] \<rparr>)
   \<and> getNamesByValue scenarioD_loader (IntVal 66) = Inr []
   \<and> namesIndex scenarioC_loader = buildNamesIndex (divineNames scenarioC_loader)
   \<and> map_of (valueToIds (buildValueMap scenarioC_loader)) 66 = Some [1, 2]
   \<and> filter (\<lambda>n. String_of (IntVal (abjad_value n)) = String_of (IntVal 66))
       (divineNames scenarioC_loader) = [entity 1 66, entity 2 66]
   \<and> representable 66
   \<and> map (\<lambda>n. representable (abjad_value n)) (divineNames scenarioC_loader) = [True, True]
   \<and> filter (\<lambda>n. abjad_value n = 66) (divineNames scenarioC_loader) =
       [entity 1 66, entity 2 66]"
proof -
  have h3: "namesIndex scenarioC_loader = buildNamesIndex (divineNames scenarioC_loader)"
    by (simp add: scenarioC_loader_def DataLoader_new_def)
  have h4: "map_of (valueToIds (buildValueMap scenarioC_loader)) 66 = Some [1, 2]"
    by (simp add: buildValueMap_def scenarioC_loader_def DataLoader_new_def scenarioC_catalog_def
        entity_def Let_def)
  have dn: "divineNames scenarioC_loader = scenarioC_catalog"
    by (simp add: scenarioC_loader_def DataLoader_new_def)
  have h5: "filter (\<lambda>n. abjad_value n = 66) (divineNames scenarioC_loader) =
       [entity 1 66, entity 2 66]"
    by (simp add: dn scenarioC_catalog_def entity_def)
  have b: "representable 66 \<and>
      (\<forall>n\<in>set (divineNames scenarioC_loader). representable (abjad_value n))"
    by (simp add: dn scenarioC_catalog_def entity_def representable_small)
  from C2_direct_match_priority [where x = 66 and catalog = "divineNames scenarioC_loader",
      THEN conjunct2, THEN conjunct2, THEN conjunct2, THEN conjunct2] b
  have "filter (\<lambda>n. String_of (IntVal (abjad_value n)) = String_of (IntVal 66))
       (divineNames scenarioC_loader) = filter (\<lambda>n. abjad_value n = 66) (divineNames scenarioC_loader)"
    by (rule mp)
  with h5 have h6: "filter (\<lambda>n. String_of (IntVal (abjad_value n)) = String_of (IntVal 66))
       (divineNames scenarioC_loader) = [entity 1 66, entity 2 66]"
    by simp
  have h1: "map_of (namesIndex scenarioC_loader) (String_of (IntVal 66)) =
      Some [entity 1 66, entity 2 66]"
    by (simp add: scenarioC_loader_index intString_small)
  have h2: "findMatch (buildValueMap scenarioD_loader) scenarioD_loader (IntVal 66) =
        Inr (TwoNameCombination
          \<lparr> tn_found = True, tn_abjadValue = IntVal 66, tn_count = 1,
            tn_combinations =
              [\<lparr> co_name1 = entity 1 40, co_name2 = entity 2 26, co_total = IntVal 66 \<rparr>] \<rparr>)"
    by (simp add: findMatch_def findDirectMatch_def scenarioD_no_direct scenarioD_pair_search Let_def)
  from C2_direct_match_priority [where loader = scenarioC_loader and v = "IntVal 66"
      and names = "[entity 1 66, entity 2 66]" and matcher = "buildValueMap scenarioC_loader",
      THEN conjunct1] h1
  have h7: "findMatch (buildValueMap scenarioC_loader) scenarioC_loader (IntVal 66) =
        Inr (DirectMatch \<lparr> dm_found = True, dm_abjadValue = IntVal 66, dm_count = 2,
                            dm_divineNames = [entity 1 66, entity 2 66] \<rparr>)"
    by simp
  from C2_direct_match_priority [where loader = scenarioD_loader and v = "IntVal 66"
      and matcher = "buildValueMap scenarioD_loader"
      and t = "\<lparr> tn_found = True, tn_abjadValue = IntVal 66, tn_count = 1,
            tn_combinations =
              [\<lparr> co_name1 = entity 1 40, co_name2 = entity 2 26, co_total = IntVal 66 \<rparr>] \<rparr>",
      THEN conjunct2, THEN conjunct1] h2
  have h8: "getNamesByValue scenarioD_loader (IntVal 66) = Inr []"
    by simp
  from C2_direct_match_priority [where loader = scenarioC_loader and x = 66
      and ids = "[1, 2]" and matcher = "buildValueMap scenarioC_loader",
      THEN conjunct2, THEN conjunct2, THEN conjunct2, THEN conjunct1] h3 h4
  have "findMatch (buildValueMap scenarioC_loader) scenarioC_loader (IntVal 66) =
          Inr (DirectMatch
            \<lparr> dm_found = True, dm_abjadValue = IntVal 66,
              dm_count = length (filter (\<lambda>n. String_of (IntVal (abjad_value n)) =
                                            String_of (IntVal 66)) (divineNames scenarioC_loader)),
              dm_divineNames = filter (\<lambda>n. String_of (IntVal (abjad_value n)) =
                                            String_of (IntVal 66)) (divineNames scenarioC_loader) \<rparr>)"
    by simp
  then have h7': "findMatch (buildValueMap scenarioC_loader) scenarioC_loader (IntVal 66) =
        Inr (DirectMatch \<lparr> dm_found = True, dm_abjadValue = IntVal 66, dm_count = 2,
                            dm_divineNames = [entity 1 66, entity 2 66] \<rparr>)"
    by (simp only: h6) simp
  have h9: "representable 66" by (simp add: representable_small)
  have h10: "map (\<lambda>n. representable (abjad_value n)) (divineNames scenarioC_loader) = [True, True]"
    by (simp add: dn scenarioC_catalog_def entity_def representable_small)
  from h1 h2 h3 h4 h5 h6 h7 h7' h8 h9 h10 show ?thesis by (intro conjI)
qed


text \<open>
  C3. Among the combinations of one pair search no unordered pair of entity ids occurs
  twice: the sets \<open>{name1.id, name2.id}\<close> of the combinations returned are pairwise
  different, so a pair is never returned in both orientations. This holds for every
  catalogue, matcher, target and limit, and so for every pair-type result of
  \<open>matchDivineNames\<close>, in every state.
\<close>

theorem C3_pair_search_unique:
  "distinct (map (\<lambda>c. {id_n (co_name1 c), id_n (co_name2 c)})
     (tn_combinations (findTwoNameCombination matcher loader v limit)))
   \<and> (fst (matchDivineNames s x) = Inr (MatchPair p) \<longrightarrow>
        distinct (map (\<lambda>c. {id_n (co_name1 c), id_n (co_name2 c)}) (ap_combinations p)))"
proof -
  have u: "distinct (map (\<lambda>c. {id_n (co_name1 c), id_n (co_name2 c)})
     (tn_combinations (findTwoNameCombination m l w k)))" for m l w k
  proof -
    have "distinct (map combinationKey
            (snd (pairOuterLoop m l w (divineNames l) ({}, []))))"
      using pairOuterLoop_keys[of "({}, [])" m l w "divineNames l"] by simp
    then have "distinct (map combinationKey
            (sortCombinations (snd (pairOuterLoop m l w (divineNames l) ({}, [])))))"
      by (simp add: distinct_map_sortCombinations)
    then have "distinct (map combinationKey (tn_combinations (findTwoNameCombination m l w k)))"
      by (simp add: findTwoNameCombination_combinations take_map[symmetric] distinct_take)
    then show ?thesis by (rule distinct_keys_distinct_pairs)
  qed
  have "distinct (map (\<lambda>c. {id_n (co_name1 c), id_n (co_name2 c)}) (ap_combinations p))"
    if "fst (matchDivineNames s x) = Inr (MatchPair p)"
    using matchDivineNames_pair[OF that] u by simp
  with u show ?thesis by blast
qed

theorem C3_pair_search_unique_witness:
  "tn_combinations (findTwoNameCombination (buildValueMap scenarioD_loader) scenarioD_loader
         (IntVal 66) 10) =
       [\<lparr> co_name1 = entity 1 40, co_name2 = entity 2 26, co_total = IntVal 66 \<rparr>]
   \<and> fst (matchDivineNames first_loaded (JSNumber (NumInt 66))) =
       Inr (MatchPair \<lparr> ap_found = True, ap_abjadValue = IntVal 66,
              ap_combinations =
                [\<lparr> co_name1 = entity 1 40, co_name2 = entity 2 26, co_total = IntVal 66 \<rparr>],
              ap_count = 1 \<rparr>)
   \<and> distinct (map (\<lambda>c. {id_n (co_name1 c), id_n (co_name2 c)})
        [\<lparr> co_name1 = entity 1 40, co_name2 = entity 2 26, co_total = IntVal 66 \<rparr>])"
  using C3_pair_search_unique [where matcher = "buildValueMap scenarioD_loader"
      and loader = scenarioD_loader and v = "IntVal 66" and limit = 10 and s = first_loaded
      and x = "JSNumber (NumInt 66)"
      and p = "\<lparr> ap_found = True, ap_abjadValue = IntVal 66,
              ap_combinations =
                [\<lparr> co_name1 = entity 1 40, co_name2 = entity 2 26, co_total = IntVal 66 \<rparr>],
              ap_count = 1 \<rparr>"]
    first_loaded_match_66
  by (simp add: scenarioD_pair_search)

text \<open>
  C4, as stated, fails where the weights are large: the total is a sum of doubles. With
  the weight \<open>2^53\<close> for alef and 1 for lam and for heh, the name alef, lam, heh has the
  breakdown values \<open>9007199254740992\<close>, 1 and 1, whose sum is \<open>9007199254740994\<close>, and the
  total \<open>9007199254740992\<close>: each addition of 1 is rounded away.
\<close>

theorem C4_counterexample:
  "calculateAbjad heavy_state (JSString scenarioA_name) =
     (Inr (CalcSuccess
        \<lparr> ac_totalValue = IntVal 9007199254740992, ac_inputName = JSString scenarioA_name,
          ac_cleanedName = JSString scenarioA_name,
          ac_characterBreakdown =
            [\<lparr> bi_character = 0x0627, bi_value = 9007199254740992, bi_position = 1 \<rparr>,
             \<lparr> bi_character = 0x0644, bi_value = 1, bi_position = 2 \<rparr>,
             \<lparr> bi_character = 0x0647, bi_value = 1, bi_position = 3 \<rparr>],
          ac_charCount = 3 \<rparr>),
      heavy_state\<lparr> g_calculator := Some AbjadCalculator \<rparr>)
   \<and> sum_list [9007199254740992, 1, 1] = (9007199254740994 :: int)
   \<and> IntVal 9007199254740992 \<noteq> IntVal (sum_list [9007199254740992, 1, 1])"
proof -
  have 1: "calculateAbjad heavy_state (JSString scenarioA_name) =
     (Inr (CalcSuccess
        \<lparr> ac_totalValue = IntVal 9007199254740992, ac_inputName = JSString scenarioA_name,
          ac_cleanedName = JSString scenarioA_name,
          ac_characterBreakdown =
            [\<lparr> bi_character = 0x0627, bi_value = 9007199254740992, bi_position = 1 \<rparr>,
             \<lparr> bi_character = 0x0644, bi_value = 1, bi_position = 2 \<rparr>,
             \<lparr> bi_character = 0x0647, bi_value = 1, bi_position = 3 \<rparr>],
          ac_charCount = 3 \<rparr>),
      heavy_state\<lparr> g_calculator := Some AbjadCalculator \<rparr>)"
    by (rule heavy_calculateAbjad)
  have 2: "sum_list [9007199254740992, 1, 1] = (9007199254740994 :: int)" by simp
  have 3: "IntVal 9007199254740992 \<noteq> IntVal (sum_list [9007199254740992, 1, 1])" by simp
  from 1 2 3 show ?thesis by (intro conjI)
qed

text \<open>
  C4, amended. When \<open>calculateAbjadValue\<close> succeeds, \<open>charCount\<close> is the length of
  \<open>characterBreakdown\<close>, and \<open>totalValue\<close> is the sum of the \<open>value\<close> fields of
  \<open>characterBreakdown\<close> as doubles add them, from the left; it is their sum as integers
  when the magnitudes of the values (which are integers) sum to at most \<open>2^53\<close>. The
  same holds for the object the public \<open>calculateAbjad\<close> returns.
\<close>

theorem C4_sum_invariant:
  "(calculateAbjadValue loader arabicName = Inr r \<and> cr_success r \<longrightarrow>
      cr_totalValue r = sumNumbers (map bi_value (cr_characterBreakdown r)) \<and>
      cr_charCount r = length (cr_characterBreakdown r) \<and>
      (sum_list (map abs (map bi_value (cr_characterBreakdown r))) \<le> 9007199254740992 \<longrightarrow>
         cr_totalValue r = IntVal (sum_list (map bi_value (cr_characterBreakdown r)))))
   \<and> (calculateAbjad s name = (Inr (CalcSuccess q), s') \<longrightarrow>
      ac_totalValue q = sumNumbers (map bi_value (ac_characterBreakdown q)) \<and>
      ac_charCount q = length (ac_characterBreakdown q) \<and>
      (sum_list (map abs (map bi_value (ac_characterBreakdown q))) \<le> 9007199254740992 \<longrightarrow>
         ac_totalValue q = IntVal (sum_list (map bi_value (ac_characterBreakdown q)))))"
proof (intro conjI impI)
  assume "calculateAbjadValue loader arabicName = Inr r \<and> cr_success r"
  then have a: "calculateAbjadValue loader arabicName = Inr r" "cr_success r"
    by simp_all
  show t: "cr_totalValue r = sumNumbers (map bi_value (cr_characterBreakdown r))"
    by (rule calculateAbjadValue_sums(1)[OF a])
  show "cr_charCount r = length (cr_characterBreakdown r)"
    by (rule calculateAbjadValue_sums(2)[OF a])
  assume "sum_list (map abs (map bi_value (cr_characterBreakdown r))) \<le> 9007199254740992"
  from sumNumbers_exact[OF this] t
  show "cr_totalValue r = IntVal (sum_list (map bi_value (cr_characterBreakdown r)))"
    by simp
next
  assume "calculateAbjad s name = (Inr (CalcSuccess q), s')"
  from calculateAbjad_success[OF this] obtain loader' cleanedName r' where
    r': "calculateAbjadValue loader' (JSString cleanedName) = Inr r'" "cr_success r'"
    and q: "q = \<lparr> ac_totalValue = cr_totalValue r', ac_inputName = name,
           ac_cleanedName = cr_inputName r',
           ac_characterBreakdown = renumber 0 (cr_characterBreakdown r'),
           ac_charCount = cr_charCount r' \<rparr>"
    by blast
  from calculateAbjadValue_sums[OF r'] q
  show t: "ac_totalValue q = sumNumbers (map bi_value (ac_characterBreakdown q))"
    and "ac_charCount q = length (ac_characterBreakdown q)"
    by (simp_all add: renumber_values renumber_length)
  assume "sum_list (map abs (map bi_value (ac_characterBreakdown q))) \<le> 9007199254740992"
  from sumNumbers_exact[OF this] t
  show "ac_totalValue q = IntVal (sum_list (map bi_value (ac_characterBreakdown q)))"
    by simp
qed

theorem C4_sum_invariant_witness:
  "(calculateAbjadValue (DataLoader_new scenarioA_weights [] []) (JSString scenarioA_name) =
      Inr \<lparr> cr_success = True, cr_totalValue = IntVal 36, cr_inputName = JSString scenarioA_name,
           cr_characterBreakdown =
             [\<lparr> bi_character = 0x0627, bi_value = 1, bi_position = 0 \<rparr>,
              \<lparr> bi_character = 0x0644, bi_value = 30, bi_position = 1 \<rparr>,
              \<lparr> bi_character = 0x0647, bi_value = 5, bi_position = 2 \<rparr>],
           cr_charCount = 3, cr_errors = [], cr_warnings = [] \<rparr>)
   \<and> (calculateAbjad scenarioA_state (JSString scenarioA_name) =
     (Inr (CalcSuccess
        \<lparr> ac_totalValue = IntVal 36, ac_inputName = JSString scenarioA_name,
          ac_cleanedName = JSString scenarioA_name,
          ac_characterBreakdown =
            [\<lparr> bi_character = 0x0627, bi_value = 1, bi_position = 1 \<rparr>,
             \<lparr> bi_character = 0x0644, bi_value = 30, bi_position = 2 \<rparr>,
             \<lparr> bi_character = 0x0647, bi_value = 5, bi_position = 3 \<rparr>],
          ac_charCount = 3 \<rparr>),
      scenarioA_state\<lparr> g_calculator := Some AbjadCalculator \<rparr>))
   \<and> sum_list (map abs [1, 30, 5]) \<le> (9007199254740992 :: int)
   \<and> IntVal 36 = sumNumbers [1, 30, 5]
   \<and> IntVal 36 = IntVal (sum_list [1, 30, 5]) \<and> (3::nat) = length [1::int, 30, 5]"
proof -
  note t = C4_sum_invariant [of "DataLoader_new scenarioA_weights [] []" "JSString scenarioA_name"
      "\<lparr> cr_success = True, cr_totalValue = IntVal 36, cr_inputName = JSString scenarioA_name,
           cr_characterBreakdown =
             [\<lparr> bi_character = 0x0627, bi_value = 1, bi_position = 0 \<rparr>,
              \<lparr> bi_character = 0x0644, bi_value = 30, bi_position = 1 \<rparr>,
              \<lparr> bi_character = 0x0647, bi_value = 5, bi_position = 2 \<rparr>],
           cr_charCount = 3, cr_errors = [], cr_warnings = [] \<rparr>"
      scenarioA_state "JSString scenarioA_name"
      "\<lparr> ac_totalValue = IntVal 36, ac_inputName = JSString scenarioA_name,
          ac_cleanedName = JSString scenarioA_name,
          ac_characterBreakdown =
            [\<lparr> bi_character = 0x0627, bi_value = 1, bi_position = 1 \<rparr>,
             \<lparr> bi_character = 0x0644, bi_value = 30, bi_position = 2 \<rparr>,
             \<lparr> bi_character = 0x0647, bi_value = 5, bi_position = 3 \<rparr>],
          ac_charCount = 3 \<rparr>"
      "scenarioA_state\<lparr> g_calculator := Some AbjadCalculator \<rparr>"]
  have b: "sum_list (map abs [1, 30, 5]) \<le> (9007199254740992 :: int)" by simp
  from t [THEN conjunct1] scenarioA_calculateAbjadValue b
  have 1: "IntVal 36 = sumNumbers [1, 30, 5] \<and> (3::nat) = length [1::int, 30, 5]
      \<and> IntVal 36 = IntVal (sum_list [1, 30, 5])"
    by simp
  from t [THEN conjunct2] scenarioA_calculateAbjad b
  have 2: "IntVal 36 = sumNumbers [1, 30, 5] \<and> IntVal 36 = IntVal (sum_list [1, 30, 5])
      \<and> (3::nat) = length [1::int, 30, 5]"
    by simp
  from 1 2 scenarioA_calculateAbjadValue scenarioA_calculateAbjad b show ?thesis by simp
qed


text \<open>
  C5. After the second \<open>initializeCalculator\<close> the matcher still holds the \<open>valueToIds\<close> it
  built from the first catalogue. The pair search then reads the new entities against
  the old index: for the target 31 it returns the entities of values 5 and 99 as a pair
  (found by the old key 26 and the old id 2), where a fresh page with the second
  catalogue finds nothing; for the target 104 it finds nothing, where a fresh page
  returns that pair.
\<close>

theorem C5_reload_keeps_old_value_index:
  "g_matcher reloaded = Some \<lparr> valueToIds = [(40, [1]), (26, [2])] \<rparr>
   \<and> buildValueMap second_loader = \<lparr> valueToIds = [(5, [1]), (99, [2])] \<rparr>
   \<and> g_dataLoader reloaded = Some second_loader
   \<and> fst (matchDivineNames reloaded (JSNumber (NumInt 31))) =
       Inr (MatchPair \<lparr> ap_found = True, ap_abjadValue = IntVal 31,
              ap_combinations =
                [\<lparr> co_name1 = entity 1 5, co_name2 = entity 2 99, co_total = IntVal 31 \<rparr>],
              ap_count = 1 \<rparr>)
   \<and> fst (matchDivineNames fresh_second (JSNumber (NumInt 31))) =
       Inr (MatchPair \<lparr> ap_found = False, ap_abjadValue = IntVal 31, ap_combinations = [],
              ap_count = 0 \<rparr>)
   \<and> fst (matchDivineNames reloaded (JSNumber (NumInt 104))) =
       Inr (MatchPair \<lparr> ap_found = False, ap_abjadValue = IntVal 104, ap_combinations = [],
              ap_count = 0 \<rparr>)
   \<and> fst (matchDivineNames fresh_second (JSNumber (NumInt 104))) =
       Inr (MatchPair \<lparr> ap_found = True, ap_abjadValue = IntVal 104,
              ap_combinations =
                [\<lparr> co_name1 = entity 1 5, co_name2 = entity 2 99, co_total = IntVal 104 \<rparr>],
              ap_count = 1 \<rparr>)"
  by (simp add: matchDivineNames_int reloaded_eq fresh_second_eq getMatcher_def
      NameMatcher_new_def getDataLoader_def Let_def second_valueToIds
      findMatch_def findDirectMatch_def second_no_direct
      stale_pair_31 stale_pair_104 fresh_pair_31 fresh_pair_104)


text \<open>
  C6. Normalising the cleaned text again gives the same cleaned text, and the same
  outcome: for every input \<open>x\<close> and either setting of \<open>removeSpacesBetween\<close>, the cleaned
  text of \<open>processNameInput\<close> run on the cleaned text of \<open>processNameInput x\<close> is that
  cleaned text, in the returned string and in \<open>status.cleaned\<close> alike, and the second run
  succeeds exactly when the first did. (When the first run fails its cleaned text is
  empty, and so is that of the second.)
\<close>

theorem C6_normalizer_idempotent:
  "st_cleaned (snd (processNameInput (st_cleaned (snd (processNameInput x b))) b)) =
     st_cleaned (snd (processNameInput x b))
   \<and> fst (processNameInput (fst (processNameInput x b)) b) = fst (processNameInput x b)
   \<and> st_success (snd (processNameInput (st_cleaned (snd (processNameInput x b))) b)) =
       st_success (snd (processNameInput x b))"
  by (simp add: processNameInput_cleaned cleanedText_idem)

theorem C6_normalizer_idempotent_witness:
  "fst (processNameInput messy_input False) = messy_cleaned
   \<and> fst (processNameInput messy_cleaned False) = messy_cleaned
   \<and> st_success (snd (processNameInput messy_cleaned False))"
  using C6_normalizer_idempotent [of messy_input False]
  by (simp add: messy_processNameInput)


text \<open>
  C7. In the object \<open>calculateAbjad\<close> returns, the i-th entry of \<open>characterBreakdown\<close> has
  \<open>position\<close> i, counted from 1. The entries are the characters of the cleaned name that
  have a weight, in the order of the cleaned name, each with its weight; a character
  without a weight (a space, an unmapped letter) has no entry and takes no position.
  (Inside \<open>calculateAbjadValue\<close> the field holds the 0-based index in the cleaned name;
  \<open>calculateAbjad\<close> renumbers.)
\<close>

theorem C7_breakdown_positions:
  assumes "calculateAbjad s name = (Inr (CalcSuccess q), s')"
  shows "(\<forall>i < length (ac_characterBreakdown q). bi_position (ac_characterBreakdown q ! i) = i + 1)
    \<and> (\<exists>cleanedName loader.
          ac_cleanedName q = JSString cleanedName \<and> g_dataLoader s' = Some loader \<and>
          map bi_character (ac_characterBreakdown q) =
            filter (\<lambda>c. getLetterValue loader c \<noteq> Inr None) cleanedName \<and>
          map bi_value (ac_characterBreakdown q) =
            map (\<lambda>c. case getLetterValue loader c of Inr (Some v) \<Rightarrow> v | _ \<Rightarrow> 0)
              (filter (\<lambda>c. getLetterValue loader c \<noteq> Inr None) cleanedName))"
proof -
  from calculateAbjad_success[OF assms] obtain str cleanedName status loader r where
    r: "calculateAbjadValue loader (JSString cleanedName) = Inr r" "cr_success r"
    and ld: "g_dataLoader s' = Some loader"
    and q: "q = \<lparr> ac_totalValue = cr_totalValue r, ac_inputName = name,
           ac_cleanedName = cr_inputName r,
           ac_characterBreakdown = renumber 0 (cr_characterBreakdown r),
           ac_charCount = cr_charCount r \<rparr>"
    by blast
  from calculateAbjadValue_success[OF r] obtain r1 t n where
    loop: "calcLoop loader cleanedName 0
            (\<lparr> cr_success = False, cr_totalValue = IntVal 0, cr_inputName = JSString cleanedName,
               cr_characterBreakdown = [], cr_charCount = 0, cr_errors = [],
               cr_warnings = [] \<rparr>, IntVal 0, 0) = Inr (r1, t, n)"
    and r1: "r = r1\<lparr> cr_success := True, cr_totalValue := t, cr_charCount := n \<rparr>"
    by auto
  from calcLoop_inv[OF loop] r1 have name: "cr_inputName r = JSString cleanedName"
    by (simp add: sumNumbers_def)
  from calcLoop_letters[OF loop] r1 have
    letters: "map bi_character (cr_characterBreakdown r) =
        filter (\<lambda>c. getLetterValue loader c \<noteq> Inr None) cleanedName"
    and vals: "list_all (\<lambda>i. getLetterValue loader (bi_character i) = Inr (Some (bi_value i)))
        (cr_characterBreakdown r)"
    by simp_all
  from vals have "map bi_value (cr_characterBreakdown r) =
     map (\<lambda>c. case getLetterValue loader c of Inr (Some v) \<Rightarrow> v | _ \<Rightarrow> 0)
       (map bi_character (cr_characterBreakdown r))"
    by (induction "cr_characterBreakdown r") (auto simp: list_all_iff)
  with letters have weights: "map bi_value (cr_characterBreakdown r) =
     map (\<lambda>c. case getLetterValue loader c of Inr (Some v) \<Rightarrow> v | _ \<Rightarrow> 0)
       (filter (\<lambda>c. getLetterValue loader c \<noteq> Inr None) cleanedName)"
    by simp
  have pos: "\<forall>i < length (ac_characterBreakdown q). bi_position (ac_characterBreakdown q ! i) = i + 1"
    using q by (simp add: renumber_length renumber_positions)
  from q name ld letters weights pos show ?thesis
    by (simp add: renumber_characters renumber_values)
qed

theorem C7_breakdown_positions_witness:
  "calculateAbjad scenarioA_state (JSString scenarioA_name) =
     (Inr (CalcSuccess
        \<lparr> ac_totalValue = IntVal 36, ac_inputName = JSString scenarioA_name,
          ac_cleanedName = JSString scenarioA_name,
          ac_characterBreakdown =
            [\<lparr> bi_character = 0x0627, bi_value = 1, bi_position = 1 \<rparr>,
             \<lparr> bi_character = 0x0644, bi_value = 30, bi_position = 2 \<rparr>,
             \<lparr> bi_character = 0x0647, bi_value = 5, bi_position = 3 \<rparr>],
          ac_charCount = 3 \<rparr>),
      scenarioA_state\<lparr> g_calculator := Some AbjadCalculator \<rparr>)
   \<and> map bi_position
         [\<lparr> bi_character = 0x0627, bi_value = 1, bi_position = 1 \<rparr>,
          \<lparr> bi_character = 0x0644, bi_value = 30, bi_position = 2 \<rparr>,
          \<lparr> bi_character = 0x0647, bi_value = 5, bi_position = 3 \<rparr>] = [0 + 1, 1 + 1, 2 + 1]"
  using scenarioA_calculateAbjad C7_breakdown_positions [OF scenarioA_calculateAbjad]
  by simp


text \<open>
  C8. The pipeline stops at the first stage that fails. When \<open>processNameInput\<close> fails,
  \<open>calculateAbjad\<close> returns the failure made of all the normalizer's errors, in order, each
  as it is (joined by \<open>", "\<close> after \<open>"Invalid input: "\<close>), and leaves the state as it
  was: no calculator or loader is fetched, no letter looked up. When the calculator
  fails, by returning its errors or by throwing, the failure carries the calculator's
  errors (joined) or the exception's message. \<open>calculateAbjad\<close> never touches the matcher,
  and the page's handler, given a failure of \<open>calculateAbjad\<close>, shows that error and ends
  in the state \<open>calculateAbjad\<close> left: \<open>matchDivineNames\<close> is not called.
\<close>

theorem C8_strict_pipeline_abort:
  "(\<not> st_success (snd (processNameInput raw False)) \<longrightarrow>
      calculateAbjad s (JSString raw) =
        (Inr (CalcFailure (lit ''Invalid input: '' @
               join (lit '', '') (st_errors (snd (processNameInput raw False))))), s))
   \<and> (st_success (snd (processNameInput raw False)) \<and>
       calculateAbjadValue (fst (getDataLoader (snd (getCalculator s))))
         (JSString (fst (processNameInput raw False))) = Inr r \<and> \<not> cr_success r \<longrightarrow>
      fst (calculateAbjad s (JSString raw)) = Inr (CalcFailure (join (lit '', '') (cr_errors r))))
   \<and> (st_success (snd (processNameInput raw False)) \<and>
       calculateAbjadValue (fst (getDataLoader (snd (getCalculator s))))
         (JSString (fst (processNameInput raw False))) = Inl e \<longrightarrow>
      fst (calculateAbjad s (JSString raw)) = Inr (CalcFailure (message e)))
   \<and> g_matcher (snd (calculateAbjad s name)) = g_matcher s
   \<and> (trim inputValue \<noteq> [] \<and>
       fst (calculateAbjad s (JSString (trim inputValue))) = Inr (CalcFailure err) \<longrightarrow>
      handleCalculate s inputValue =
        (ShownError (orElse err (lit ''Failed to calculate Abjad value'')),
         snd (calculateAbjad s (JSString (trim inputValue)))))"
  by (simp add: calculateAbjad_string calculateAbjad_matcher handleCalculate_failure)

theorem C8_strict_pipeline_abort_witness:
  "calculateAbjad scenarioA_state (JSString scenarioE_input) =
     (Inr (CalcFailure scenarioE_error), scenarioA_state)
   \<and> fst (calculateAbjad scenarioA_state (JSString unmapped_name)) =
       Inr (CalcFailure (lit ''No valid Arabic letters found in input''))
   \<and> fst (calculateAbjad initial_state (JSString scenarioA_name)) =
       Inr (CalcFailure (lit ''Abjad values not loaded. Call loadAll() first.''))
   \<and> handleCalculate scenarioA_state scenarioE_input =
       (ShownError scenarioE_error, scenarioA_state)"
proof -
  have a: "calculateAbjad scenarioA_state (JSString scenarioE_input) =
     (Inr (CalcFailure scenarioE_error), scenarioA_state)"
    using C8_strict_pipeline_abort [where raw = scenarioE_input and s = scenarioA_state]
    by (simp add: scenarioE_processNameInput scenarioE_error_def lit_def)
  have b: "fst (calculateAbjad scenarioA_state (JSString unmapped_name)) =
       Inr (CalcFailure (lit ''No valid Arabic letters found in input''))"
    using C8_strict_pipeline_abort [where raw = unmapped_name and s = scenarioA_state
      and r = "\<lparr> cr_success = False, cr_totalValue = IntVal 0, cr_inputName = JSString unmapped_name,
           cr_characterBreakdown = [], cr_charCount = 0,
           cr_errors = [lit ''No valid Arabic letters found in input''],
           cr_warnings = [lit ''Character '' @ [0x27, 0x0628, 0x27] @ lit '' at position 0''
                            @ lit '' not found in Abjad table''] \<rparr>"]
    by (simp add: unmapped_processNameInput scenarioA_getCalculator unmapped_calculateAbjadValue)
  have c: "fst (calculateAbjad initial_state (JSString scenarioA_name)) =
       Inr (CalcFailure (lit ''Abjad values not loaded. Call loadAll() first.''))"
    using C8_strict_pipeline_abort [where raw = scenarioA_name and s = initial_state
      and e = "Error (lit ''Abjad values not loaded. Call loadAll() first.'')"]
    by (simp add: scenarioA_processNameInput initial_getCalculator unloaded_calculateAbjadValue)
  have d: "handleCalculate scenarioA_state scenarioE_input =
       (ShownError scenarioE_error, scenarioA_state)"
    using C8_strict_pipeline_abort [where inputValue = scenarioE_input and s = scenarioA_state
      and err = scenarioE_error] a
    by (simp add: scenarioE_trim scenarioE_nonempty scenarioE_error_nonempty orElse_def)
  from a b c d show ?thesis by simp
qed


text \<open>
  C9. Neither public function throws: \<open>calculateAbjad\<close> and \<open>matchDivineNames\<close> return an
  object for every state and every argument, and an exception raised in their \<open>try\<close>
  block comes back as the failure with the exception's message. In particular, with an
  empty weight table (before \<open>initializeCalculator\<close>) \<open>calculateAbjad\<close> on a name that
  passes the normalizer returns the failure \<open>Abjad values not loaded. Call loadAll()
  first.\<close>; on an argument that is not a string it returns the failure with the type
  error's message, the state unchanged. \<open>matchDivineNames\<close> on an argument that
  \<open>parseInt\<close> throws on (a symbol, an object whose conversion to a string throws)
  returns the failure \<open>Abjad value must be a number\<close>, the state unchanged; with an
  empty index and any other argument but \<open>null\<close> and \<open>undefined\<close> it returns the failure
  \<open>Names index not loaded. Call loadAll() first.\<close>
\<close>

theorem C9_no_entry_point_throws:
  "(\<exists>r. fst (calculateAbjad s name) = Inr r)
   \<and> (\<exists>r. fst (matchDivineNames s v) = Inr r)
   \<and> (calculateAbjad_try s name = (Inl e, s') \<longrightarrow>
        calculateAbjad s name = (Inr (CalcFailure (message e)), s'))
   \<and> (matchDivineNames_try s v = (Inl e, s') \<longrightarrow>
        matchDivineNames s v = (Inr (MatchFailure (message e)), s'))
   \<and> (abjadValues (fst (getDataLoader s)) = [] \<and> st_success (snd (processNameInput str False)) \<longrightarrow>
        fst (calculateAbjad s (JSString str)) =
          Inr (CalcFailure (lit ''Abjad values not loaded. Call loadAll() first.'')))
   \<and> ((\<forall>str. name \<noteq> JSString str) \<longrightarrow>
        (\<exists>m. processNameInput_any name False = Inl (TypeError m) \<and>
              calculateAbjad s name = (Inr (CalcFailure m), s)))
   \<and> (parseInt v = Inl e \<longrightarrow>
        matchDivineNames s v = (Inr (MatchFailure (lit ''Abjad value must be a number'')), s))
   \<and> (namesIndex (fst (getDataLoader s)) = [] \<and> v \<noteq> JSNull \<and> v \<noteq> JSUndefined \<and>
       parseInt v = Inr k \<longrightarrow>
        fst (matchDivineNames s v) =
          Inr (MatchFailure (lit ''Names index not loaded. Call loadAll() first.'')))"
proof (intro conjI impI)
  show "\<exists>r. fst (calculateAbjad s name) = Inr r" by (rule calculateAbjad_returns)
  show "\<exists>r. fst (matchDivineNames s v) = Inr r" by (rule matchDivineNames_returns)
next
  assume "calculateAbjad_try s name = (Inl e, s')"
  then show "calculateAbjad s name = (Inr (CalcFailure (message e)), s')"
    by (simp add: calculateAbjad_def)
next
  assume "matchDivineNames_try s v = (Inl e, s')"
  then show "matchDivineNames s v = (Inr (MatchFailure (message e)), s')"
    by (simp add: matchDivineNames_def)
next
  assume "abjadValues (fst (getDataLoader s)) = [] \<and> st_success (snd (processNameInput str False))"
  then show "fst (calculateAbjad s (JSString str)) =
          Inr (CalcFailure (lit ''Abjad values not loaded. Call loadAll() first.''))"
    by (simp add: calculateAbjad_unloaded)
next
  assume "\<forall>str. name \<noteq> JSString str"
  then show "\<exists>m. processNameInput_any name False = Inl (TypeError m) \<and>
              calculateAbjad s name = (Inr (CalcFailure m), s)"
    by (rule calculateAbjad_not_string)
next
  assume "parseInt v = Inl e"
  then show "matchDivineNames s v =
      (Inr (MatchFailure (lit ''Abjad value must be a number'')), s)"
    by (rule matchDivineNames_throwing)
next
  assume "namesIndex (fst (getDataLoader s)) = [] \<and> v \<noteq> JSNull \<and> v \<noteq> JSUndefined \<and>
       parseInt v = Inr k"
  then show "fst (matchDivineNames s v) =
          Inr (MatchFailure (lit ''Names index not loaded. Call loadAll() first.''))"
    by (simp add: matchDivineNames_unloaded)
qed

theorem C9_no_entry_point_throws_witness:
  "calculateAbjad initial_state (JSString scenarioA_name) =
     (Inr (CalcFailure (lit ''Abjad values not loaded. Call loadAll() first.'')),
      \<lparr> g_dataLoader = Some (DataLoader_new [] [] []), g_calculator = Some AbjadCalculator,
        g_matcher = None \<rparr>)
   \<and> matchDivineNames initial_state (JSNumber (NumInt 66)) =
     (Inr (MatchFailure (lit ''Names index not loaded. Call loadAll() first.'')),
      \<lparr> g_dataLoader = Some (DataLoader_new [] [] []), g_calculator = None,
        g_matcher = Some \<lparr> valueToIds = [] \<rparr> \<rparr>)
   \<and> calculateAbjad initial_state (JSNumber (NumInt 3)) =
     (Inr (CalcFailure (lit ''text.trim is not a function'')), initial_state)
   \<and> fst (matchDivineNames initial_state (JSString (lit ''abc''))) =
       Inr (MatchFailure (lit ''Names index not loaded. Call loadAll() first.''))
   \<and> matchDivineNames initial_state JSSymbol =
       (Inr (MatchFailure (lit ''Abjad value must be a number'')), initial_state)"
proof -
  note t = C9_no_entry_point_throws
  have a: "calculateAbjad initial_state (JSString scenarioA_name) =
     (Inr (CalcFailure (lit ''Abjad values not loaded. Call loadAll() first.'')),
      \<lparr> g_dataLoader = Some (DataLoader_new [] [] []), g_calculator = Some AbjadCalculator,
        g_matcher = None \<rparr>)"
    using t [where s = initial_state and name = "JSString scenarioA_name"
        and e = "Error (lit ''Abjad values not loaded. Call loadAll() first.'')"
        and s' = "\<lparr> g_dataLoader = Some (DataLoader_new [] [] []),
                     g_calculator = Some AbjadCalculator, g_matcher = None \<rparr>"]
      initial_calculateAbjad_try
    by simp
  have b: "matchDivineNames initial_state (JSNumber (NumInt 66)) =
     (Inr (MatchFailure (lit ''Names index not loaded. Call loadAll() first.'')),
      \<lparr> g_dataLoader = Some (DataLoader_new [] [] []), g_calculator = None,
        g_matcher = Some \<lparr> valueToIds = [] \<rparr> \<rparr>)"
    using t [where s = initial_state and v = "JSNumber (NumInt 66)"
        and e = "Error (lit ''Names index not loaded. Call loadAll() first.'')"
        and s' = "\<lparr> g_dataLoader = Some (DataLoader_new [] [] []), g_calculator = None,
                     g_matcher = Some \<lparr> valueToIds = [] \<rparr> \<rparr>"]
      initial_matchDivineNames_try
    by simp
  have c: "calculateAbjad initial_state (JSNumber (NumInt 3)) =
     (Inr (CalcFailure (lit ''text.trim is not a function'')), initial_state)"
    using t [where s = initial_state and name = "JSNumber (NumInt 3)"]
    by (simp add: processNameInput_any_def)
  have d: "fst (matchDivineNames initial_state (JSString (lit ''abc''))) =
       Inr (MatchFailure (lit ''Names index not loaded. Call loadAll() first.''))"
    using t [where s = initial_state and v = "JSString (lit ''abc'')"
        and k = "parseIntString (lit ''abc'')"]
    by (simp add: initial_state_def getDataLoader_def DataLoader_new_def Let_def parseInt_def)
  have e: "matchDivineNames initial_state JSSymbol =
       (Inr (MatchFailure (lit ''Abjad value must be a number'')), initial_state)"
    using t [where s = initial_state and v = JSSymbol
        and e = "TypeError (lit ''Cannot convert a Symbol value to a string'')"]
    by (simp add: parseInt_def)
  from a b c d e show ?thesis by simp
qed

text \<open>
  C10, as stated, fails at two arguments, on the page loaded with the catalogue of the
  values 5 and 99. \<open>null\<close> is an argument that \<open>parseInt\<close> cannot convert (it reads it as
  NaN), and it is rejected: the result is the failure \<open>Abjad value is required\<close>. On a
  symbol \<open>parseInt\<close> throws, and the result is the failure \<open>Abjad value must be a
  number\<close>: that branch is reached.
\<close>

theorem C10_counterexample:
  "parseInt JSNull = Inr NaN
   \<and> namesIndex second_loader \<noteq> []
   \<and> g_dataLoader fresh_second = Some second_loader
   \<and> fst (matchDivineNames fresh_second JSNull) =
       Inr (MatchFailure (lit ''Abjad value is required''))
   \<and> parseInt JSSymbol = Inl (TypeError (lit ''Cannot convert a Symbol value to a string''))
   \<and> fst (matchDivineNames fresh_second JSSymbol) =
       Inr (MatchFailure (lit ''Abjad value must be a number''))"
proof -
  have 1: "fst (matchDivineNames fresh_second JSNull) =
       Inr (MatchFailure (lit ''Abjad value is required''))"
    by (simp add: matchDivineNames_def matchDivineNames_try_def)
  have 2: "parseInt JSSymbol = Inl (TypeError (lit ''Cannot convert a Symbol value to a string''))"
    by (simp add: parseInt_def)
  have 3: "fst (matchDivineNames fresh_second JSSymbol) =
       Inr (MatchFailure (lit ''Abjad value must be a number''))"
    by (simp add: matchDivineNames_throwing[OF 2])
  have 5: "namesIndex second_loader \<noteq> []" by (simp add: second_namesIndex)
  have 6: "g_dataLoader fresh_second = Some second_loader" by (simp add: fresh_second_eq)
  have 7: "parseInt JSNull = Inr NaN" by (simp add: parseInt_def null_parse)
  from 1 2 3 5 6 7 show ?thesis by (intro conjI)
qed

text \<open>
  C10, amended. An argument other than \<open>null\<close> and \<open>undefined\<close> that \<open>parseInt\<close> reads as
  NaN is not rejected: with a loaded index that has no key \<open>NaN\<close> (the index
  \<open>buildNamesIndex\<close> makes never has one) \<open>matchDivineNames\<close> returns the success of the
  pair type with \<open>found\<close> false, no combinations and the count 0, whatever the matcher
  holds. \<open>null\<close> and \<open>undefined\<close> are rejected with \<open>Abjad value is required\<close>. The
  failure \<open>Abjad value must be a number\<close> is returned exactly when \<open>parseInt\<close> throws,
  which it does exactly when the conversion of the argument to a string throws. A number
  with a fractional part and a magnitude of at least 1e-6 is read as its integer part
  and matched as that integer (its string is in plain decimal notation, \<open>-6 < n \<le> 21\<close>,
  and its integer part is below \<open>2^53\<close>, as for every double with a fractional part that
  is not smaller).
\<close>

theorem C10_non_numeric_input:
  "(v \<noteq> JSNull \<and> v \<noteq> JSUndefined \<and> parseInt v = Inr NaN \<and>
    namesIndex (fst (getDataLoader s)) \<noteq> [] \<and>
    map_of (namesIndex (fst (getDataLoader s))) (lit ''NaN'') = None \<longrightarrow>
      fst (matchDivineNames s v) =
        Inr (MatchPair \<lparr> ap_found = False, ap_abjadValue = NaN, ap_combinations = [],
                         ap_count = 0 \<rparr>))
   \<and> map_of (buildNamesIndex catalog) (lit ''NaN'') = None
   \<and> (u = JSNull \<or> u = JSUndefined \<longrightarrow>
        matchDivineNames s u = (Inr (MatchFailure (lit ''Abjad value is required'')), s))
   \<and> (fst (matchDivineNames s w) = Inr (MatchFailure (lit ''Abjad value must be a number'')))
        = (\<exists>e. parseInt w = Inl e)
   \<and> (parseInt w = Inl e) = (ToString w = Inl e)
   \<and> (wellFormedFrac ds n \<and> - 6 < n \<and> n \<le> 21 \<and>
       \<bar>integerPart neg ds n\<bar> < 9007199254740992 \<longrightarrow>
        parseInt (JSNumber (NumFrac neg ds n)) = Inr (IntVal (integerPart neg ds n)) \<and>
        matchDivineNames s (JSNumber (NumFrac neg ds n)) =
          matchDivineNames s (JSNumber (NumInt (integerPart neg ds n))))"
proof (intro conjI impI)
  assume "v \<noteq> JSNull \<and> v \<noteq> JSUndefined \<and> parseInt v = Inr NaN \<and>
    namesIndex (fst (getDataLoader s)) \<noteq> [] \<and>
    map_of (namesIndex (fst (getDataLoader s))) (lit ''NaN'') = None"
  then show "fst (matchDivineNames s v) =
        Inr (MatchPair \<lparr> ap_found = False, ap_abjadValue = NaN, ap_combinations = [],
                         ap_count = 0 \<rparr>)"
    by (simp add: matchDivineNames_NaN)
next
  show "map_of (buildNamesIndex catalog) (lit ''NaN'') = None"
    by (rule buildNamesIndex_no_NaN)
next
  assume "u = JSNull \<or> u = JSUndefined"
  then show "matchDivineNames s u = (Inr (MatchFailure (lit ''Abjad value is required'')), s)"
    by (auto simp: matchDivineNames_def matchDivineNames_try_def)
next
  show "(fst (matchDivineNames s w) = Inr (MatchFailure (lit ''Abjad value must be a number'')))
        = (\<exists>e. parseInt w = Inl e)"
    by (rule matchDivineNames_must_be_number)
next
  show "(parseInt w = Inl e) = (ToString w = Inl e)"
    by (rule parseInt_throws_iff)
next
  assume "wellFormedFrac ds n \<and> - 6 < n \<and> n \<le> 21 \<and>
       \<bar>integerPart neg ds n\<bar> < 9007199254740992"
  then have a: "wellFormedFrac ds n" "- 6 < n" "n \<le> 21"
    "\<bar>integerPart neg ds n\<bar> < 9007199254740992" by simp_all
  show "parseInt (JSNumber (NumFrac neg ds n)) = Inr (IntVal (integerPart neg ds n))"
    by (rule matchDivineNames_fraction(1)[OF a])
  show "matchDivineNames s (JSNumber (NumFrac neg ds n)) =
          matchDivineNames s (JSNumber (NumInt (integerPart neg ds n)))"
    by (rule matchDivineNames_fraction(2)[OF a])
qed

theorem C10_non_numeric_input_witness:
  "fst (matchDivineNames first_loaded (JSString (lit ''abc''))) =
     Inr (MatchPair \<lparr> ap_found = False, ap_abjadValue = NaN, ap_combinations = [],
                      ap_count = 0 \<rparr>)
   \<and> matchDivineNames first_loaded JSNull =
       (Inr (MatchFailure (lit ''Abjad value is required'')), first_loaded)
   \<and> fst (matchDivineNames first_loaded
       (JSObject (Inl (Error (lit ''no string''))))) =
       Inr (MatchFailure (lit ''Abjad value must be a number''))
   \<and> parseInt (JSNumber (NumFrac False [6, 6, 7] 2)) = Inr (IntVal 66)
   \<and> matchDivineNames first_loaded (JSNumber (NumFrac False [6, 6, 7] 2)) =
       matchDivineNames first_loaded (JSNumber (NumInt 66))"
proof -
  note t = C10_non_numeric_input [where v = "JSString (lit ''abc'')" and s = first_loaded
      and u = JSNull and ds = "[6, 6, 7]" and n = 2 and neg = False
      and w = "JSObject (Inl (Error (lit ''no string'')))"]
  have h: "JSString (lit ''abc'') \<noteq> JSNull \<and> JSString (lit ''abc'') \<noteq> JSUndefined \<and>
      parseInt (JSString (lit ''abc'')) = Inr NaN \<and>
      namesIndex (fst (getDataLoader first_loaded)) \<noteq> [] \<and>
      map_of (namesIndex (fst (getDataLoader first_loaded))) (lit ''NaN'') = None"
    by (simp add: parseInt_def abc_parse first_loaded_loader scenarioD_no_NaN
        scenarioD_index_nonempty)
  from t [THEN conjunct1] h have a:
    "fst (matchDivineNames first_loaded (JSString (lit ''abc''))) =
     Inr (MatchPair \<lparr> ap_found = False, ap_abjadValue = NaN, ap_combinations = [],
                      ap_count = 0 \<rparr>)"
    by (rule mp)
  from t [THEN conjunct2, THEN conjunct2, THEN conjunct1] have b:
    "matchDivineNames first_loaded JSNull =
       (Inr (MatchFailure (lit ''Abjad value is required'')), first_loaded)"
    by simp
  have "\<exists>e. parseInt (JSObject (Inl (Error (lit ''no string'')))) = Inl e"
    by (simp add: parseInt_def)
  with t [THEN conjunct2, THEN conjunct2, THEN conjunct2, THEN conjunct1] have o:
    "fst (matchDivineNames first_loaded (JSObject (Inl (Error (lit ''no string''))))) =
       Inr (MatchFailure (lit ''Abjad value must be a number''))"
    by simp
  have ip: "integerPart False [6, 6, 7] 2 = 66" by (simp add: integerPart_def digitsNat_def)
  have wf: "wellFormedFrac [6, 6, 7] 2 \<and> - 6 < (2::int) \<and> (2::int) \<le> 21 \<and>
      \<bar>integerPart False [6, 6, 7] 2\<bar> < 9007199254740992"
    by (simp add: wellFormedFrac_def ip)
  from t [THEN conjunct2, THEN conjunct2, THEN conjunct2, THEN conjunct2, THEN conjunct2] wf
  have "parseInt (JSNumber (NumFrac False [6, 6, 7] 2)) =
          Inr (IntVal (integerPart False [6, 6, 7] 2))
     \<and> matchDivineNames first_loaded (JSNumber (NumFrac False [6, 6, 7] 2)) =
       matchDivineNames first_loaded (JSNumber (NumInt (integerPart False [6, 6, 7] 2)))"
    by (rule mp)
  then have c: "parseInt (JSNumber (NumFrac False [6, 6, 7] 2)) = Inr (IntVal 66)
     \<and> matchDivineNames first_loaded (JSNumber (NumFrac False [6, 6, 7] 2)) =
       matchDivineNames first_loaded (JSNumber (NumInt 66))"
    by (simp only: ip)
  from a b o c show ?thesis by (intro conjI) simp_all
qed

end
